theory Spec2Isabelle
  imports Main "HOL-Library.Word"
begin

unbundle bit_operations_syntax

section \<open>Applying a network configuration: the package netconfig\<close>

text \<open>
  The package \<^verbatim>\<open>internal/netconfig\<close> applies a configuration to the network stack of a
  router: \<^verbatim>\<open>Apply\<close> runs \<^verbatim>\<open>applyInterfaces\<close>, \<^verbatim>\<open>applyDhcp4\<close>, \<^verbatim>\<open>applyDhcp6\<close>,
  \<^verbatim>\<open>applySysctl\<close> and \<^verbatim>\<open>applyFirewall\<close>, and \<^verbatim>\<open>subnetMaskSize\<close> decodes the subnet
  mask of a DHCPv4 lease. Each Go function is a HOL function of the same name. What the
  Go code does beyond returning a value is explicit: an \<^verbatim>\<open>error\<close> result is a value of
  the type \<open>error\<close>, a \<^verbatim>\<open>nil\<close> error is \<open>None\<close>, the state of the kernel is a record that
  every kernel operation takes and returns, and a run-time panic is an outcome of its own.

  The Go standard library (\<^verbatim>\<open>strings\<close>, \<^verbatim>\<open>strconv\<close>, \<^verbatim>\<open>net\<close>) is embedded where the
  result of a function of this package is decided by it. The file system, the JSON
  decoder, the address parsers and the kernel behind \<^verbatim>\<open>vishvananda/netlink\<close> are the
  environment of the package: they are parameters (the record \<open>env\<close>) and a small
  reference model of the kernel's link, address and route tables.
\<close>

subsection \<open>Data\<close>

type_synonym byte = "8 word"
type_synonym uint64 = "64 word"

text \<open>
  \<^verbatim>\<open>net.IPNet\<close>: an address and a mask, both byte slices (\<^verbatim>\<open>net.IP\<close>, \<^verbatim>\<open>net.IPMask\<close>);
  \<^verbatim>\<open>nil\<close> is the empty list. \<^verbatim>\<open>netlink.Addr\<close> with the two fields that
  \<^verbatim>\<open>netlink.ParseAddr\<close> sets.
\<close>

record IPNet =
  IP :: "byte list"
  Mask :: "byte list"

record netlink_Addr =
  AddrIPNet :: IPNet
  AddrLabel :: string

text \<open>
  \<^verbatim>\<open>netlink.LinkAttrs\<close>, with the fields the package reads (\<^verbatim>\<open>Index\<close>, \<^verbatim>\<open>Name\<close>,
  \<^verbatim>\<open>HardwareAddr\<close>, \<^verbatim>\<open>OperState\<close>) and the administrative flag \<^verbatim>\<open>net.FlagUp\<close> of
  \<^verbatim>\<open>Flags\<close>, which \<^verbatim>\<open>netlink.LinkSetUp\<close> sets. \<^verbatim>\<open>OperState\<close> is the operational state
  of RFC 2863 as the kernel reports it.
\<close>

datatype LinkOperState =
  OperUnknown | OperNotPresent | OperDown | OperLowerLayerDown | OperTesting | OperDormant | OperUp

record LinkAttrs =
  Index :: int
  LinkName :: string
  LinkHardwareAddr :: "byte list"
  FlagUp :: bool
  OperState :: LinkOperState

datatype Scope = SCOPE_UNIVERSE | SCOPE_LINK

text \<open>\<^verbatim>\<open>netlink.Route\<close>, with the fields \<^verbatim>\<open>applyDhcp4\<close> sets; the others keep their zero value.\<close>

record Route =
  LinkIndex :: int
  Dst :: IPNet
  Src :: "byte list"
  Gw :: "byte list"
  RouteScope :: Scope
  Protocol :: int

record InterfaceDetails =
  HardwareAddr :: string
  Name :: string
  Addr :: string

record InterfaceConfig =
  Interfaces :: "InterfaceDetails list"

text \<open>
  Modelled from the spec: the lease types \<^verbatim>\<open>dhcp4.Config\<close> and \<^verbatim>\<open>dhcp6.Config\<close> are
  declared in the packages \<^verbatim>\<open>router7/internal/dhcp4\<close> and \<^verbatim>\<open>router7/internal/dhcp6\<close>,
  which are not among the sources. The records have the fields that \<^verbatim>\<open>applyDhcp4\<close> and
  \<^verbatim>\<open>applyDhcp6\<close> read: the DHCPv4 lease is a client address, a dotted-decimal subnet mask
  and a router address, all strings; the DHCPv6 lease is the sequence of delegated
  prefixes.
\<close>

record dhcp4_Config =
  ClientIP :: string
  SubnetMask :: string
  Router :: string

record dhcp6_Config =
  Prefixes :: "IPNet list"

subsection \<open>Errors\<close>

text \<open>
  A Go \<^verbatim>\<open>error\<close> value. \<open>NumError\<close> is \<^verbatim>\<open>*strconv.NumError\<close> (function, input, cause).
  \<open>Errno\<close> is an error of the operating system or of a library of the environment, named
  by its message. Every \<^verbatim>\<open>fmt.Errorf\<close> of the package is a constructor that keeps the
  arguments of the format: \<open>Errorf_parts\<close> is
  \<^verbatim>\<open>"unexpected number of parts in subnet mask %q: got %d, want %d"\<close>,
  \<open>Errorf_AddrAdd a e\<close> is \<^verbatim>\<open>"AddrAdd(%v): %v"\<close>, and so on.
\<close>

datatype numerr = ErrSyntax | ErrRange | ErrBase int | ErrBitSize int

datatype error =
    NumError string string numerr
  | Errorf_parts string int int
  | Errno string
  | Errorf_NewHandle error
  | Errorf_AddrAdd netlink_Addr error
  | Errorf_RouteAdd_router error
  | Errorf_RouteAdd_default error
  | Errorf_LinkSetName string error
  | Errorf_LinkSetUp string error
  | Errorf_ParseAddr string error
  | Errorf_AddrReplace string netlink_Addr error
  | Errorf_sysctl string error

text \<open>
  How a function that can panic ends: it returns its \<^verbatim>\<open>error\<close> result, or it panics
  (the index expression of \<^verbatim>\<open>applyDhcp6\<close> is the one place of the package that can).
\<close>

datatype outcome = Return "error option" | Panic string

subsection \<open>The standard library: \<^verbatim>\<open>strings.Split\<close> and \<^verbatim>\<open>strconv.ParseUint\<close>\<close>

text \<open>
  \<^verbatim>\<open>strings.Split(s, sep)\<close> for a separator of one byte: the substrings between the
  separators, so the result has one element more than \<open>s\<close> has separators.
\<close>

fun Split :: "string \<Rightarrow> char \<Rightarrow> string list" where
  "Split [] sep = [[]]"
| "Split (c # cs) sep =
     (if c = sep then [] # Split cs sep
      else (case Split cs sep of
              [] \<Rightarrow> [[c]]
            | p # ps \<Rightarrow> (c # p) # ps))"

text \<open>
  \<^verbatim>\<open>strconv.ParseUint(s, base, bitSize)\<close>, as in Go 1.13 and later. With base 0 the base
  comes from the prefix of \<open>s\<close> (\<^verbatim>\<open>0b\<close>, \<^verbatim>\<open>0o\<close>, \<^verbatim>\<open>0x\<close>, a leading \<^verbatim>\<open>0\<close> for octal,
  decimal otherwise) and underscores may separate digits. The accumulator is a
  \<^verbatim>\<open>uint64\<close>; on an error Go also returns a number, which \<^verbatim>\<open>subnetMaskSize\<close> drops.
\<close>

definition lower :: "char \<Rightarrow> char" where
  "lower c = char_of ((of_char c :: nat) OR 32)"

definition is_digit :: "char \<Rightarrow> bool" where
  "is_digit c \<longleftrightarrow> (of_char CHR ''0'' :: nat) \<le> of_char c \<and> (of_char c :: nat) \<le> of_char CHR ''9''"

definition is_letter :: "char \<Rightarrow> bool" where
  "is_letter c \<longleftrightarrow> (of_char CHR ''a'' :: nat) \<le> of_char (lower c)
     \<and> (of_char (lower c) :: nat) \<le> of_char CHR ''z''"

datatype saw = SawStart | SawDigit | SawUnderscore | SawOther

fun underscoreOK_loop :: "bool \<Rightarrow> saw \<Rightarrow> string \<Rightarrow> bool" where
  "underscoreOK_loop hex sw [] = (sw \<noteq> SawUnderscore)"
| "underscoreOK_loop hex sw (c # cs) =
     (if is_digit c \<or> (hex \<and> (of_char CHR ''a'' :: nat) \<le> of_char (lower c)
                          \<and> (of_char (lower c) :: nat) \<le> of_char CHR ''f'')
      then underscoreOK_loop hex SawDigit cs
      else if c = CHR ''_''
      then (if sw \<noteq> SawDigit then False else underscoreOK_loop hex SawUnderscore cs)
      else if sw = SawUnderscore then False
      else underscoreOK_loop hex SawOther cs)"

definition underscoreOK :: "string \<Rightarrow> bool" where
  "underscoreOK s0 =
     (let s = (if length s0 \<ge> 1 \<and> (hd s0 = CHR ''-'' \<or> hd s0 = CHR ''+'') then tl s0 else s0)
      in if length s \<ge> 2 \<and> s ! 0 = CHR ''0''
            \<and> (lower (s ! 1) = CHR ''b'' \<or> lower (s ! 1) = CHR ''o'' \<or> lower (s ! 1) = CHR ''x'')
         then underscoreOK_loop (lower (s ! 1) = CHR ''x'') SawDigit (drop 2 s)
         else underscoreOK_loop False SawStart s)"

fun ParseUint_loop ::
  "string \<Rightarrow> bool \<Rightarrow> nat \<Rightarrow> uint64 \<Rightarrow> uint64 \<Rightarrow> string \<Rightarrow> uint64 \<Rightarrow> bool \<Rightarrow> error + uint64" where
  "ParseUint_loop s0 base0 base cutoff maxVal [] n underscores =
     (if underscores \<and> \<not> underscoreOK s0 then Inl (NumError ''ParseUint'' s0 ErrSyntax)
      else Inr n)"
| "ParseUint_loop s0 base0 base cutoff maxVal (c # cs) n underscores =
     (if c = CHR ''_'' \<and> base0 then ParseUint_loop s0 base0 base cutoff maxVal cs n True
      else if \<not> is_digit c \<and> \<not> is_letter c then Inl (NumError ''ParseUint'' s0 ErrSyntax)
      else
        let d = (if is_digit c then (of_char c :: nat) - of_char CHR ''0''
                 else (of_char (lower c) :: nat) - of_char CHR ''a'' + 10)
        in if d \<ge> base then Inl (NumError ''ParseUint'' s0 ErrSyntax)
           else if n \<ge> cutoff then Inl (NumError ''ParseUint'' s0 ErrRange)
           else
             let n1 = n * of_nat base + of_nat d
             in if n1 < n * of_nat base \<or> n1 > maxVal then Inl (NumError ''ParseUint'' s0 ErrRange)
                else ParseUint_loop s0 base0 base cutoff maxVal cs n1 underscores)"

definition ParseUint :: "string \<Rightarrow> int \<Rightarrow> int \<Rightarrow> error + uint64" where
  "ParseUint s0 base bitSize =
     (if s0 = [] then Inl (NumError ''ParseUint'' s0 ErrSyntax)
      else if \<not> (2 \<le> base \<and> base \<le> 36) \<and> base \<noteq> 0
      then Inl (NumError ''ParseUint'' s0 (ErrBase base))
      else
        let (b, s) =
          (if 2 \<le> base \<and> base \<le> 36 then (nat base, s0)
           else if hd s0 = CHR ''0'' then
             (if length s0 \<ge> 3 \<and> lower (s0 ! 1) = CHR ''b'' then (2, drop 2 s0)
              else if length s0 \<ge> 3 \<and> lower (s0 ! 1) = CHR ''o'' then (8, drop 2 s0)
              else if length s0 \<ge> 3 \<and> lower (s0 ! 1) = CHR ''x'' then (16, drop 2 s0)
              else (8, drop 1 s0))
           else (10, s0))
        in if bitSize < 0 \<or> bitSize > 64 then Inl (NumError ''ParseUint'' s0 (ErrBitSize bitSize))
           else
             let bits = (if bitSize = 0 then 64 else nat bitSize);
                 cutoff = (- 1 :: uint64) div of_nat b + 1;
                 maxVal = (push_bit bits (1 :: uint64)) - 1
             in ParseUint_loop s0 (base = 0) b cutoff maxVal s 0 False)"

subsection \<open>The standard library: network masks\<close>

text \<open>
  Every property of a single byte is decided by running through the 256 bytes.
\<close>

lemma byte_all:
  assumes "\<forall>n \<in> set [0..<256]. P (of_nat n :: byte)"
  shows "P w"
proof (cases w)
  case (1 n)
  then have "n \<in> set [0..<256]" by simp
  with assms 1 show ?thesis by blast
qed

lemma shl_decreases: "(v :: byte) AND 0x80 \<noteq> 0 \<Longrightarrow> unat (v * 2) < unat v"
proof -
  have "(v :: byte) AND 0x80 \<noteq> 0 \<longrightarrow> unat (v * 2) < unat v"
    by (rule byte_all) code_simp
  then show "(v :: byte) AND 0x80 \<noteq> 0 \<Longrightarrow> unat (v * 2) < unat v" by simp
qed

text \<open>
  \<^verbatim>\<open>net.simpleMaskLength\<close>. Bytes \<^verbatim>\<open>0xff\<close> count eight bits each. In the first other
  byte the inner loop \<^verbatim>\<open>for v&0x80 != 0 { n++; v <<= 1 }\<close> (\<open>count_ones\<close>) counts the
  leading one bits and shifts them out; what is left of the byte, and every byte after
  it, must be zero, or the result is \<open>-1\<close>.
\<close>

function count_ones :: "byte \<Rightarrow> int \<Rightarrow> byte \<times> int" where
  "count_ones v n = (if v AND 0x80 \<noteq> 0 then count_ones (push_bit 1 v) (n + 1) else (v, n))"
  by pat_completeness auto
termination
  by (relation "measure (\<lambda>(v, n). unat v)") (auto simp: shl_decreases)

declare count_ones.simps [simp del]

fun simpleMaskLength_from :: "byte list \<Rightarrow> int \<Rightarrow> int" where
  "simpleMaskLength_from [] n = n"
| "simpleMaskLength_from (v # rest) n =
     (if v = 0xff then simpleMaskLength_from rest (n + 8)
      else
        let (v', n') = count_ones v n
        in if v' \<noteq> 0 then - 1
           else if \<exists>x \<in> set rest. x \<noteq> 0 then - 1
           else n')"

definition simpleMaskLength :: "byte list \<Rightarrow> int" where
  "simpleMaskLength m = simpleMaskLength_from m 0"

text \<open>
  \<^verbatim>\<open>IPMask.Size\<close>: the number of leading ones and the number of bits; \<open>(0, 0)\<close> for a
  mask that is not ones followed by zeros. \<^verbatim>\<open>net.IPv4Mask\<close> and \<^verbatim>\<open>net.CIDRMask\<close> build
  masks.
\<close>

definition Size :: "byte list \<Rightarrow> int \<times> int" where
  "Size m =
     (let ones = simpleMaskLength m; bits = int (length m) * 8
      in if ones = - 1 then (0, 0) else (ones, bits))"

definition IPv4Mask :: "byte \<Rightarrow> byte \<Rightarrow> byte \<Rightarrow> byte \<Rightarrow> byte list" where
  "IPv4Mask a b c d = [a, b, c, d]"

fun CIDRMask_loop :: "nat \<Rightarrow> nat \<Rightarrow> byte list" where
  "CIDRMask_loop 0 n = []"
| "CIDRMask_loop (Suc l) n =
     (if n \<ge> 8 then 0xff # CIDRMask_loop l (n - 8)
      else NOT (drop_bit n (0xff :: byte)) # CIDRMask_loop l 0)"

definition CIDRMask :: "int \<Rightarrow> int \<Rightarrow> byte list" where
  "CIDRMask ones bits =
     (if bits \<noteq> 8 * 4 \<and> bits \<noteq> 8 * 16 then []
      else if ones < 0 \<or> ones > bits then []
      else CIDRMask_loop (nat (bits div 8)) (nat ones))"

subsection \<open>\<^verbatim>\<open>subnetMaskSize\<close>\<close>

text \<open>
  The loop over the parts stops at the first part that \<^verbatim>\<open>ParseUint\<close> refuses and
  returns its error; \<^verbatim>\<open>byte(i)\<close> is \<open>ucast\<close>.
\<close>

fun parse_parts :: "string list \<Rightarrow> error + byte list" where
  "parse_parts [] = Inr []"
| "parse_parts (part # parts) =
     (case ParseUint part 0 8 of
        Inl err \<Rightarrow> Inl err
      | Inr i \<Rightarrow> (case parse_parts parts of
                    Inl err \<Rightarrow> Inl err
                  | Inr numeric \<Rightarrow> Inr (ucast i # numeric)))"

definition subnetMaskSize :: "string \<Rightarrow> error + int" where
  "subnetMaskSize smask =
     (let parts = Split smask CHR ''.''
      in if int (length parts) \<noteq> 4 then Inl (Errorf_parts smask (int (length parts)) 4)
         else (case parse_parts parts of
                 Inl err \<Rightarrow> Inl err
               | Inr numeric \<Rightarrow>
                   Inr (fst (Size (IPv4Mask (numeric ! 0) (numeric ! 1) (numeric ! 2) (numeric ! 3))))))"

subsection \<open>The environment: files, decoders, parsers and the kernel\<close>

text \<open>
  An operation the package asks the operating system for, with its arguments; a link is
  named by its index, as netlink does. \<open>KSetsockopt\<close> is \<^verbatim>\<open>unix.SetsockoptString\<close>
  (descriptor, level, option, bytes).
\<close>

datatype kcall =
    KReadFile string
  | KLinkList
  | KLinkByName string
  | KLinkSetName int string
  | KLinkSetUp int
  | KAddrReplace int netlink_Addr
  | KAddrAdd int netlink_Addr
  | KNewHandle
  | KRouteAdd Route
  | KWriteFile string string
  | KSocket int int int
  | KSetsockopt int int int "byte list"

text \<open>The lines that \<^verbatim>\<open>log.Printf\<close> writes, by their format.\<close>

datatype logentry =
    Log_apply_details InterfaceDetails
  | Log_cannot_apply_dhcp4 error
  | Log_cannot_apply_dhcp6 error
  | Log_cannot_apply_sysctl error

text \<open>
  What the package takes from its environment and never changes: the content of the
  configuration files as \<^verbatim>\<open>ioutil.ReadFile\<close> finds it (\<open>file_content\<close>; the package does not
  write them), \<^verbatim>\<open>filepath.Join\<close>, \<^verbatim>\<open>json.Unmarshal\<close> at the three types it decodes,
  \<^verbatim>\<open>netlink.ParseAddr\<close>, \<^verbatim>\<open>net.ParseIP\<close> and \<^verbatim>\<open>IPNet.String\<close>. \<open>fault\<close> says which
  kernel operations the kernel refuses, and with which error: an operation fails when
  \<open>fault\<close> gives an error for it, or when the reference model below says so.
\<close>

record env =
  file_content :: "string \<Rightarrow> error + string"
  filepath_Join :: "string \<Rightarrow> string \<Rightarrow> string"
  Unmarshal_InterfaceConfig :: "string \<Rightarrow> error + InterfaceConfig"
  Unmarshal_dhcp4_Config :: "string \<Rightarrow> error + dhcp4_Config"
  Unmarshal_dhcp6_Config :: "string \<Rightarrow> error + dhcp6_Config"
  ParseAddr :: "string \<Rightarrow> error + netlink_Addr"
  ParseIP :: "string \<Rightarrow> byte list"
  IPNet_String :: "IPNet \<Rightarrow> string"
  fault :: "kcall \<Rightarrow> error option"

text \<open>
  The state of the kernel: the links in the order \<^verbatim>\<open>netlink.LinkList\<close> reports them,
  the addresses (by link index) and the routes, the data written to files, the number of
  sockets opened (none is ever closed) and the options set on them. \<open>calls\<close> is the
  sequence of the operations asked for so far, refused ones included, and \<open>logs\<close> the log.
\<close>

record kernel =
  links :: "LinkAttrs list"
  addrs :: "(int \<times> netlink_Addr) set"
  routes :: "Route set"
  files :: "(string \<times> string) list"
  sockets :: nat
  sockopts :: "(int \<times> int \<times> int \<times> byte list) list"
  calls :: "kcall list"
  logs :: "logentry list"

definition called :: "kcall \<Rightarrow> kernel \<Rightarrow> kernel" where
  "called c k = k\<lparr>calls := calls k @ [c]\<rparr>"

definition logged :: "logentry \<Rightarrow> kernel \<Rightarrow> kernel" where
  "logged e k = k\<lparr>logs := logs k @ [e]\<rparr>"

text \<open>
  The reference model of the netlink operations. \<^verbatim>\<open>LinkList\<close> returns the links and a
  \<^verbatim>\<open>nil\<close> error, or \<^verbatim>\<open>nil\<close> and the error. \<^verbatim>\<open>LinkSetName\<close> and \<^verbatim>\<open>LinkSetUp\<close> change
  the link with the index of their argument; the operational state follows the carrier
  later and is not changed by the call. \<^verbatim>\<open>AddrReplace\<close> sends \<^verbatim>\<open>NLM_F_CREATE|NLM_F_REPLACE\<close>:
  the address is on the link afterwards, whether or not it was before. \<^verbatim>\<open>AddrAdd\<close> and
  \<^verbatim>\<open>RouteAdd\<close> send \<^verbatim>\<open>NLM_F_CREATE|NLM_F_EXCL\<close>: the kernel answers \<^verbatim>\<open>EEXIST\<close>
  (\<^verbatim>\<open>file exists\<close>) when the address or the route is there already.
\<close>

definition ReadFile :: "env \<Rightarrow> string \<Rightarrow> kernel \<Rightarrow> (error + string) \<times> kernel" where
  "ReadFile E path k = (file_content E path, called (KReadFile path) k)"

definition LinkList :: "env \<Rightarrow> kernel \<Rightarrow> (LinkAttrs list \<times> error option) \<times> kernel" where
  "LinkList E k =
     (case fault E KLinkList of
        Some err \<Rightarrow> (([], Some err), called KLinkList k)
      | None \<Rightarrow> ((links k, None), called KLinkList k))"

definition LinkByName :: "env \<Rightarrow> string \<Rightarrow> kernel \<Rightarrow> (error + LinkAttrs) \<times> kernel" where
  "LinkByName E name k =
     (case fault E (KLinkByName name) of
        Some err \<Rightarrow> (Inl err, called (KLinkByName name) k)
      | None \<Rightarrow>
          (case find (\<lambda>l. LinkName l = name) (links k) of
             None \<Rightarrow> (Inl (Errno ''Link not found''), called (KLinkByName name) k)
           | Some l \<Rightarrow> (Inr l, called (KLinkByName name) k)))"

definition LinkSetName :: "env \<Rightarrow> LinkAttrs \<Rightarrow> string \<Rightarrow> kernel \<Rightarrow> error option \<times> kernel" where
  "LinkSetName E l name k =
     (case fault E (KLinkSetName (Index l) name) of
        Some err \<Rightarrow> (Some err, called (KLinkSetName (Index l) name) k)
      | None \<Rightarrow>
          (None, called (KLinkSetName (Index l) name)
                   (k\<lparr>links := map (\<lambda>x. if Index x = Index l then x\<lparr>LinkName := name\<rparr> else x) (links k)\<rparr>)))"

definition LinkSetUp :: "env \<Rightarrow> LinkAttrs \<Rightarrow> kernel \<Rightarrow> error option \<times> kernel" where
  "LinkSetUp E l k =
     (case fault E (KLinkSetUp (Index l)) of
        Some err \<Rightarrow> (Some err, called (KLinkSetUp (Index l)) k)
      | None \<Rightarrow>
          (None, called (KLinkSetUp (Index l))
                   (k\<lparr>links := map (\<lambda>x. if Index x = Index l then x\<lparr>FlagUp := True\<rparr> else x) (links k)\<rparr>)))"

definition AddrReplace :: "env \<Rightarrow> LinkAttrs \<Rightarrow> netlink_Addr \<Rightarrow> kernel \<Rightarrow> error option \<times> kernel" where
  "AddrReplace E l a k =
     (case fault E (KAddrReplace (Index l) a) of
        Some err \<Rightarrow> (Some err, called (KAddrReplace (Index l) a) k)
      | None \<Rightarrow>
          (None, called (KAddrReplace (Index l) a) (k\<lparr>addrs := insert (Index l, a) (addrs k)\<rparr>)))"

definition AddrAdd :: "env \<Rightarrow> LinkAttrs \<Rightarrow> netlink_Addr \<Rightarrow> kernel \<Rightarrow> error option \<times> kernel" where
  "AddrAdd E l a k =
     (case fault E (KAddrAdd (Index l) a) of
        Some err \<Rightarrow> (Some err, called (KAddrAdd (Index l) a) k)
      | None \<Rightarrow>
          if (Index l, a) \<in> addrs k
          then (Some (Errno ''file exists''), called (KAddrAdd (Index l) a) k)
          else (None, called (KAddrAdd (Index l) a) (k\<lparr>addrs := insert (Index l, a) (addrs k)\<rparr>)))"

definition NewHandle :: "env \<Rightarrow> kernel \<Rightarrow> error option \<times> kernel" where
  "NewHandle E k =
     (case fault E KNewHandle of
        Some err \<Rightarrow> (Some err, called KNewHandle k)
      | None \<Rightarrow> (None, called KNewHandle k))"

definition RouteAdd :: "env \<Rightarrow> Route \<Rightarrow> kernel \<Rightarrow> error option \<times> kernel" where
  "RouteAdd E r k =
     (case fault E (KRouteAdd r) of
        Some err \<Rightarrow> (Some err, called (KRouteAdd r) k)
      | None \<Rightarrow>
          if r \<in> routes k
          then (Some (Errno ''file exists''), called (KRouteAdd r) k)
          else (None, called (KRouteAdd r) (k\<lparr>routes := insert r (routes k)\<rparr>)))"

text \<open>
  \<^verbatim>\<open>ioutil.WriteFile\<close> on a device or a file of \<^verbatim>\<open>/proc\<close>, \<^verbatim>\<open>unix.Socket\<close> (the
  descriptors are numbered from 3) and \<^verbatim>\<open>unix.SetsockoptString\<close>.
\<close>

definition WriteFile :: "env \<Rightarrow> string \<Rightarrow> string \<Rightarrow> kernel \<Rightarrow> error option \<times> kernel" where
  "WriteFile E path data k =
     (case fault E (KWriteFile path data) of
        Some err \<Rightarrow> (Some err, called (KWriteFile path data) k)
      | None \<Rightarrow> (None, called (KWriteFile path data) (k\<lparr>files := files k @ [(path, data)]\<rparr>)))"

definition Socket :: "env \<Rightarrow> int \<Rightarrow> int \<Rightarrow> int \<Rightarrow> kernel \<Rightarrow> (error + int) \<times> kernel" where
  "Socket E domain ty proto k =
     (case fault E (KSocket domain ty proto) of
        Some err \<Rightarrow> (Inl err, called (KSocket domain ty proto) k)
      | None \<Rightarrow>
          (Inr (3 + int (sockets k)),
           called (KSocket domain ty proto) (k\<lparr>sockets := Suc (sockets k)\<rparr>)))"

definition SetsockoptString ::
  "env \<Rightarrow> int \<Rightarrow> int \<Rightarrow> int \<Rightarrow> byte list \<Rightarrow> kernel \<Rightarrow> error option \<times> kernel" where
  "SetsockoptString E fd level opt s k =
     (case fault E (KSetsockopt fd level opt s) of
        Some err \<Rightarrow> (Some err, called (KSetsockopt fd level opt s) k)
      | None \<Rightarrow>
          (None, called (KSetsockopt fd level opt s)
                   (k\<lparr>sockopts := sockopts k @ [(fd, level, opt, s)]\<rparr>)))"

subsection \<open>Formatting\<close>

text \<open>
  \<^verbatim>\<open>HardwareAddr.String\<close>: two lower-case hexadecimal digits for each byte, colons
  between the bytes, the empty string for no bytes. \<open>Itoa\<close> is the verb \<^verbatim>\<open>%d\<close> at an
  \<^verbatim>\<open>int\<close>, and \<open>Sprintf_apply\<close> is \<^verbatim>\<open>fmt.Sprintf("apply %+v\n", details)\<close>.
\<close>

definition hexDigit :: string where
  "hexDigit = ''0123456789abcdef''"

fun HardwareAddr_String_loop :: "nat \<Rightarrow> byte list \<Rightarrow> string" where
  "HardwareAddr_String_loop i [] = []"
| "HardwareAddr_String_loop i (b # bs) =
     (if i > 0 then [CHR '':''] else [])
     @ [hexDigit ! unat (drop_bit 4 b), hexDigit ! unat (b AND 0xF)]
     @ HardwareAddr_String_loop (i + 1) bs"

definition HardwareAddr_String :: "byte list \<Rightarrow> string" where
  "HardwareAddr_String a = (if length a = 0 then [] else HardwareAddr_String_loop 0 a)"

function digits :: "nat \<Rightarrow> string" where
  "digits n = (if n < 10 then [char_of (48 + n)] else digits (n div 10) @ [char_of (48 + n mod 10)])"
  by pat_completeness auto
termination
  by (relation "measure id") auto

declare digits.simps [simp del]

definition Itoa :: "int \<Rightarrow> string" where
  "Itoa i = (if i < 0 then CHR ''-'' # digits (nat (- i)) else digits (nat i))"

definition Sprintf_apply :: "InterfaceDetails \<Rightarrow> string" where
  "Sprintf_apply details =
     ''apply {HardwareAddr:'' @ HardwareAddr details @ '' Name:'' @ Name details
       @ '' Addr:'' @ Addr details @ ''}'' @ [CHR 0x0A]"

subsection \<open>\<^verbatim>\<open>applyInterfaces\<close>\<close>

text \<open>
  The map \<^verbatim>\<open>byHardwareAddr\<close>: a later entry of the configuration replaces an earlier one
  with the same hardware address.
\<close>

definition byHardwareAddr :: "InterfaceConfig \<Rightarrow> (string \<rightharpoonup> InterfaceDetails)" where
  "byHardwareAddr cfg = fold (\<lambda>details m. m(HardwareAddr details \<mapsto> details)) (Interfaces cfg) Map.empty"

text \<open>
  The body of the loop over the links, for a link \<open>l\<close> whose hardware address has the
  entry \<open>details\<close>. The result of writing to \<^verbatim>\<open>/dev/console\<close> is dropped. \<open>attr\<close> is the
  link after \<^verbatim>\<open>attr.Name = details.Name\<close>.
\<close>

definition applyLink :: "env \<Rightarrow> InterfaceDetails \<Rightarrow> LinkAttrs \<Rightarrow> kernel \<Rightarrow> error option \<times> kernel" where
  "applyLink E details l k =
     (let k0 = logged (Log_apply_details details) k;
          k1 = snd (WriteFile E ''/dev/console'' (Sprintf_apply details) k0)
      in case (if LinkName l \<noteq> Name details then LinkSetName E l (Name details) k1 else (None, k1)) of
           (Some err, k2) \<Rightarrow> (Some (Errorf_LinkSetName (Name details) err), k2)
         | (None, k2) \<Rightarrow>
             let attr = (if LinkName l \<noteq> Name details then l\<lparr>LinkName := Name details\<rparr> else l)
             in case (if OperState attr \<noteq> OperUp then LinkSetUp E attr k2 else (None, k2)) of
                  (Some err, k3) \<Rightarrow> (Some (Errorf_LinkSetUp (LinkName attr) err), k3)
                | (None, k3) \<Rightarrow>
                    if Addr details \<noteq> [] then
                      (case ParseAddr E (Addr details) of
                         Inl err \<Rightarrow> (Some (Errorf_ParseAddr (Addr details) err), k3)
                       | Inr addr \<Rightarrow>
                           (case AddrReplace E attr addr k3 of
                              (Some err, k4) \<Rightarrow> (Some (Errorf_AddrReplace (LinkName attr) addr err), k4)
                            | (None, k4) \<Rightarrow> (None, k4)))
                    else (None, k3))"

text \<open>
  The loop \<^verbatim>\<open>for _, l := range links\<close>: a link without an entry is passed over
  (\<^verbatim>\<open>continue\<close>), the first error ends the function.
\<close>

fun applyLinks ::
  "env \<Rightarrow> (string \<rightharpoonup> InterfaceDetails) \<Rightarrow> LinkAttrs list \<Rightarrow> kernel \<Rightarrow> error option \<times> kernel" where
  "applyLinks E byHw [] k = (None, k)"
| "applyLinks E byHw (l # ls) k =
     (case byHw (HardwareAddr_String (LinkHardwareAddr l)) of
        None \<Rightarrow> applyLinks E byHw ls k
      | Some details \<Rightarrow>
          (case applyLink E details l k of
             (Some err, k') \<Rightarrow> (Some err, k')
           | (None, k') \<Rightarrow> applyLinks E byHw ls k'))"

text \<open>The error that \<^verbatim>\<open>netlink.LinkList\<close> returns is assigned and never read.\<close>

definition applyInterfaces :: "env \<Rightarrow> string \<Rightarrow> kernel \<Rightarrow> error option \<times> kernel" where
  "applyInterfaces E dir k =
     (case ReadFile E (filepath_Join E dir ''interfaces.json'') k of
        (Inl err, k0) \<Rightarrow> (Some err, k0)
      | (Inr b, k0) \<Rightarrow>
          (case Unmarshal_InterfaceConfig E b of
             Inl err \<Rightarrow> (Some err, k0)
           | Inr cfg \<Rightarrow>
               (case LinkList E k0 of
                  ((ls, err), k1) \<Rightarrow> applyLinks E (byHardwareAddr cfg) ls k1)))"

subsection \<open>\<^verbatim>\<open>applyDhcp4\<close>\<close>

definition RTPROT_STATIC :: int where
  "RTPROT_STATIC = 4"

definition RTPROT_DHCP :: int where
  "RTPROT_DHCP = 16"

text \<open>
  The argument of \<^verbatim>\<open>ParseAddr\<close>, \<^verbatim>\<open>fmt.Sprintf("%s/%d", got.ClientIP, subnetSize)\<close>, and
  the two routes: the host route to the router and the default route through it.
\<close>

definition dhcp4_address :: "dhcp4_Config \<Rightarrow> int \<Rightarrow> string" where
  "dhcp4_address got subnetSize = ClientIP got @ ''/'' @ Itoa subnetSize"

definition dhcp4_router_route :: "env \<Rightarrow> dhcp4_Config \<Rightarrow> LinkAttrs \<Rightarrow> Route" where
  "dhcp4_router_route E got link =
     \<lparr>LinkIndex = Index link,
      Dst = \<lparr>IP = ParseIP E (Router got), Mask = CIDRMask 32 32\<rparr>,
      Src = ParseIP E (ClientIP got),
      Gw = [],
      RouteScope = SCOPE_LINK,
      Protocol = RTPROT_DHCP\<rparr>"

definition dhcp4_default_route :: "env \<Rightarrow> dhcp4_Config \<Rightarrow> LinkAttrs \<Rightarrow> Route" where
  "dhcp4_default_route E got link =
     \<lparr>LinkIndex = Index link,
      Dst = \<lparr>IP = ParseIP E ''0.0.0.0'', Mask = CIDRMask 0 32\<rparr>,
      Src = ParseIP E (ClientIP got),
      Gw = ParseIP E (Router got),
      RouteScope = SCOPE_UNIVERSE,
      Protocol = RTPROT_DHCP\<rparr>"

definition applyDhcp4 :: "env \<Rightarrow> string \<Rightarrow> string \<Rightarrow> kernel \<Rightarrow> error option \<times> kernel" where
  "applyDhcp4 E iface dir k =
     (case ReadFile E (filepath_Join E dir ''dhcp4/wire/lease.json'') k of
        (Inl err, k0) \<Rightarrow> (Some err, k0)
      | (Inr b, k0) \<Rightarrow>
     (case Unmarshal_dhcp4_Config E b of
        Inl err \<Rightarrow> (Some err, k0)
      | Inr got \<Rightarrow>
     (case LinkByName E iface k0 of
        (Inl err, k1) \<Rightarrow> (Some err, k1)
      | (Inr link, k1) \<Rightarrow>
     (case subnetMaskSize (SubnetMask got) of
        Inl err \<Rightarrow> (Some err, k1)
      | Inr subnetSize \<Rightarrow>
     (case ParseAddr E (dhcp4_address got subnetSize) of
        Inl err \<Rightarrow> (Some err, k1)
      | Inr addr \<Rightarrow>
     (case NewHandle E k1 of
        (Some err, k2) \<Rightarrow> (Some (Errorf_NewHandle err), k2)
      | (None, k2) \<Rightarrow>
     (case AddrAdd E link addr k2 of
        (Some err, k3) \<Rightarrow> (Some (Errorf_AddrAdd addr err), k3)
      | (None, k3) \<Rightarrow>
     (case RouteAdd E (dhcp4_router_route E got link) k3 of
        (Some err, k4) \<Rightarrow> (Some (Errorf_RouteAdd_router err), k4)
      | (None, k4) \<Rightarrow>
     (case RouteAdd E (dhcp4_default_route E got link) k4 of
        (Some err, k5) \<Rightarrow> (Some (Errorf_RouteAdd_default err), k5)
      | (None, k5) \<Rightarrow> (None, k5))))))))))"

subsection \<open>\<^verbatim>\<open>applyDhcp6\<close>\<close>

text \<open>
  What the loop does to a prefix before it asks for its text: the last byte of the
  address becomes 1, and a mask with fewer than 64 leading ones becomes
  \<^verbatim>\<open>net.CIDRMask(64, bits)\<close>. The assignment \<^verbatim>\<open>prefix.IP[len(prefix.IP)-1] = 1\<close> panics
  on an empty address.
\<close>

definition first_address :: "IPNet \<Rightarrow> IPNet" where
  "first_address prefix =
     (let prefix1 = prefix\<lparr>IP := (IP prefix)[length (IP prefix) - 1 := 1]\<rparr>;
          (ones, bits) = Size (Mask prefix1)
      in if ones < 64 then prefix1\<lparr>Mask := CIDRMask 64 bits\<rparr> else prefix1)"

fun applyPrefixes :: "env \<Rightarrow> LinkAttrs \<Rightarrow> IPNet list \<Rightarrow> kernel \<Rightarrow> outcome \<times> kernel" where
  "applyPrefixes E link [] k = (Return None, k)"
| "applyPrefixes E link (prefix # rest) k =
     (if length (IP prefix) = 0 then (Panic ''index out of range'', k)
      else
        (case ParseAddr E (IPNet_String E (first_address prefix)) of
           Inl err \<Rightarrow> (Return (Some err), k)
         | Inr addr \<Rightarrow>
             (case AddrAdd E link addr k of
                (Some err, k') \<Rightarrow> (Return (Some (Errorf_AddrAdd addr err)), k')
              | (None, k') \<Rightarrow> applyPrefixes E link rest k')))"

definition applyDhcp6 :: "env \<Rightarrow> string \<Rightarrow> string \<Rightarrow> kernel \<Rightarrow> outcome \<times> kernel" where
  "applyDhcp6 E iface dir k =
     (case ReadFile E (filepath_Join E dir ''dhcp6/wire/lease.json'') k of
        (Inl err, k0) \<Rightarrow> (Return (Some err), k0)
      | (Inr b, k0) \<Rightarrow>
          (case Unmarshal_dhcp6_Config E b of
             Inl err \<Rightarrow> (Return (Some err), k0)
           | Inr got \<Rightarrow>
               (case LinkByName E iface k0 of
                  (Inl err, k1) \<Rightarrow> (Return (Some err), k1)
                | (Inr link, k1) \<Rightarrow> applyPrefixes E link (Prefixes got) k1)))"

subsection \<open>\<^verbatim>\<open>applyFirewall\<close> and \<^verbatim>\<open>applySysctl\<close>\<close>

text \<open>
  The two blobs of \<^verbatim>\<open>applyFirewall\<close>, byte for byte: the replacement of the table
  \<^verbatim>\<open>nat\<close> with one rule \<^verbatim>\<open>MASQUERADE\<close> for \<^verbatim>\<open>uplink0\<close>, and its counters.
\<close>

definition optRule :: "byte list" where
  "optRule =
     [
      0x6e, 0x61, 0x74, 0x00, 0x00, 0x00, 0x00, 0x00, 0x00, 0x00, 0x00, 0x00, 0x00, 0x00, 0x00, 0x00,
      0x00, 0x00, 0x00, 0x00, 0x00, 0x00, 0x00, 0x00, 0x00, 0x00, 0x00, 0x00, 0x00, 0x00, 0x00, 0x00,
      0x1b, 0x00, 0x00, 0x00, 0x06, 0x00, 0x00, 0x00, 0xb8, 0x03, 0x00, 0x00, 0x00, 0x00, 0x00, 0x00,
      0x98, 0x00, 0x00, 0x00, 0x00, 0x00, 0x00, 0x00, 0x30, 0x01, 0x00, 0x00, 0xc8, 0x01, 0x00, 0x00,
      0x00, 0x00, 0x00, 0x00, 0x98, 0x00, 0x00, 0x00, 0x00, 0x00, 0x00, 0x00, 0x30, 0x01, 0x00, 0x00,
      0x70, 0x02, 0x00, 0x00, 0x05, 0x00, 0x00, 0x00, 0x70, 0xed, 0xdb, 0x08, 0x00, 0x00, 0x00, 0x00,
      0x00, 0x00, 0x00, 0x00, 0x00, 0x00, 0x00, 0x00, 0x00, 0x00, 0x00, 0x00, 0x00, 0x00, 0x00, 0x00,
      0x00, 0x00, 0x00, 0x00, 0x00, 0x00, 0x00, 0x00, 0x00, 0x00, 0x00, 0x00, 0x00, 0x00, 0x00, 0x00,
      0x00, 0x00, 0x00, 0x00, 0x00, 0x00, 0x00, 0x00, 0x00, 0x00, 0x00, 0x00, 0x00, 0x00, 0x00, 0x00,
      0x00, 0x00, 0x00, 0x00, 0x00, 0x00, 0x00, 0x00, 0x00, 0x00, 0x00, 0x00, 0x00, 0x00, 0x00, 0x00,
      0x00, 0x00, 0x00, 0x00, 0x00, 0x00, 0x00, 0x00, 0x00, 0x00, 0x00, 0x00, 0x00, 0x00, 0x00, 0x00,
      0x00, 0x00, 0x00, 0x00, 0x00, 0x00, 0x00, 0x00, 0x70, 0x00, 0x98, 0x00, 0x00, 0x00, 0x00, 0x00,
      0x00, 0x00, 0x00, 0x00, 0x00, 0x00, 0x00, 0x00, 0x00, 0x00, 0x00, 0x00, 0x00, 0x00, 0x00, 0x00,
      0x28, 0x00, 0x00, 0x00, 0x00, 0x00, 0x00, 0x00, 0x00, 0x00, 0x00, 0x00, 0x00, 0x00, 0x00, 0x00,
      0x00, 0x00, 0x00, 0x00, 0x00, 0x00, 0x00, 0x00, 0x00, 0x00, 0x00, 0x00, 0x00, 0x00, 0x00, 0x00,
      0xfe, 0xff, 0xff, 0xff, 0x00, 0x00, 0x00, 0x00, 0x00, 0x00, 0x00, 0x00, 0x00, 0x00, 0x00, 0x00,
      0x00, 0x00, 0x00, 0x00, 0x00, 0x00, 0x00, 0x00, 0x00, 0x00, 0x00, 0x00, 0x00, 0x00, 0x00, 0x00,
      0x00, 0x00, 0x00, 0x00, 0x00, 0x00, 0x00, 0x00, 0x00, 0x00, 0x00, 0x00, 0x00, 0x00, 0x00, 0x00,
      0x00, 0x00, 0x00, 0x00, 0x00, 0x00, 0x00, 0x00, 0x00, 0x00, 0x00, 0x00, 0x00, 0x00, 0x00, 0x00,
      0x00, 0x00, 0x00, 0x00, 0x00, 0x00, 0x00, 0x00, 0x00, 0x00, 0x00, 0x00, 0x00, 0x00, 0x00, 0x00,
      0x00, 0x00, 0x00, 0x00, 0x00, 0x00, 0x00, 0x00, 0x00, 0x00, 0x00, 0x00, 0x00, 0x00, 0x00, 0x00,
      0x70, 0x00, 0x98, 0x00, 0x00, 0x00, 0x00, 0x00, 0x00, 0x00, 0x00, 0x00, 0x00, 0x00, 0x00, 0x00,
      0x00, 0x00, 0x00, 0x00, 0x00, 0x00, 0x00, 0x00, 0x28, 0x00, 0x00, 0x00, 0x00, 0x00, 0x00, 0x00,
      0x00, 0x00, 0x00, 0x00, 0x00, 0x00, 0x00, 0x00, 0x00, 0x00, 0x00, 0x00, 0x00, 0x00, 0x00, 0x00,
      0x00, 0x00, 0x00, 0x00, 0x00, 0x00, 0x00, 0x00, 0xfe, 0xff, 0xff, 0xff, 0x00, 0x00, 0x00, 0x00,
      0x00, 0x00, 0x00, 0x00, 0x00, 0x00, 0x00, 0x00, 0x00, 0x00, 0x00, 0x00, 0x00, 0x00, 0x00, 0x00,
      0x00, 0x00, 0x00, 0x00, 0x00, 0x00, 0x00, 0x00, 0x00, 0x00, 0x00, 0x00, 0x00, 0x00, 0x00, 0x00,
      0x00, 0x00, 0x00, 0x00, 0x00, 0x00, 0x00, 0x00, 0x00, 0x00, 0x00, 0x00, 0x00, 0x00, 0x00, 0x00,
      0x00, 0x00, 0x00, 0x00, 0x00, 0x00, 0x00, 0x00, 0x00, 0x00, 0x00, 0x00, 0x00, 0x00, 0x00, 0x00,
      0x00, 0x00, 0x00, 0x00, 0x00, 0x00, 0x00, 0x00, 0x00, 0x00, 0x00, 0x00, 0x00, 0x00, 0x00, 0x00,
      0x00, 0x00, 0x00, 0x00, 0x00, 0x00, 0x00, 0x00, 0x70, 0x00, 0x98, 0x00, 0x00, 0x00, 0x00, 0x00,
      0x00, 0x00, 0x00, 0x00, 0x00, 0x00, 0x00, 0x00, 0x00, 0x00, 0x00, 0x00, 0x00, 0x00, 0x00, 0x00,
      0x28, 0x00, 0x00, 0x00, 0x00, 0x00, 0x00, 0x00, 0x00, 0x00, 0x00, 0x00, 0x00, 0x00, 0x00, 0x00,
      0x00, 0x00, 0x00, 0x00, 0x00, 0x00, 0x00, 0x00, 0x00, 0x00, 0x00, 0x00, 0x00, 0x00, 0x00, 0x00,
      0xfe, 0xff, 0xff, 0xff, 0x00, 0x00, 0x00, 0x00, 0x00, 0x00, 0x00, 0x00, 0x00, 0x00, 0x00, 0x00,
      0x00, 0x00, 0x00, 0x00, 0x00, 0x00, 0x00, 0x00, 0x00, 0x00, 0x00, 0x00, 0x00, 0x00, 0x00, 0x00,
      0x00, 0x00, 0x00, 0x00, 0x00, 0x00, 0x00, 0x00, 0x75, 0x70, 0x6c, 0x69, 0x6e, 0x6b, 0x30, 0x00,
      0x00, 0x00, 0x00, 0x00, 0x00, 0x00, 0x00, 0x00, 0x00, 0x00, 0x00, 0x00, 0x00, 0x00, 0x00, 0x00,
      0x00, 0x00, 0x00, 0x00, 0x00, 0x00, 0x00, 0x00, 0xff, 0xff, 0xff, 0xff, 0xff, 0xff, 0xff, 0xff,
      0x00, 0x00, 0x00, 0x00, 0x00, 0x00, 0x00, 0x00, 0x00, 0x00, 0x00, 0x00, 0x00, 0x00, 0x00, 0x00,
      0x70, 0x00, 0xa8, 0x00, 0x00, 0x00, 0x00, 0x00, 0x00, 0x00, 0x00, 0x00, 0x00, 0x00, 0x00, 0x00,
      0x00, 0x00, 0x00, 0x00, 0x00, 0x00, 0x00, 0x00, 0x38, 0x00, 0x4d, 0x41, 0x53, 0x51, 0x55, 0x45,
      0x52, 0x41, 0x44, 0x45, 0x00, 0x00, 0x00, 0x00, 0x00, 0x00, 0x00, 0x00, 0x00, 0x00, 0x00, 0x00,
      0x00, 0x00, 0x00, 0x00, 0x00, 0x00, 0x00, 0x00, 0x01, 0x00, 0x00, 0x00, 0x00, 0x00, 0x00, 0x00,
      0x00, 0x00, 0x00, 0x00, 0x00, 0x00, 0x00, 0x00, 0x00, 0x00, 0x00, 0x00, 0x00, 0x00, 0x00, 0x00,
      0x00, 0x00, 0x00, 0x00, 0x00, 0x00, 0x00, 0x00, 0x00, 0x00, 0x00, 0x00, 0x00, 0x00, 0x00, 0x00,
      0x00, 0x00, 0x00, 0x00, 0x00, 0x00, 0x00, 0x00, 0x00, 0x00, 0x00, 0x00, 0x00, 0x00, 0x00, 0x00,
      0x00, 0x00, 0x00, 0x00, 0x00, 0x00, 0x00, 0x00, 0x00, 0x00, 0x00, 0x00, 0x00, 0x00, 0x00, 0x00,
      0x00, 0x00, 0x00, 0x00, 0x00, 0x00, 0x00, 0x00, 0x00, 0x00, 0x00, 0x00, 0x00, 0x00, 0x00, 0x00,
      0x00, 0x00, 0x00, 0x00, 0x00, 0x00, 0x00, 0x00, 0x00, 0x00, 0x00, 0x00, 0x00, 0x00, 0x00, 0x00,
      0x00, 0x00, 0x00, 0x00, 0x00, 0x00, 0x00, 0x00, 0x70, 0x00, 0x98, 0x00, 0x00, 0x00, 0x00, 0x00,
      0x00, 0x00, 0x00, 0x00, 0x00, 0x00, 0x00, 0x00, 0x00, 0x00, 0x00, 0x00, 0x00, 0x00, 0x00, 0x00,
      0x28, 0x00, 0x00, 0x00, 0x00, 0x00, 0x00, 0x00, 0x00, 0x00, 0x00, 0x00, 0x00, 0x00, 0x00, 0x00,
      0x00, 0x00, 0x00, 0x00, 0x00, 0x00, 0x00, 0x00, 0x00, 0x00, 0x00, 0x00, 0x00, 0x00, 0x00, 0x00,
      0xfe, 0xff, 0xff, 0xff, 0x00, 0x00, 0x00, 0x00, 0x00, 0x00, 0x00, 0x00, 0x00, 0x00, 0x00, 0x00,
      0x00, 0x00, 0x00, 0x00, 0x00, 0x00, 0x00, 0x00, 0x00, 0x00, 0x00, 0x00, 0x00, 0x00, 0x00, 0x00,
      0x00, 0x00, 0x00, 0x00, 0x00, 0x00, 0x00, 0x00, 0x00, 0x00, 0x00, 0x00, 0x00, 0x00, 0x00, 0x00,
      0x00, 0x00, 0x00, 0x00, 0x00, 0x00, 0x00, 0x00, 0x00, 0x00, 0x00, 0x00, 0x00, 0x00, 0x00, 0x00,
      0x00, 0x00, 0x00, 0x00, 0x00, 0x00, 0x00, 0x00, 0x00, 0x00, 0x00, 0x00, 0x00, 0x00, 0x00, 0x00,
      0x00, 0x00, 0x00, 0x00, 0x00, 0x00, 0x00, 0x00, 0x00, 0x00, 0x00, 0x00, 0x00, 0x00, 0x00, 0x00,
      0x70, 0x00, 0xb0, 0x00, 0x00, 0x00, 0x00, 0x00, 0x00, 0x00, 0x00, 0x00, 0x00, 0x00, 0x00, 0x00,
      0x00, 0x00, 0x00, 0x00, 0x00, 0x00, 0x00, 0x00, 0x40, 0x00, 0x45, 0x52, 0x52, 0x4f, 0x52, 0x00,
      0x00, 0x00, 0x00, 0x00, 0x00, 0x00, 0x00, 0x00, 0x00, 0x00, 0x00, 0x00, 0x00, 0x00, 0x00, 0x00,
      0x00, 0x00, 0x00, 0x00, 0x00, 0x00, 0x00, 0x00, 0x45, 0x52, 0x52, 0x4f, 0x52, 0x00, 0x00, 0x00,
      0x00, 0x00, 0x00, 0x00, 0x00, 0x00, 0x00, 0x00, 0x00, 0x00, 0x00, 0x00, 0x00, 0x00, 0x00, 0x00,
      0x00, 0x00, 0x00, 0x00, 0x00, 0x00, 0x00, 0x00
     ]"

definition optCounters :: "byte list" where
  "optCounters =
     [
      0x6e, 0x61, 0x74, 0x00, 0x00, 0x00, 0x00, 0x00, 0x00, 0x00, 0x00, 0x00, 0x00, 0x00, 0x00, 0x00,
      0x00, 0x00, 0x00, 0x00, 0x00, 0x00, 0x00, 0x00, 0x00, 0x00, 0x00, 0x00, 0x00, 0x00, 0x00, 0x00,
      0x06, 0x00, 0x00, 0x00, 0x00, 0x00, 0x00, 0x00, 0x00, 0x00, 0x00, 0x00, 0x00, 0x00, 0x00, 0x00,
      0x00, 0x00, 0x00, 0x00, 0x00, 0x00, 0x00, 0x00, 0x00, 0x00, 0x00, 0x00, 0x00, 0x00, 0x00, 0x00,
      0x00, 0x00, 0x00, 0x00, 0x00, 0x00, 0x00, 0x00, 0x00, 0x00, 0x00, 0x00, 0x00, 0x00, 0x00, 0x00,
      0x00, 0x00, 0x00, 0x00, 0x00, 0x00, 0x00, 0x00, 0x00, 0x00, 0x00, 0x00, 0x00, 0x00, 0x00, 0x00,
      0x00, 0x00, 0x00, 0x00, 0x00, 0x00, 0x00, 0x00, 0x00, 0x00, 0x00, 0x00, 0x00, 0x00, 0x00, 0x00,
      0x00, 0x00, 0x00, 0x00, 0x00, 0x00, 0x00, 0x00, 0x00, 0x00, 0x00, 0x00, 0x00, 0x00, 0x00, 0x00,
      0x00, 0x00, 0x00, 0x00, 0x00, 0x00, 0x00, 0x00
     ]"

definition AF_INET :: int where
  "AF_INET = 2"

definition SOCK_RAW :: int where
  "SOCK_RAW = 3"

definition IPPROTO_RAW :: int where
  "IPPROTO_RAW = 255"

definition SOL_IP :: int where
  "SOL_IP = 0"

definition applyFirewall :: "env \<Rightarrow> kernel \<Rightarrow> error option \<times> kernel" where
  "applyFirewall E k =
     (case Socket E AF_INET SOCK_RAW IPPROTO_RAW k of
        (Inl err, k1) \<Rightarrow> (Some err, k1)
      | (Inr fd, k1) \<Rightarrow>
          (case SetsockoptString E fd SOL_IP 0x40 optRule k1 of
             (Some err, k2) \<Rightarrow> (Some err, k2)
           | (None, k2) \<Rightarrow>
               (case SetsockoptString E fd SOL_IP 0x41 optCounters k2 of
                  (Some err, k3) \<Rightarrow> (Some err, k3)
                | (None, k3) \<Rightarrow> (None, k3))))"

definition applySysctl :: "env \<Rightarrow> kernel \<Rightarrow> error option \<times> kernel" where
  "applySysctl E k =
     (case WriteFile E ''/proc/sys/net/ipv4/ip_forward'' ''1'' k of
        (Some err, k1) \<Rightarrow> (Some (Errorf_sysctl ''net.ipv4.ip_forward=1'' err), k1)
      | (None, k1) \<Rightarrow>
          (case WriteFile E ''/proc/sys/net/ipv6/conf/all/forwarding'' ''1'' k1 of
             (Some err, k2) \<Rightarrow> (Some (Errorf_sysctl ''net.ipv6.conf.all.forwarding=1'' err), k2)
           | (None, k2) \<Rightarrow>
               (case WriteFile E ''/proc/sys/net/ipv6/conf/uplink0/accept_ra'' ''2'' k2 of
                  (Some err, k3) \<Rightarrow> (Some (Errorf_sysctl ''net.ipv6.conf.uplink0.accept_ra=2'' err), k3)
                | (None, k3) \<Rightarrow> (None, k3))))"

subsection \<open>\<^verbatim>\<open>Apply\<close>\<close>

text \<open>
  \<open>Apply_leases\<close> is the body of \<^verbatim>\<open>Apply\<close> after \<^verbatim>\<open>applyInterfaces\<close> has returned
  \<^verbatim>\<open>nil\<close>, from \<^verbatim>\<open>var firstErr error\<close> on; \<open>log_failure\<close> is the \<^verbatim>\<open>log.Printf\<close> in
  the branch of an error. A panic of \<^verbatim>\<open>applyDhcp6\<close> is not recovered: it ends \<^verbatim>\<open>Apply\<close>.
\<close>

definition log_failure :: "(error \<Rightarrow> logentry) \<Rightarrow> error option \<Rightarrow> kernel \<Rightarrow> kernel" where
  "log_failure line r k = (case r of Some err \<Rightarrow> logged (line err) k | None \<Rightarrow> k)"

definition Apply_leases :: "env \<Rightarrow> string \<Rightarrow> string \<Rightarrow> kernel \<Rightarrow> outcome \<times> kernel" where
  "Apply_leases E iface dir k1 =
     (case applyDhcp4 E iface dir k1 of
        (r4, k2) \<Rightarrow>
          let k2' = log_failure Log_cannot_apply_dhcp4 r4 k2;
              firstErr = r4
          in (case applyDhcp6 E iface dir k2' of
                (Panic msg, k3) \<Rightarrow> (Panic msg, k3)
              | (Return r6, k3) \<Rightarrow>
                  let k3' = log_failure Log_cannot_apply_dhcp6 r6 k3;
                      firstErr = (if r6 \<noteq> None \<and> firstErr = None then r6 else firstErr)
                  in (case applySysctl E k3' of
                        (rs, k4) \<Rightarrow>
                          let k4' = log_failure Log_cannot_apply_sysctl rs k4;
                              firstErr = (if rs \<noteq> None \<and> firstErr = None then rs else firstErr)
                          in (case applyFirewall E k4' of
                                (Some err, k5) \<Rightarrow> (Return (Some err), k5)
                              | (None, k5) \<Rightarrow> (Return firstErr, k5)))))"

definition Apply :: "env \<Rightarrow> string \<Rightarrow> string \<Rightarrow> kernel \<Rightarrow> outcome \<times> kernel" where
  "Apply E iface dir k =
     (case applyInterfaces E dir k of
        (Some err, k1) \<Rightarrow> (Return (Some err), k1)
      | (None, k1) \<Rightarrow> Apply_leases E iface dir k1)"

subsection \<open>The bits of a mask\<close>

text \<open>
  The bits of a mask, most significant first, the number of its leading ones, and what
  it is for a mask not to be contiguous: a zero bit stands before a one bit.
\<close>

definition byte_bits :: "byte \<Rightarrow> bool list" where
  "byte_bits v = map (bit v) [7, 6, 5, 4, 3, 2, 1, 0]"

definition mask_bits :: "byte list \<Rightarrow> bool list" where
  "mask_bits m = concat (map byte_bits m)"

definition leading_ones :: "bool list \<Rightarrow> nat" where
  "leading_ones bs = length (takeWhile id bs)"

definition non_contiguous :: "bool list \<Rightarrow> bool" where
  "non_contiguous bs \<longleftrightarrow> (\<exists>i j. i < j \<and> j < length bs \<and> \<not> bs ! i \<and> bs ! j)"

subsection \<open>What the interface applier asks of the kernel\<close>

text \<open>
  The body of the loop of \<^verbatim>\<open>applyInterfaces\<close>, read as a plan: \<open>link_plan\<close> lists the
  kernel operations that the body performs on a matched interface when none of them
  fails, in the order of the source; \<open>asked\<close> is the part of a plan that is carried out,
  up to and with the first operation that the kernel refuses; \<open>link_error\<close> is the error
  that the body makes, with \<^verbatim>\<open>fmt.Errorf\<close>, of the error of an operation.
\<close>

definition link_plan :: "env \<Rightarrow> InterfaceDetails \<Rightarrow> LinkAttrs \<Rightarrow> kcall list" where
  "link_plan E details l =
     (if LinkName l \<noteq> Name details then [KLinkSetName (Index l) (Name details)] else [])
     @ (if OperState l \<noteq> OperUp then [KLinkSetUp (Index l)] else [])
     @ (if Addr details \<noteq> [] then
          (case ParseAddr E (Addr details) of
             Inl err \<Rightarrow> []
           | Inr addr \<Rightarrow> [KAddrReplace (Index l) addr])
        else [])"

definition asked :: "env \<Rightarrow> kcall list \<Rightarrow> kcall list" where
  "asked E plan = take (Suc (length (takeWhile (\<lambda>c. fault E c = None) plan))) plan"

fun link_error :: "InterfaceDetails \<Rightarrow> kcall \<Rightarrow> error \<Rightarrow> error" where
  "link_error details (KLinkSetName i name) err = Errorf_LinkSetName name err"
| "link_error details (KLinkSetUp i) err = Errorf_LinkSetUp (Name details) err"
| "link_error details (KAddrReplace i addr) err = Errorf_AddrReplace (Name details) addr err"
| "link_error details c err = err"

text \<open>
  \<open>link_result\<close> is the error that the body returns for an interface, \<open>link_update\<close> what
  has become of the interface in the kernel, and \<open>link_addr\<close> the address that it has
  been given.
\<close>

definition link_result :: "env \<Rightarrow> InterfaceDetails \<Rightarrow> LinkAttrs \<Rightarrow> error option" where
  "link_result E details l =
     (case find (\<lambda>c. fault E c \<noteq> None) (link_plan E details l) of
        Some c \<Rightarrow> Some (link_error details c (the (fault E c)))
      | None \<Rightarrow>
          (if Addr details \<noteq> [] then
             (case ParseAddr E (Addr details) of
                Inl err \<Rightarrow> Some (Errorf_ParseAddr (Addr details) err)
              | Inr addr \<Rightarrow> None)
           else None))"

definition link_update :: "env \<Rightarrow> InterfaceDetails \<Rightarrow> LinkAttrs \<Rightarrow> LinkAttrs \<Rightarrow> LinkAttrs" where
  "link_update E details l x =
     (if LinkName l \<noteq> Name details then
        (case fault E (KLinkSetName (Index l) (Name details)) of
           Some err \<Rightarrow> x
         | None \<Rightarrow>
             if OperState l \<noteq> OperUp \<and> fault E (KLinkSetUp (Index l)) = None
             then x\<lparr>LinkName := Name details, FlagUp := True\<rparr>
             else x\<lparr>LinkName := Name details\<rparr>)
      else if OperState l \<noteq> OperUp \<and> fault E (KLinkSetUp (Index l)) = None
      then x\<lparr>FlagUp := True\<rparr>
      else x)"

definition link_addr :: "env \<Rightarrow> InterfaceDetails \<Rightarrow> LinkAttrs \<Rightarrow> (int \<times> netlink_Addr) set" where
  "link_addr E details l =
     (if Addr details \<noteq> [] then
        (case ParseAddr E (Addr details) of
           Inl err \<Rightarrow> {}
         | Inr addr \<Rightarrow> {(Index l, addr)})
      else {})"

text \<open>
  The interface that an operation is directed at, and the operations that only the steps
  of \<^verbatim>\<open>Apply\<close> after \<^verbatim>\<open>applyInterfaces\<close> perform: \<^verbatim>\<open>applyInterfaces\<close> writes to
  \<^verbatim>\<open>/dev/console\<close> only, \<^verbatim>\<open>applySysctl\<close> below \<^verbatim>\<open>/proc/sys\<close>.
\<close>

fun call_target :: "kcall \<Rightarrow> int option" where
  "call_target (KLinkSetName i name) = Some i"
| "call_target (KLinkSetUp i) = Some i"
| "call_target (KAddrReplace i a) = Some i"
| "call_target (KAddrAdd i a) = Some i"
| "call_target (KRouteAdd r) = Some (LinkIndex r)"
| "call_target c = None"

fun later_call :: "kcall \<Rightarrow> bool" where
  "later_call (KLinkByName name) = True"
| "later_call KNewHandle = True"
| "later_call (KAddrAdd i a) = True"
| "later_call (KRouteAdd r) = True"
| "later_call (KSocket d t p) = True"
| "later_call (KSetsockopt fd level opt s) = True"
| "later_call (KWriteFile path s) = (path \<noteq> ''/dev/console'')"
| "later_call c = False"

text \<open>
  The addresses that a run of the loop over the interfaces \<open>ls\<close> assigns, and those that a
  run of \<^verbatim>\<open>applyInterfaces\<close> assigns when the kernel lists the interfaces \<open>ls\<close>. Two
  records of an interface are the same to the loop when they differ at most in the
  administrative flag and in a name that the loop itself has set.
\<close>

fun links_addrs ::
  "env \<Rightarrow> (string \<rightharpoonup> InterfaceDetails) \<Rightarrow> LinkAttrs list \<Rightarrow> (int \<times> netlink_Addr) set" where
  "links_addrs E byHw [] = {}"
| "links_addrs E byHw (l # ls) =
     (case byHw (HardwareAddr_String (LinkHardwareAddr l)) of
        None \<Rightarrow> links_addrs E byHw ls
      | Some details \<Rightarrow>
          (if link_result E details l = None
           then link_addr E details l \<union> links_addrs E byHw ls
           else {}))"

definition interfaces_addrs :: "env \<Rightarrow> string \<Rightarrow> LinkAttrs list \<Rightarrow> (int \<times> netlink_Addr) set" where
  "interfaces_addrs E dir ls =
     (case file_content E (filepath_Join E dir ''interfaces.json'') of
        Inl err \<Rightarrow> {}
      | Inr b \<Rightarrow>
          (case Unmarshal_InterfaceConfig E b of
             Inl err \<Rightarrow> {}
           | Inr cfg \<Rightarrow>
               (case fault E KLinkList of
                  Some err \<Rightarrow> {}
                | None \<Rightarrow> links_addrs E (byHardwareAddr cfg) ls)))"

definition same_link :: "env \<Rightarrow> (string \<rightharpoonup> InterfaceDetails) \<Rightarrow> LinkAttrs \<Rightarrow> LinkAttrs \<Rightarrow> bool" where
  "same_link E byHw x y \<longleftrightarrow>
     Index x = Index y \<and> LinkHardwareAddr x = LinkHardwareAddr y \<and> OperState x = OperState y
     \<and> (LinkName x = LinkName y
         \<or> (\<exists>details. byHw (HardwareAddr_String (LinkHardwareAddr y)) = Some details
               \<and> LinkName x = Name details
               \<and> fault E (KLinkSetName (Index y) (Name details)) = None))"

text \<open>
  The interfaces in the kernel after a run of the loop over the interfaces \<open>ls\<close>: those
  up to the first error are updated, those after it are as they were.
\<close>

fun links_after :: "env \<Rightarrow> (string \<rightharpoonup> InterfaceDetails) \<Rightarrow> LinkAttrs list \<Rightarrow> LinkAttrs list" where
  "links_after E byHw [] = []"
| "links_after E byHw (l # ls) =
     (case byHw (HardwareAddr_String (LinkHardwareAddr l)) of
        None \<Rightarrow> l # links_after E byHw ls
      | Some details \<Rightarrow>
          (if link_result E details l = None
           then link_update E details l l # links_after E byHw ls
           else link_update E details l l # ls))"

subsection \<open>A router\<close>

text \<open>
  A router with two configured interfaces and a third, unconfigured one; a DHCPv4 lease
  and a DHCPv6 lease with one delegated prefix, \<^verbatim>\<open>2001:db8::/48\<close>. The interface
  \<open>uplink0\<close> is administratively up and has no carrier. The environment reads the three
  files below \<^verbatim>\<open>/perm\<close>, and its kernel refuses the operations that \<open>refused\<close> names.
\<close>

definition lan_details :: InterfaceDetails where
  "lan_details = \<lparr>HardwareAddr = ''dc:9b:9c:ee:72:fd'', Name = ''lan0'', Addr = ''10.0.0.1/24''\<rparr>"

definition uplink_details :: InterfaceDetails where
  "uplink_details = \<lparr>HardwareAddr = ''02:73:53:00:ca:fe'', Name = ''uplink0'', Addr = []\<rparr>"

definition router_cfg :: InterfaceConfig where
  "router_cfg = \<lparr>Interfaces = [lan_details, uplink_details]\<rparr>"

definition lease4 :: dhcp4_Config where
  "lease4 = \<lparr>ClientIP = ''85.195.207.62'', SubnetMask = ''255.255.255.128'', Router = ''85.195.207.1''\<rparr>"

definition prefix48 :: IPNet where
  "prefix48 = \<lparr>IP = [0x20, 0x01, 0x0d, 0xb8, 0, 0, 0, 0, 0, 0, 0, 0, 0, 0, 0, 0],
               Mask = [0xff, 0xff, 0xff, 0xff, 0xff, 0xff, 0, 0, 0, 0, 0, 0, 0, 0, 0, 0]\<rparr>"

definition lease6 :: dhcp6_Config where
  "lease6 = \<lparr>Prefixes = [prefix48]\<rparr>"

definition lan_addr :: netlink_Addr where
  "lan_addr = \<lparr>AddrIPNet = \<lparr>IP = [10, 0, 0, 1], Mask = [255, 255, 255, 0]\<rparr>, AddrLabel = []\<rparr>"

definition wan_addr :: netlink_Addr where
  "wan_addr = \<lparr>AddrIPNet = \<lparr>IP = [85, 195, 207, 62], Mask = [255, 255, 255, 128]\<rparr>, AddrLabel = []\<rparr>"

definition lan6_addr :: netlink_Addr where
  "lan6_addr = \<lparr>AddrIPNet = \<lparr>IP = [0x20, 0x01, 0x0d, 0xb8, 0, 0, 0, 0, 0, 0, 0, 0, 0, 0, 0, 1],
                                Mask = [0xff, 0xff, 0xff, 0xff, 0xff, 0xff, 0xff, 0xff, 0, 0, 0, 0, 0, 0, 0, 0]\<rparr>,
                 AddrLabel = []\<rparr>"

definition eth0 :: LinkAttrs where
  "eth0 = \<lparr>Index = 2, LinkName = ''eth0'', LinkHardwareAddr = [0xdc, 0x9b, 0x9c, 0xee, 0x72, 0xfd],
            FlagUp = False, OperState = OperDown\<rparr>"

definition uplink0 :: LinkAttrs where
  "uplink0 = \<lparr>Index = 3, LinkName = ''uplink0'', LinkHardwareAddr = [0x02, 0x73, 0x53, 0x00, 0xca, 0xfe],
               FlagUp = True, OperState = OperDown\<rparr>"

definition wlan0 :: LinkAttrs where
  "wlan0 = \<lparr>Index = 4, LinkName = ''wlan0'', LinkHardwareAddr = [0x02, 0x73, 0x53, 0x00, 0xb0, 0x0c],
             FlagUp = False, OperState = OperDown\<rparr>"

definition router_env :: "(kcall \<Rightarrow> error option) \<Rightarrow> env" where
  "router_env refused =
     \<lparr>file_content = (\<lambda>p. if p = ''/perm/interfaces.json'' then Inr ''interfaces''
                          else if p = ''/perm/dhcp4/wire/lease.json'' then Inr ''lease4''
                          else if p = ''/perm/dhcp6/wire/lease.json'' then Inr ''lease6''
                          else Inl (Errno ''no such file or directory'')),
      filepath_Join = (\<lambda>d f. d @ ''/'' @ f),
      Unmarshal_InterfaceConfig = (\<lambda>b. Inr router_cfg),
      Unmarshal_dhcp4_Config = (\<lambda>b. Inr lease4),
      Unmarshal_dhcp6_Config = (\<lambda>b. Inr lease6),
      ParseAddr = (\<lambda>s. if s = ''10.0.0.1/24'' then Inr lan_addr
                       else if s = ''85.195.207.62/25'' then Inr wan_addr
                       else if s = ''2001:db8::1/64'' then Inr lan6_addr
                       else Inl (Errno ''invalid CIDR address'')),
      ParseIP = (\<lambda>s. if s = ''85.195.207.62'' then [85, 195, 207, 62]
                     else if s = ''85.195.207.1'' then [85, 195, 207, 1]
                     else if s = ''0.0.0.0'' then [0, 0, 0, 0]
                     else []),
      IPNet_String = (\<lambda>n. if n = AddrIPNet lan6_addr then ''2001:db8::1/64'' else ''<nil>''),
      fault = refused\<rparr>"

definition router_kernel :: "LinkAttrs list \<Rightarrow> kernel" where
  "router_kernel ls = \<lparr>links = ls, addrs = {}, routes = {}, files = [], sockets = 0, sockopts = [],
          calls = [], logs = []\<rparr>"

definition nothing_refused :: "kcall \<Rightarrow> error option" where
  "nothing_refused c = None"

definition up_refused :: "kcall \<Rightarrow> error option" where
  "up_refused c = (case c of KLinkSetUp i \<Rightarrow> Some (Errno ''operation not permitted'') | _ \<Rightarrow> None)"

definition socket_refused :: "kcall \<Rightarrow> error option" where
  "socket_refused c = (case c of KSocket d t p \<Rightarrow> Some (Errno ''operation not permitted'') | _ \<Rightarrow> None)"

definition list_refused :: "kcall \<Rightarrow> error option" where
  "list_refused c = (case c of KLinkList \<Rightarrow> Some (Errno ''interrupted system call'') | _ \<Rightarrow> None)"

definition default_route_refused :: "kcall \<Rightarrow> error option" where
  "default_route_refused c =
     (case c of
        KRouteAdd r \<Rightarrow> if RouteScope r = SCOPE_UNIVERSE then Some (Errno ''network is unreachable'') else None
      | _ \<Rightarrow> None)"

text \<open>
  The states of a run of \<^verbatim>\<open>Apply\<close> on a kernel without interfaces that refuses to open
  a raw socket.
\<close>

definition k_boot :: kernel where
  "k_boot =
     router_kernel []"

definition k_interfaces :: kernel where
  "k_interfaces =
     snd (applyInterfaces (router_env socket_refused) ''/perm'' k_boot)"

definition k_dhcp4 :: kernel where
  "k_dhcp4 =
     snd (applyDhcp4 (router_env socket_refused) ''uplink0'' ''/perm'' k_interfaces)"

definition k_dhcp6 :: kernel where
  "k_dhcp6 =
     snd (applyDhcp6 (router_env socket_refused) ''uplink0''  ''/perm''
   (log_failure Log_cannot_apply_dhcp4 (Some (Errno ''Link not found'')) k_dhcp4))"

definition k_sysctl :: kernel where
  "k_sysctl =
     snd (applySysctl (router_env socket_refused)
   (log_failure Log_cannot_apply_dhcp6 (Some (Errno ''Link not found'')) k_dhcp6))"

definition k_firewall :: kernel where
  "k_firewall =
     snd (applyFirewall (router_env socket_refused) (log_failure Log_cannot_apply_sysctl None k_sysctl))"

section \<open>The subnet mask decoder\<close>

subsection \<open>What \<^verbatim>\<open>simpleMaskLength\<close> computes\<close>

text \<open>
  A list of bits is not contiguous exactly when a one is left after its leading ones are
  dropped.
\<close>

lemma non_contiguous_iff: "non_contiguous bs \<longleftrightarrow> True \<in> set (dropWhile id bs)"
proof (induction bs)
  case Nil
  show ?case by (simp add: non_contiguous_def)
next
  case (Cons b bs)
  show ?case
  proof (cases b)
    case True
    have "non_contiguous (b # bs) \<longleftrightarrow> non_contiguous bs"
    proof
      assume "non_contiguous (b # bs)"
      then obtain i j where ij: "i < j" "j < length (b # bs)" "\<not> (b # bs) ! i" "(b # bs) ! j"
        by (auto simp: non_contiguous_def)
      with True obtain i' where i': "i = Suc i'" by (cases i) auto
      with ij obtain j' where j': "j = Suc j'" by (cases j) auto
      from ij i' j' show "non_contiguous bs"
        by (auto simp: non_contiguous_def)
    next
      assume "non_contiguous bs"
      then obtain i j where ij: "i < j" "j < length bs" "\<not> bs ! i" "bs ! j"
        by (auto simp: non_contiguous_def)
      then have "Suc i < Suc j \<and> Suc j < length (b # bs) \<and> \<not> (b # bs) ! Suc i \<and> (b # bs) ! Suc j"
        by simp
      then show "non_contiguous (b # bs)" unfolding non_contiguous_def by blast
    qed
    with True Cons show ?thesis by simp
  next
    case False
    have "non_contiguous (b # bs) \<longleftrightarrow> True \<in> set bs"
    proof
      assume "non_contiguous (b # bs)"
      then obtain i j where ij: "i < j" "j < length (b # bs)" "\<not> (b # bs) ! i" "(b # bs) ! j"
        by (auto simp: non_contiguous_def)
      then obtain j' where j': "j = Suc j'" by (cases j) auto
      with ij have "j' < length bs" "bs ! j'" by auto
      then show "True \<in> set bs" by (metis nth_mem)
    next
      assume "True \<in> set bs"
      then obtain j where "j < length bs" "bs ! j" by (auto simp: in_set_conv_nth)
      with False have "0 < Suc j \<and> Suc j < length (b # bs) \<and> \<not> (b # bs) ! 0 \<and> (b # bs) ! Suc j"
        by simp
      then show "non_contiguous (b # bs)" unfolding non_contiguous_def by blast
    qed
    with False show ?thesis by simp
  qed
qed

text \<open>
  The inner loop adds to its counter the number of leading ones of the byte; the byte
  it leaves is zero exactly when no one stood after the first zero.
\<close>

lemma count_ones_shift:
  "count_ones v (n + m) = (fst (count_ones v n), m + snd (count_ones v n))"
proof (induction v n arbitrary: m rule: count_ones.induct)
  case (1 v n)
  show ?case
  proof (cases "v AND 0x80 \<noteq> 0")
    case True
    have "count_ones v (n + m) = count_ones (push_bit 1 v) ((n + 1) + m)"
      using True by (subst count_ones.simps) (simp add: add.commute add.left_commute)
    also have "\<dots> = (fst (count_ones (push_bit 1 v) (n + 1)), m + snd (count_ones (push_bit 1 v) (n + 1)))"
      using True by (rule "1.IH")
    also have "count_ones (push_bit 1 v) (n + 1) = count_ones v n"
      using True by (subst (2) count_ones.simps) simp
    finally show ?thesis .
  next
    case False
    then show ?thesis by (simp add: count_ones.simps)
  qed
qed

lemma count_ones_acc: "count_ones v n = (fst (count_ones v 0), n + snd (count_ones v 0))"
  using count_ones_shift [of v 0 n] by simp

lemma byte_ff_bits: "byte_bits 0xff = replicate 8 True"
  by code_simp

lemma byte_not_ff:
  "v \<noteq> 0xff \<longrightarrow>
     False \<in> set (byte_bits v)
     \<and> snd (count_ones v 0) = int (leading_ones (byte_bits v))
     \<and> (fst (count_ones v 0) \<noteq> 0 \<longleftrightarrow> True \<in> set (dropWhile id (byte_bits v)))"
  by (rule byte_all) code_simp

lemma byte_nonzero: "v \<noteq> 0 \<longleftrightarrow> True \<in> set (byte_bits v)"
  by (rule byte_all) code_simp


text \<open>
  \<^verbatim>\<open>simpleMaskLength\<close> is \<open>-1\<close> on a mask that is not contiguous, and the number of
  leading ones on every other mask; so \<^verbatim>\<open>Size\<close> gives 0 ones on a mask that is not
  contiguous.
\<close>

lemma mask_bits_has_True: "True \<in> set (mask_bits m) \<longleftrightarrow> (\<exists>x \<in> set m. x \<noteq> 0)"
  by (auto simp: mask_bits_def byte_nonzero)

lemma simpleMaskLength_from_bits:
  "simpleMaskLength_from m n =
     (if non_contiguous (mask_bits m) then - 1 else n + int (leading_ones (mask_bits m)))"
proof (induction m arbitrary: n)
  case Nil
  show ?case by (simp add: non_contiguous_iff mask_bits_def leading_ones_def)
next
  case (Cons v rest)
  have split: "mask_bits (v # rest) = byte_bits v @ mask_bits rest"
    by (simp add: mask_bits_def)
  show ?case
  proof (cases "v = 0xff")
    case True
    have all: "\<And>x. x \<in> set (byte_bits v) \<Longrightarrow> id x"
      using True by (simp add: byte_ff_bits)
    have d: "dropWhile id (mask_bits (v # rest)) = dropWhile id (mask_bits rest)"
      unfolding split using all by (rule dropWhile_append2)
    have t: "takeWhile id (mask_bits (v # rest)) = byte_bits v @ takeWhile id (mask_bits rest)"
      unfolding split using all by (rule takeWhile_append2)
    have len: "length (byte_bits v) = 8"
      by (simp add: byte_bits_def)
    have l: "leading_ones (mask_bits (v # rest)) = 8 + leading_ones (mask_bits rest)"
      unfolding leading_ones_def t by (simp add: len)
    have step: "simpleMaskLength_from (v # rest) n = simpleMaskLength_from rest (n + 8)"
      using True by simp
    show ?thesis
      unfolding step Cons.IH non_contiguous_iff d l by simp
  next
    case False
    from byte_not_ff [of v] False
    have z: "False \<in> set (byte_bits v)"
      and k: "snd (count_ones v 0) = int (leading_ones (byte_bits v))"
      and r: "fst (count_ones v 0) \<noteq> 0 \<longleftrightarrow> True \<in> set (dropWhile id (byte_bits v))"
      by simp_all
    have z': "\<not> id False" by simp
    have d: "dropWhile id (mask_bits (v # rest)) = dropWhile id (byte_bits v) @ mask_bits rest"
      unfolding split using z z' by (rule dropWhile_append1)
    have t: "takeWhile id (mask_bits (v # rest)) = takeWhile id (byte_bits v)"
      unfolding split using z z' by (rule takeWhile_append1)
    have nc: "non_contiguous (mask_bits (v # rest))
                \<longleftrightarrow> fst (count_ones v 0) \<noteq> 0 \<or> (\<exists>x \<in> set rest. x \<noteq> 0)"
      by (simp add: non_contiguous_iff d r mask_bits_has_True)
    have l: "leading_ones (mask_bits (v # rest)) = leading_ones (byte_bits v)"
      by (simp add: leading_ones_def t)
    have c: "count_ones v n = (fst (count_ones v 0), n + int (leading_ones (byte_bits v)))"
      using count_ones_acc [of v n] k by simp
    show ?thesis
      using False by (auto simp: c nc l)
  qed
qed

lemma Size_bits:
  "Size m = (if non_contiguous (mask_bits m) then (0, 0)
             else (int (leading_ones (mask_bits m)), int (length m) * 8))"
  by (simp add: Size_def simpleMaskLength_def simpleMaskLength_from_bits Let_def)

lemma parse_parts_four:
  assumes "ParseUint p0 0 8 = Inr n0" "ParseUint p1 0 8 = Inr n1"
    "ParseUint p2 0 8 = Inr n2" "ParseUint p3 0 8 = Inr n3"
  shows "parse_parts [p0, p1, p2, p3] = Inr [ucast n0, ucast n1, ucast n2, ucast n3]"
  using assms by simp

lemma subnetMaskSize_four_octets:
  assumes "Split smask CHR ''.'' = [p0, p1, p2, p3]"
    and "ParseUint p0 0 8 = Inr n0" "ParseUint p1 0 8 = Inr n1"
    and "ParseUint p2 0 8 = Inr n2" "ParseUint p3 0 8 = Inr n3"
  shows "subnetMaskSize smask =
           (let bits = mask_bits (IPv4Mask (ucast n0) (ucast n1) (ucast n2) (ucast n3))
            in Inr (if non_contiguous bits then 0 else int (leading_ones bits)))"
  using assms by (simp add: subnetMaskSize_def Size_bits IPv4Mask_def)

lemma non_contiguous_255_0_255_0: "non_contiguous (mask_bits (IPv4Mask 255 0 255 0))"
  unfolding non_contiguous_iff by code_simp

subsection \<open>Masks that are not contiguous\<close>

text \<open>
  Claim C3, as amended. For every string of exactly four parts that each parse as an
  unsigned 8-bit integer and whose mask is not contiguous (a zero bit before a one bit),
  \<^verbatim>\<open>subnetMaskSize\<close> returns, without an error, the prefix length 0: \<^verbatim>\<open>IPMask.Size\<close>
  gives \<open>(0, 0)\<close> for a mask that is not ones followed by zeros. It does not return the
  number of leading ones: \<^verbatim>\<open>255.0.255.0\<close> yields 0, not 8.
\<close>

theorem subnetMaskSize_non_contiguous:
  assumes "Split smask CHR ''.'' = [p0, p1, p2, p3]"
    and "ParseUint p0 0 8 = Inr n0" "ParseUint p1 0 8 = Inr n1"
    and "ParseUint p2 0 8 = Inr n2" "ParseUint p3 0 8 = Inr n3"
    and "non_contiguous (mask_bits (IPv4Mask (ucast n0) (ucast n1) (ucast n2) (ucast n3)))"
  shows "subnetMaskSize smask = Inr 0"
  using subnetMaskSize_four_octets [OF assms(1-5)] assms(6) by simp

theorem subnetMaskSize_non_contiguous_witness:
  "Split ''255.0.255.0'' CHR ''.'' = [''255'', ''0'', ''255'', ''0'']
   \<and> ParseUint ''255'' 0 8 = Inr 255 \<and> ParseUint ''0'' 0 8 = Inr 0
   \<and> non_contiguous (mask_bits (IPv4Mask 255 0 255 0))
   \<and> subnetMaskSize ''255.0.255.0'' = Inr 0"
proof -
  have s: "Split ''255.0.255.0'' CHR ''.'' = [''255'', ''0'', ''255'', ''0'']" by code_simp
  have a: "ParseUint ''255'' 0 8 = Inr 255" by code_simp
  have b: "ParseUint ''0'' 0 8 = Inr 0" by code_simp
  have n: "non_contiguous (mask_bits (IPv4Mask (ucast (255 :: uint64)) (ucast (0 :: uint64))
             (ucast (255 :: uint64)) (ucast (0 :: uint64))))"
    using non_contiguous_255_0_255_0 by simp
  from subnetMaskSize_non_contiguous [OF s a b a b n] s a b non_contiguous_255_0_255_0
  show ?thesis by simp
qed

text \<open>
  Claim C3 as the specification states it fails at \<^verbatim>\<open>255.0.255.0\<close>: the four parts parse,
  the mask is not contiguous and has 8 leading ones, and the result is 0.
\<close>

theorem subnetMaskSize_leading_ones_counterexample:
  "Split ''255.0.255.0'' CHR ''.'' = [''255'', ''0'', ''255'', ''0'']
   \<and> ParseUint ''255'' 0 8 = Inr 255 \<and> ParseUint ''0'' 0 8 = Inr 0
   \<and> non_contiguous (mask_bits (IPv4Mask 255 0 255 0))
   \<and> leading_ones (mask_bits (IPv4Mask 255 0 255 0)) = 8
   \<and> subnetMaskSize ''255.0.255.0'' = Inr 0
   \<and> subnetMaskSize ''255.0.255.0'' \<noteq> Inr (int (leading_ones (mask_bits (IPv4Mask 255 0 255 0))))"
proof -
  have s: "Split ''255.0.255.0'' CHR ''.'' = [''255'', ''0'', ''255'', ''0'']" by code_simp
  have a: "ParseUint ''255'' 0 8 = Inr 255" by code_simp
  have b: "ParseUint ''0'' 0 8 = Inr 0" by code_simp
  have l: "leading_ones (mask_bits (IPv4Mask 255 0 255 0)) = 8" by code_simp
  have r: "subnetMaskSize ''255.0.255.0'' = Inr 0" by code_simp
  from s a b l r non_contiguous_255_0_255_0 show ?thesis by simp
qed

subsection \<open>Decoding and the two parse errors\<close>

lemma parse_parts_error:
  "p \<in> set parts \<Longrightarrow> isl (ParseUint p 0 8) \<Longrightarrow> isl (parse_parts parts)"
  by (induction parts) (auto split: sum.splits)

text \<open>
  Claim C4. \<^verbatim>\<open>subnetMaskSize\<close> maps \<^verbatim>\<open>255.255.255.0\<close> to 24 and \<^verbatim>\<open>255.255.0.0\<close> to 16.
  It returns an error for every input that does not split at the dots into exactly 4
  parts (the error of \<^verbatim>\<open>fmt.Errorf\<close> with the number of parts; \<^verbatim>\<open>255.255.255\<close> has 3)
  and for every input with a part that \<^verbatim>\<open>ParseUint\<close> refuses as an unsigned 8-bit
  integer (\<^verbatim>\<open>256.0.0.0\<close>: the range error of \<^verbatim>\<open>256\<close>).
\<close>

theorem subnetMaskSize_decodes_or_fails:
  "subnetMaskSize ''255.255.255.0'' = Inr 24
   \<and> subnetMaskSize ''255.255.0.0'' = Inr 16
   \<and> subnetMaskSize ''255.255.255'' = Inl (Errorf_parts ''255.255.255'' 3 4)
   \<and> subnetMaskSize ''256.0.0.0'' = Inl (NumError ''ParseUint'' ''256'' ErrRange)
   \<and> (length (Split smask CHR ''.'') \<noteq> 4 \<longrightarrow>
        subnetMaskSize smask = Inl (Errorf_parts smask (int (length (Split smask CHR ''.''))) 4))
   \<and> (p \<in> set (Split smask' CHR ''.'') \<and> isl (ParseUint p 0 8) \<longrightarrow> isl (subnetMaskSize smask'))"
proof -
  have 1: "subnetMaskSize ''255.255.255.0'' = Inr 24" by code_simp
  have 2: "subnetMaskSize ''255.255.0.0'' = Inr 16" by code_simp
  have 3: "subnetMaskSize ''255.255.255'' = Inl (Errorf_parts ''255.255.255'' 3 4)" by code_simp
  have 4: "subnetMaskSize ''256.0.0.0'' = Inl (NumError ''ParseUint'' ''256'' ErrRange)" by code_simp
  have 5: "length (Split smask CHR ''.'') \<noteq> 4 \<longrightarrow>
        subnetMaskSize smask = Inl (Errorf_parts smask (int (length (Split smask CHR ''.''))) 4)"
    by (simp add: subnetMaskSize_def)
  have 6: "p \<in> set (Split smask' CHR ''.'') \<and> isl (ParseUint p 0 8) \<longrightarrow> isl (subnetMaskSize smask')"
  proof
    assume h: "p \<in> set (Split smask' CHR ''.'') \<and> isl (ParseUint p 0 8)"
    then have "isl (parse_parts (Split smask' CHR ''.''))" using parse_parts_error by blast
    then show "isl (subnetMaskSize smask')"
      by (auto simp: subnetMaskSize_def Let_def split: sum.splits)
  qed
  from 1 2 3 4 5 6 show ?thesis by blast
qed

theorem subnetMaskSize_decodes_or_fails_witness:
  "length (Split ''255.255.255'' CHR ''.'') \<noteq> 4
   \<and> subnetMaskSize ''255.255.255'' = Inl (Errorf_parts ''255.255.255'' 3 4)
   \<and> ''256'' \<in> set (Split ''256.0.0.0'' CHR ''.'') \<and> isl (ParseUint ''256'' 0 8)
   \<and> isl (subnetMaskSize ''256.0.0.0'')"
proof -
  have a: "length (Split ''255.255.255'' CHR ''.'') \<noteq> 4" by code_simp
  have b: "''256'' \<in> set (Split ''256.0.0.0'' CHR ''.'')" by code_simp
  have c: "isl (ParseUint ''256'' 0 8)" by code_simp
  from subnetMaskSize_decodes_or_fails [of "''255.255.255''" "''256''" "''256.0.0.0''"] a b c
  show ?thesis by simp
qed
section \<open>The kernel operations\<close>

text \<open>
  What each operation returns and which fields of the state it changes.
\<close>

lemma called_fields [simp]:
  "links (called c k) = links k" "addrs (called c k) = addrs k" "routes (called c k) = routes k"
  "files (called c k) = files k" "sockets (called c k) = sockets k"
  "sockopts (called c k) = sockopts k" "logs (called c k) = logs k"
  "calls (called c k) = calls k @ [c]"
  by (simp_all add: called_def)

lemma logged_fields [simp]:
  "links (logged e k) = links k" "addrs (logged e k) = addrs k" "routes (logged e k) = routes k"
  "files (logged e k) = files k" "sockets (logged e k) = sockets k"
  "sockopts (logged e k) = sockopts k" "calls (logged e k) = calls k"
  "logs (logged e k) = logs k @ [e]"
  by (simp_all add: logged_def)

lemma LinkSetName_simps [simp]:
  "fst (LinkSetName E l name k) = fault E (KLinkSetName (Index l) name)"
  "calls (snd (LinkSetName E l name k)) = calls k @ [KLinkSetName (Index l) name]"
  "addrs (snd (LinkSetName E l name k)) = addrs k"
  "routes (snd (LinkSetName E l name k)) = routes k"
  "sockets (snd (LinkSetName E l name k)) = sockets k"
  "sockopts (snd (LinkSetName E l name k)) = sockopts k"
  "files (snd (LinkSetName E l name k)) = files k"
  "logs (snd (LinkSetName E l name k)) = logs k"
  by (simp_all add: LinkSetName_def split: option.splits)

lemma LinkSetName_links:
  "links (snd (LinkSetName E l name k)) =
     (if fault E (KLinkSetName (Index l) name) = None
      then map (\<lambda>x. if Index x = Index l then x\<lparr>LinkName := name\<rparr> else x) (links k)
      else links k)"
  by (simp add: LinkSetName_def split: option.splits)

lemma LinkSetUp_simps [simp]:
  "fst (LinkSetUp E l k) = fault E (KLinkSetUp (Index l))"
  "calls (snd (LinkSetUp E l k)) = calls k @ [KLinkSetUp (Index l)]"
  "addrs (snd (LinkSetUp E l k)) = addrs k"
  "routes (snd (LinkSetUp E l k)) = routes k"
  "sockets (snd (LinkSetUp E l k)) = sockets k"
  "sockopts (snd (LinkSetUp E l k)) = sockopts k"
  "files (snd (LinkSetUp E l k)) = files k"
  "logs (snd (LinkSetUp E l k)) = logs k"
  by (simp_all add: LinkSetUp_def split: option.splits)

lemma LinkSetUp_links:
  "links (snd (LinkSetUp E l k)) =
     (if fault E (KLinkSetUp (Index l)) = None
      then map (\<lambda>x. if Index x = Index l then x\<lparr>FlagUp := True\<rparr> else x) (links k)
      else links k)"
  by (simp add: LinkSetUp_def split: option.splits)

lemma AddrReplace_simps [simp]:
  "fst (AddrReplace E l a k) = fault E (KAddrReplace (Index l) a)"
  "calls (snd (AddrReplace E l a k)) = calls k @ [KAddrReplace (Index l) a]"
  "links (snd (AddrReplace E l a k)) = links k"
  "routes (snd (AddrReplace E l a k)) = routes k"
  "sockets (snd (AddrReplace E l a k)) = sockets k"
  "sockopts (snd (AddrReplace E l a k)) = sockopts k"
  "files (snd (AddrReplace E l a k)) = files k"
  "logs (snd (AddrReplace E l a k)) = logs k"
  "addrs (snd (AddrReplace E l a k)) =
     (if fault E (KAddrReplace (Index l) a) = None then insert (Index l, a) (addrs k) else addrs k)"
  by (simp_all add: AddrReplace_def split: option.splits)

lemma WriteFile_simps [simp]:
  "fst (WriteFile E path data k) = fault E (KWriteFile path data)"
  "calls (snd (WriteFile E path data k)) = calls k @ [KWriteFile path data]"
  "links (snd (WriteFile E path data k)) = links k"
  "addrs (snd (WriteFile E path data k)) = addrs k"
  "routes (snd (WriteFile E path data k)) = routes k"
  "sockets (snd (WriteFile E path data k)) = sockets k"
  "sockopts (snd (WriteFile E path data k)) = sockopts k"
  "logs (snd (WriteFile E path data k)) = logs k"
  by (simp_all add: WriteFile_def split: option.splits)

lemma WriteFile_files:
  "files (snd (WriteFile E path data k)) =
     (if fault E (KWriteFile path data) = None then files k @ [(path, data)] else files k)"
  by (simp add: WriteFile_def split: option.splits)

lemma AddrAdd_simps [simp]:
  "calls (snd (AddrAdd E l a k)) = calls k @ [KAddrAdd (Index l) a]"
  "links (snd (AddrAdd E l a k)) = links k"
  "routes (snd (AddrAdd E l a k)) = routes k"
  "sockets (snd (AddrAdd E l a k)) = sockets k"
  "sockopts (snd (AddrAdd E l a k)) = sockopts k"
  "files (snd (AddrAdd E l a k)) = files k"
  "logs (snd (AddrAdd E l a k)) = logs k"
  by (simp_all add: AddrAdd_def split: option.splits)

lemma AddrAdd_result:
  "fst (AddrAdd E l a k) =
     (case fault E (KAddrAdd (Index l) a) of
        Some err \<Rightarrow> Some err
      | None \<Rightarrow> if (Index l, a) \<in> addrs k then Some (Errno ''file exists'') else None)"
  by (simp add: AddrAdd_def split: option.splits)

lemma AddrAdd_addrs:
  "addrs (snd (AddrAdd E l a k)) =
     (if fst (AddrAdd E l a k) = None then insert (Index l, a) (addrs k) else addrs k)"
  by (simp add: AddrAdd_def split: option.splits)

lemma AddrAdd_fst_cong: "addrs k' = addrs k \<Longrightarrow> fst (AddrAdd E l a k') = fst (AddrAdd E l a k)"
  by (simp add: AddrAdd_result)

lemma RouteAdd_simps [simp]:
  "calls (snd (RouteAdd E r k)) = calls k @ [KRouteAdd r]"
  "links (snd (RouteAdd E r k)) = links k"
  "addrs (snd (RouteAdd E r k)) = addrs k"
  "sockets (snd (RouteAdd E r k)) = sockets k"
  "sockopts (snd (RouteAdd E r k)) = sockopts k"
  "files (snd (RouteAdd E r k)) = files k"
  "logs (snd (RouteAdd E r k)) = logs k"
  by (simp_all add: RouteAdd_def split: option.splits)

lemma RouteAdd_result:
  "fst (RouteAdd E r k) =
     (case fault E (KRouteAdd r) of
        Some err \<Rightarrow> Some err
      | None \<Rightarrow> if r \<in> routes k then Some (Errno ''file exists'') else None)"
  by (simp add: RouteAdd_def split: option.splits)

lemma RouteAdd_routes:
  "routes (snd (RouteAdd E r k)) =
     (if fst (RouteAdd E r k) = None then insert r (routes k) else routes k)"
  by (simp add: RouteAdd_def split: option.splits)

lemma RouteAdd_fst_cong: "routes k' = routes k \<Longrightarrow> fst (RouteAdd E r k') = fst (RouteAdd E r k)"
  by (simp add: RouteAdd_result)

lemma RouteAdd_fst_after:
  "r' \<noteq> r \<Longrightarrow> routes k' = insert r (routes k) \<Longrightarrow> fst (RouteAdd E r' k') = fst (RouteAdd E r' k)"
  by (simp add: RouteAdd_result)

lemma case_pair_fst_snd:
  "(case p of (None, k') \<Rightarrow> f k' | (Some err, k') \<Rightarrow> g err k')
     = (case fst p of None \<Rightarrow> f (snd p) | Some err \<Rightarrow> g err (snd p))"
  by (cases p) (simp split: option.splits)

subsection \<open>The router\<close>

lemma router_env_simps [simp]:
  "file_content (router_env r) ''/perm/interfaces.json'' = Inr ''interfaces''"
  "file_content (router_env r) ''/perm/dhcp4/wire/lease.json'' = Inr ''lease4''"
  "file_content (router_env r) ''/perm/dhcp6/wire/lease.json'' = Inr ''lease6''"
  "file_content (router_env r) ''/none/interfaces.json'' = Inl (Errno ''no such file or directory'')"
  "filepath_Join (router_env r) d f = d @ ''/'' @ f"
  "Unmarshal_InterfaceConfig (router_env r) b = Inr router_cfg"
  "Unmarshal_dhcp4_Config (router_env r) b = Inr lease4"
  "Unmarshal_dhcp6_Config (router_env r) b = Inr lease6"
  "ParseAddr (router_env r) ''10.0.0.1/24'' = Inr lan_addr"
  "ParseAddr (router_env r) ''85.195.207.62/25'' = Inr wan_addr"
  "ParseAddr (router_env r) ''2001:db8::1/64'' = Inr lan6_addr"
  "ParseAddr (router_env r) [] = Inl (Errno ''invalid CIDR address'')"
  "fault (router_env r) = r"
  by (simp_all add: router_env_def)

lemma router_kernel_simps [simp]:
  "links (router_kernel ls) = ls" "addrs (router_kernel ls) = {}" "routes (router_kernel ls) = {}"
  "calls (router_kernel ls) = []"
  by (simp_all add: router_kernel_def)

lemma refused_simps [simp]:
  "up_refused (KLinkSetName i name) = None"
  "up_refused (KLinkSetUp i) = Some (Errno ''operation not permitted'')"
  "up_refused (KAddrReplace i a) = None"
  "socket_refused (KSocket d t p) = Some (Errno ''operation not permitted'')"
  "socket_refused (KWriteFile path s) = None"
  "socket_refused (KLinkByName name) = None"
  "socket_refused KLinkList = None"
  "list_refused KLinkList = Some (Errno ''interrupted system call'')"
  "default_route_refused (KLinkByName name) = None"
  "default_route_refused KNewHandle = None"
  "default_route_refused (KAddrAdd i a) = None"
  "default_route_refused (KRouteAdd rt) =
     (if RouteScope rt = SCOPE_UNIVERSE then Some (Errno ''network is unreachable'') else None)"
  by (simp_all add: up_refused_def socket_refused_def list_refused_def default_route_refused_def)

lemma hw_eth0: "HardwareAddr_String (LinkHardwareAddr eth0) = ''dc:9b:9c:ee:72:fd''"
  by (simp add: eth0_def HardwareAddr_String_def hexDigit_def)

lemma hw_uplink0: "HardwareAddr_String (LinkHardwareAddr uplink0) = ''02:73:53:00:ca:fe''"
  by (simp add: uplink0_def HardwareAddr_String_def hexDigit_def)

lemma hw_wlan0: "HardwareAddr_String (LinkHardwareAddr wlan0) = ''02:73:53:00:b0:0c''"
  by (simp add: wlan0_def HardwareAddr_String_def hexDigit_def)

lemma cfg_eth0: "byHardwareAddr router_cfg (HardwareAddr_String (LinkHardwareAddr eth0)) = Some lan_details"
  by (simp add: hw_eth0 byHardwareAddr_def router_cfg_def lan_details_def uplink_details_def)

lemma cfg_uplink0: "byHardwareAddr router_cfg (HardwareAddr_String (LinkHardwareAddr uplink0)) = Some uplink_details"
  by (simp add: hw_uplink0 byHardwareAddr_def router_cfg_def lan_details_def uplink_details_def)

lemma cfg_wlan0: "byHardwareAddr router_cfg (HardwareAddr_String (LinkHardwareAddr wlan0)) = None"
  by (simp add: hw_wlan0 byHardwareAddr_def router_cfg_def lan_details_def uplink_details_def)

lemma plan_eth0: "link_plan (router_env r) lan_details eth0 = [KLinkSetName 2 ''lan0'', KLinkSetUp 2, KAddrReplace 2 lan_addr]"
  by (simp add: link_plan_def lan_details_def eth0_def)

lemma plan_uplink0: "link_plan (router_env r) uplink_details uplink0 = [KLinkSetUp 3]"
  by (simp add: link_plan_def uplink_details_def uplink0_def)

lemma Itoa_25: "Itoa 25 = ''25''"
  by code_simp

lemma mask_25: "subnetMaskSize ''255.255.255.128'' = Inr 25"
  by code_simp

lemma CIDRMask_48: "CIDRMask 48 128 = [0xff, 0xff, 0xff, 0xff, 0xff, 0xff, 0, 0, 0, 0, 0, 0, 0, 0, 0, 0]"
  by code_simp

lemma CIDRMask_64: "CIDRMask 64 128 = [0xff, 0xff, 0xff, 0xff, 0xff, 0xff, 0xff, 0xff, 0, 0, 0, 0, 0, 0, 0, 0]"
  by code_simp

section \<open>The interface applier\<close>

subsection \<open>One interface\<close>

text \<open>
  The body of the loop performs the operations of its plan up to the first that fails,
  after the line it writes to the console, and returns the error of that operation.
\<close>

lemma applyLink_calls:
  "calls (snd (applyLink E details l k)) =
     calls k @ KWriteFile ''/dev/console'' (Sprintf_apply details) # asked E (link_plan E details l)"
  by (auto simp: applyLink_def Let_def link_plan_def asked_def case_pair_fst_snd
      split: option.splits sum.splits)

lemma applyLink_result:
  "fst (applyLink E details l k) =
     (case find (\<lambda>c. fault E c \<noteq> None) (link_plan E details l) of
        Some c \<Rightarrow> Some (link_error details c (the (fault E c)))
      | None \<Rightarrow>
          (if Addr details \<noteq> [] then
             (case ParseAddr E (Addr details) of
                Inl err \<Rightarrow> Some (Errorf_ParseAddr (Addr details) err)
              | Inr addr \<Rightarrow> None)
           else None))"
  by (auto simp: applyLink_def Let_def link_plan_def case_pair_fst_snd
      split: option.splits sum.splits)

lemma applyLink_links:
  "links (snd (applyLink E details l k)) =
     map (\<lambda>x. if Index x = Index l then link_update E details l x else x) (links k)"
  by (auto simp: applyLink_def Let_def link_update_def case_pair_fst_snd
      LinkSetName_links LinkSetUp_links map_idI
      split: option.splits sum.splits)

lemma applyLink_addrs:
  "addrs (snd (applyLink E details l k)) =
     (if fst (applyLink E details l k) = None \<and> Addr details \<noteq> []
      then (case ParseAddr E (Addr details) of
              Inl err \<Rightarrow> addrs k
            | Inr addr \<Rightarrow> insert (Index l, addr) (addrs k))
      else addrs k)"
  by (auto simp: applyLink_def Let_def case_pair_fst_snd
      split: option.splits sum.splits)

lemma applyLink_frame [simp]:
  "routes (snd (applyLink E details l k)) = routes k"
  "sockets (snd (applyLink E details l k)) = sockets k"
  "sockopts (snd (applyLink E details l k)) = sockopts k"
  by (auto simp: applyLink_def Let_def case_pair_fst_snd
      split: option.splits sum.splits)

lemma applyLink_files:
  "fst ` set (files (snd (applyLink E details l k))) \<subseteq> insert ''/dev/console'' (fst ` set (files k))"
  by (auto simp: applyLink_def Let_def case_pair_fst_snd WriteFile_files logged_def
      split: option.splits sum.splits if_splits)

lemma link_plan_target: "c \<in> set (link_plan E details l) \<Longrightarrow> call_target c = Some (Index l)"
  by (cases "Addr details = []"; cases "ParseAddr E (Addr details)")
     (auto simp: link_plan_def split: if_splits)

lemma link_plan_not_later: "c \<in> set (link_plan E details l) \<Longrightarrow> \<not> later_call c"
  by (cases "Addr details = []"; cases "ParseAddr E (Addr details)")
     (auto simp: link_plan_def split: if_splits)

lemma asked_subset: "set (asked E plan) \<subseteq> set plan"
  by (simp add: asked_def set_take_subset)

lemma applyLink_not_later:
  "\<exists>cs. calls (snd (applyLink E details l k)) = calls k @ cs \<and> (\<forall>c \<in> set cs. \<not> later_call c)"
proof -
  have "\<forall>c \<in> set (KWriteFile ''/dev/console'' (Sprintf_apply details) # asked E (link_plan E details l)).
          \<not> later_call c"
    using asked_subset [of E "link_plan E details l"] link_plan_not_later [of _ E details l]
    by auto
  then show ?thesis unfolding applyLink_calls by blast
qed

subsection \<open>The loop\<close>

lemma applyLinks_append:
  "applyLinks E byHw (ls1 @ ls2) k =
     (case applyLinks E byHw ls1 k of
        (Some err, k') \<Rightarrow> (Some err, k')
      | (None, k') \<Rightarrow> applyLinks E byHw ls2 k')"
  by (induction ls1 arbitrary: k) (auto split: option.splits prod.splits)

lemma applyLinks_skip:
  assumes "byHw (HardwareAddr_String (LinkHardwareAddr l)) = None"
  shows "applyLinks E byHw (ls1 @ l # ls2) k = applyLinks E byHw (ls1 @ ls2) k"
  using assms by (simp add: applyLinks_append split: prod.splits option.splits)

lemma applyLinks_single:
  assumes "byHw (HardwareAddr_String (LinkHardwareAddr l)) = Some details"
  shows "applyLinks E byHw [l] k = applyLink E details l k"
  using assms by (simp split: prod.splits option.splits)

lemma applyLinks_abort:
  assumes "applyLinks E byHw ls1 k0 = (None, k)"
    and "fst (applyLinks E byHw [l] k) = Some err"
  shows "applyLinks E byHw (ls1 @ l # ls2) k0 = (Some err, snd (applyLinks E byHw [l] k))"
  using assms by (auto simp: applyLinks_append split: prod.splits option.splits)

text \<open>
  Claim C7, as amended. For every live interface whose hardware address matches an entry
  of the configuration, the loop of \<^verbatim>\<open>applyInterfaces\<close> writes its line to the console
  and then asks the kernel for the operations of \<open>link_plan\<close>, in this order: a rename only
  when the live name differs from the configured name; then bringing the interface up
  only when its operational state is not up (\<^verbatim>\<open>attr.OperState != netlink.OperUp\<close>), which
  is not the administrative flag; then an address replace only when an address is
  configured and parses. It stops at the first operation that fails and returns its
  error, wrapped by \<^verbatim>\<open>fmt.Errorf\<close>; an address that does not parse is an error as well. An
  error at one interface ends the loop: the interfaces after it are not processed.
\<close>

theorem matched_interface_steps:
  assumes "byHw (HardwareAddr_String (LinkHardwareAddr l)) = Some details"
  shows "calls (snd (applyLinks E byHw [l] k)) =
           calls k @ KWriteFile ''/dev/console'' (Sprintf_apply details) # asked E (link_plan E details l)
         \<and> fst (applyLinks E byHw [l] k) =
             (case find (\<lambda>c. fault E c \<noteq> None) (link_plan E details l) of
                Some c \<Rightarrow> Some (link_error details c (the (fault E c)))
              | None \<Rightarrow>
                  (if Addr details \<noteq> [] then
                     (case ParseAddr E (Addr details) of
                        Inl err \<Rightarrow> Some (Errorf_ParseAddr (Addr details) err)
                      | Inr addr \<Rightarrow> None)
                   else None))
         \<and> (applyLinks E byHw ls1 k0 = (None, k) \<and> fst (applyLinks E byHw [l] k) = Some err \<longrightarrow>
              applyLinks E byHw (ls1 @ l # ls2) k0 = (Some err, snd (applyLinks E byHw [l] k)))"
  using applyLinks_single [where byHw = byHw and l = l and details = details, OF assms]
    applyLink_calls applyLink_result applyLinks_abort
  by simp

theorem matched_interface_steps_witness:
  "byHardwareAddr router_cfg (HardwareAddr_String (LinkHardwareAddr eth0)) = Some lan_details
   \<and> calls (snd (applyLinks (router_env up_refused) (byHardwareAddr router_cfg) [eth0] (router_kernel [eth0, uplink0]))) =
       [KWriteFile ''/dev/console'' (Sprintf_apply lan_details), KLinkSetName 2 ''lan0'', KLinkSetUp 2]
   \<and> fst (applyLinks (router_env up_refused) (byHardwareAddr router_cfg) [eth0] (router_kernel [eth0, uplink0])) =
       Some (Errorf_LinkSetUp ''lan0'' (Errno ''operation not permitted''))
   \<and> applyLinks (router_env up_refused) (byHardwareAddr router_cfg) [] (router_kernel [eth0, uplink0])
       = (None, router_kernel [eth0, uplink0])
   \<and> applyLinks (router_env up_refused) (byHardwareAddr router_cfg) ([] @ eth0 # [uplink0]) (router_kernel [eth0, uplink0]) =
       (Some (Errorf_LinkSetUp ''lan0'' (Errno ''operation not permitted'')),
        snd (applyLinks (router_env up_refused) (byHardwareAddr router_cfg) [eth0] (router_kernel [eth0, uplink0])))"
proof -
  let ?E = "router_env up_refused" and ?k = "router_kernel [eth0, uplink0]"
  let ?plan = "[KLinkSetName 2 ''lan0'', KLinkSetUp 2, KAddrReplace 2 lan_addr]"
  have a: "asked ?E ?plan = [KLinkSetName 2 ''lan0'', KLinkSetUp 2]"
    by (simp add: asked_def)
  have f: "find (\<lambda>c. fault ?E c \<noteq> None) ?plan = Some (KLinkSetUp 2)"
    by simp
  have e: "link_error lan_details (KLinkSetUp 2) (the (fault ?E (KLinkSetUp 2)))
             = Errorf_LinkSetUp ''lan0'' (Errno ''operation not permitted'')"
    by (simp add: lan_details_def)
  have c0: "calls ?k = []" by simp
  have nil: "applyLinks ?E (byHardwareAddr router_cfg) [] ?k = (None, ?k)" by simp
  note th = matched_interface_steps [where byHw = "byHardwareAddr router_cfg" and l = eth0
      and details = lan_details and E = ?E and k = ?k and ?k0.0 = ?k
      and ?ls1.0 = "[]" and ?ls2.0 = "[uplink0]"
      and err = "Errorf_LinkSetUp ''lan0'' (Errno ''operation not permitted'')", OF cfg_eth0]
  from th [THEN conjunct1]
  have 1: "calls (snd (applyLinks ?E (byHardwareAddr router_cfg) [eth0] ?k)) =
       [KWriteFile ''/dev/console'' (Sprintf_apply lan_details), KLinkSetName 2 ''lan0'', KLinkSetUp 2]"
    unfolding plan_eth0 a c0 by (simp only: append_Nil)
  from th [THEN conjunct2, THEN conjunct1]
  have 2: "fst (applyLinks ?E (byHardwareAddr router_cfg) [eth0] ?k) =
       Some (Errorf_LinkSetUp ''lan0'' (Errno ''operation not permitted''))"
    unfolding plan_eth0 f by (simp only: option.case e)
  from th [THEN conjunct2, THEN conjunct2] nil 2
  have 3: "applyLinks ?E (byHardwareAddr router_cfg) ([] @ eth0 # [uplink0]) ?k =
       (Some (Errorf_LinkSetUp ''lan0'' (Errno ''operation not permitted'')),
        snd (applyLinks ?E (byHardwareAddr router_cfg) [eth0] ?k))"
    by blast
  from cfg_eth0 1 2 nil 3 show ?thesis by blast
qed

text \<open>
  Claim C7 as the specification states it fails at an interface that is administratively
  up and has no carrier: its configured name is its live name, so there is no rename, and
  the loop brings it up although it is administratively up.
\<close>

theorem up_of_administratively_up_interface_counterexample:
  "byHardwareAddr router_cfg (HardwareAddr_String (LinkHardwareAddr uplink0)) = Some uplink_details
   \<and> FlagUp uplink0
   \<and> calls (snd (applyLinks (router_env nothing_refused) (byHardwareAddr router_cfg) [uplink0]
               (router_kernel [uplink0]))) =
       [KWriteFile ''/dev/console'' (Sprintf_apply uplink_details), KLinkSetUp (Index uplink0)]"
proof -
  have "calls (snd (applyLink (router_env nothing_refused) uplink_details uplink0 (router_kernel [uplink0])))
          = [KWriteFile ''/dev/console'' (Sprintf_apply uplink_details), KLinkSetUp (Index uplink0)]"
    unfolding applyLink_calls plan_uplink0
    by (simp add: asked_def nothing_refused_def uplink0_def)
  moreover have "FlagUp uplink0" by (simp add: uplink0_def)
  ultimately show ?thesis
    using cfg_uplink0 by (simp add: applyLinks_single [where details = uplink_details] del: applyLinks.simps)
qed

subsection \<open>Interfaces without a configuration entry\<close>

lemma applyLink_untouched:
  assumes "Index l \<noteq> i"
  shows "x \<in> set (links k) \<Longrightarrow> Index x = i \<Longrightarrow> x \<in> set (links (snd (applyLink E details l k)))"
    and "(i, a) \<in> addrs (snd (applyLink E details l k)) \<longleftrightarrow> (i, a) \<in> addrs k"
    and "\<exists>cs. calls (snd (applyLink E details l k)) = calls k @ cs
           \<and> (\<forall>c \<in> set cs. call_target c \<noteq> Some i)"
proof -
  show "x \<in> set (links k) \<Longrightarrow> Index x = i \<Longrightarrow> x \<in> set (links (snd (applyLink E details l k)))"
    using assms by (force simp: applyLink_links)
  show "(i, a) \<in> addrs (snd (applyLink E details l k)) \<longleftrightarrow> (i, a) \<in> addrs k"
    using assms by (auto simp: applyLink_addrs split: sum.splits)
  have "\<forall>c \<in> set (KWriteFile ''/dev/console'' (Sprintf_apply details) # asked E (link_plan E details l)).
          call_target c \<noteq> Some i"
    using assms asked_subset [of E "link_plan E details l"] link_plan_target [of _ E details l]
    by auto
  then show "\<exists>cs. calls (snd (applyLink E details l k)) = calls k @ cs
           \<and> (\<forall>c \<in> set cs. call_target c \<noteq> Some i)"
    unfolding applyLink_calls by blast
qed

lemma applyLinks_untouched:
  assumes "\<forall>l' \<in> set ls. byHw (HardwareAddr_String (LinkHardwareAddr l')) \<noteq> None \<longrightarrow> Index l' \<noteq> i"
  shows "(x \<in> set (links k) \<and> Index x = i \<longrightarrow> x \<in> set (links (snd (applyLinks E byHw ls k))))
       \<and> ((i, a) \<in> addrs (snd (applyLinks E byHw ls k)) \<longleftrightarrow> (i, a) \<in> addrs k)
       \<and> (\<exists>cs. calls (snd (applyLinks E byHw ls k)) = calls k @ cs
             \<and> (\<forall>c \<in> set cs. call_target c \<noteq> Some i))"
  using assms
proof (induction ls arbitrary: k)
  case Nil
  show ?case by simp
next
  case (Cons l ls)
  show ?case
  proof (cases "byHw (HardwareAddr_String (LinkHardwareAddr l))")
    case None
    with Cons show ?thesis by simp
  next
    case (Some details)
    with Cons.prems have ne: "Index l \<noteq> i" by simp
    obtain r k' where step: "applyLink E details l k = (r, k')" by (cases "applyLink E details l k")
    from applyLink_untouched(1) [OF ne, where x = x and k = k and E = E and details = details]
      applyLink_untouched(2) [OF ne, where k = k and E = E and details = details and a = a]
      applyLink_untouched(3) [OF ne, where k = k and E = E and details = details] step
    have l1: "x \<in> set (links k) \<and> Index x = i \<longrightarrow> x \<in> set (links k')"
      and a1: "(i, a) \<in> addrs k' \<longleftrightarrow> (i, a) \<in> addrs k"
      and c1: "\<exists>cs. calls k' = calls k @ cs \<and> (\<forall>c \<in> set cs. call_target c \<noteq> Some i)"
      by auto
    show ?thesis
    proof (cases r)
      case (Some err)
      with \<open>byHw _ = Some details\<close> step l1 a1 c1 show ?thesis by simp
    next
      case None
      from Cons.prems have "\<forall>l' \<in> set ls. byHw (HardwareAddr_String (LinkHardwareAddr l')) \<noteq> None \<longrightarrow> Index l' \<noteq> i"
        by simp
      from Cons.IH [OF this, where k = k']
      have l2: "x \<in> set (links k') \<and> Index x = i \<longrightarrow> x \<in> set (links (snd (applyLinks E byHw ls k')))"
        and a2: "(i, a) \<in> addrs (snd (applyLinks E byHw ls k')) \<longleftrightarrow> (i, a) \<in> addrs k'"
        and c2: "\<exists>cs. calls (snd (applyLinks E byHw ls k')) = calls k' @ cs \<and> (\<forall>c \<in> set cs. call_target c \<noteq> Some i)"
        by auto
      from c1 c2 have c3: "\<exists>cs. calls (snd (applyLinks E byHw ls k')) = calls k @ cs \<and> (\<forall>c \<in> set cs. call_target c \<noteq> Some i)"
        by (metis Un_iff append.assoc set_append)
      from None \<open>byHw _ = Some details\<close> step l1 l2 a1 a2 c3 show ?thesis by simp
    qed
  qed
qed

text \<open>
  Claim C8. A live interface whose hardware address matches no entry of the
  configuration is skipped: the run of \<^verbatim>\<open>applyInterfaces\<close> is the run over the other
  interfaces, so the interface produces no error and the others are processed; the
  record of the interface in the kernel is the one before the run, its addresses are
  those before the run, and no operation of the run is directed at it. The indices of
  the live interfaces are distinct, as the kernel's are.
\<close>

theorem unmatched_interface_untouched:
  assumes "file_content E (filepath_Join E dir ''interfaces.json'') = Inr b"
    and "Unmarshal_InterfaceConfig E b = Inr cfg"
    and "fault E KLinkList = None"
    and "links k = ls1 @ l # ls2"
    and "distinct (map Index (links k))"
    and "byHardwareAddr cfg (HardwareAddr_String (LinkHardwareAddr l)) = None"
  shows "applyInterfaces E dir k =
           applyLinks E (byHardwareAddr cfg) (ls1 @ ls2)
             (called KLinkList (called (KReadFile (filepath_Join E dir ''interfaces.json'')) k))
         \<and> l \<in> set (links (snd (applyInterfaces E dir k)))
         \<and> ((Index l, a) \<in> addrs (snd (applyInterfaces E dir k)) \<longleftrightarrow> (Index l, a) \<in> addrs k)
         \<and> (\<exists>cs. calls (snd (applyInterfaces E dir k)) = calls k @ cs
               \<and> (\<forall>c \<in> set cs. call_target c \<noteq> Some (Index l)))"
proof -
  let ?k1 = "called KLinkList (called (KReadFile (filepath_Join E dir ''interfaces.json'')) k)"
  have run: "applyInterfaces E dir k = applyLinks E (byHardwareAddr cfg) (links k) ?k1"
    using assms(1-3) by (simp add: applyInterfaces_def ReadFile_def LinkList_def)
  have skip: "applyLinks E (byHardwareAddr cfg) (links k) ?k1
                = applyLinks E (byHardwareAddr cfg) (ls1 @ ls2) ?k1"
    unfolding assms(4) using assms(6) by (rule applyLinks_skip)
  have others: "\<forall>l' \<in> set (links k).
      byHardwareAddr cfg (HardwareAddr_String (LinkHardwareAddr l')) \<noteq> None \<longrightarrow> Index l' \<noteq> Index l"
  proof (intro ballI impI)
    fix l' assume l': "l' \<in> set (links k)"
      and m: "byHardwareAddr cfg (HardwareAddr_String (LinkHardwareAddr l')) \<noteq> None"
    from m assms(6) have "l' \<noteq> l" by auto
    moreover have "l \<in> set (links k)" using assms(4) by simp
    moreover have "inj_on Index (set (links k))" using assms(5) by (simp add: distinct_map)
    ultimately show "Index l' \<noteq> Index l" using l' by (auto dest: inj_onD)
  qed
  from applyLinks_untouched [OF others, where x = l and k = ?k1 and E = E and a = a]
  have "l \<in> set (links (snd (applyLinks E (byHardwareAddr cfg) (links k) ?k1)))"
    and "(Index l, a) \<in> addrs (snd (applyLinks E (byHardwareAddr cfg) (links k) ?k1)) \<longleftrightarrow> (Index l, a) \<in> addrs k"
    and "\<exists>cs. calls (snd (applyLinks E (byHardwareAddr cfg) (links k) ?k1)) = calls ?k1 @ cs
               \<and> (\<forall>c \<in> set cs. call_target c \<noteq> Some (Index l))"
    using assms(4) by auto
  moreover from this(3) have "\<exists>cs. calls (snd (applyLinks E (byHardwareAddr cfg) (links k) ?k1)) = calls k @ cs
               \<and> (\<forall>c \<in> set cs. call_target c \<noteq> Some (Index l))"
    by auto
  ultimately show ?thesis using run skip by simp
qed

theorem unmatched_interface_untouched_witness:
  "file_content (router_env nothing_refused)
      (filepath_Join (router_env nothing_refused) ''/perm'' ''interfaces.json'') = Inr ''interfaces''
   \<and> Unmarshal_InterfaceConfig (router_env nothing_refused) ''interfaces'' = Inr router_cfg
   \<and> fault (router_env nothing_refused) KLinkList = None
   \<and> links (router_kernel [eth0, wlan0, uplink0]) = [eth0] @ wlan0 # [uplink0]
   \<and> distinct (map Index (links (router_kernel [eth0, wlan0, uplink0])))
   \<and> byHardwareAddr router_cfg (HardwareAddr_String (LinkHardwareAddr wlan0)) = None
   \<and> applyInterfaces (router_env nothing_refused) ''/perm'' (router_kernel [eth0, wlan0, uplink0]) =
        applyLinks (router_env nothing_refused) (byHardwareAddr router_cfg) ([eth0] @ [uplink0])
          (called KLinkList (called (KReadFile ''/perm/interfaces.json'') (router_kernel [eth0, wlan0, uplink0])))
   \<and> wlan0 \<in> set (links (snd (applyInterfaces (router_env nothing_refused) ''/perm'' (router_kernel [eth0, wlan0, uplink0]))))
   \<and> (Index wlan0, lan_addr) \<notin> addrs (snd (applyInterfaces (router_env nothing_refused) ''/perm'' (router_kernel [eth0, wlan0, uplink0])))
   \<and> (\<exists>cs. calls (snd (applyInterfaces (router_env nothing_refused) ''/perm'' (router_kernel [eth0, wlan0, uplink0])))
              = calls (router_kernel [eth0, wlan0, uplink0]) @ cs
            \<and> (\<forall>c \<in> set cs. call_target c \<noteq> Some (Index wlan0)))"
proof -
  let ?E = "router_env nothing_refused" and ?k = "router_kernel [eth0, wlan0, uplink0]"
  have a: "file_content ?E (filepath_Join ?E ''/perm'' ''interfaces.json'') = Inr ''interfaces''" by simp
  have b: "Unmarshal_InterfaceConfig ?E ''interfaces'' = Inr router_cfg" by simp
  have c: "fault ?E KLinkList = None" by (simp add: nothing_refused_def)
  have d: "links ?k = [eth0] @ wlan0 # [uplink0]" by simp
  have e: "distinct (map Index (links ?k))" by (simp add: eth0_def wlan0_def uplink0_def)
  have j: "filepath_Join ?E ''/perm'' ''interfaces.json'' = ''/perm/interfaces.json''" by simp
  have n: "(Index wlan0, lan_addr) \<notin> addrs ?k" by simp
  from unmatched_interface_untouched [OF a b c d e cfg_wlan0, where a = lan_addr] a b c d e cfg_wlan0 n
  show ?thesis unfolding j by blast
qed

subsection \<open>An error of \<^verbatim>\<open>netlink.LinkList\<close>\<close>

text \<open>
  Claim C10. When the configuration has been read and \<^verbatim>\<open>netlink.LinkList\<close> fails,
  \<^verbatim>\<open>applyInterfaces\<close> returns \<^verbatim>\<open>nil\<close>: the error is never read, the loop runs over the
  empty list that the library returns with an error, and the state is the one before the
  call but for the record of the two calls made. \<^verbatim>\<open>Apply\<close> then goes on with the steps
  that follow, as after a success.
\<close>

theorem LinkList_error_ignored:
  assumes "file_content E (filepath_Join E dir ''interfaces.json'') = Inr b"
    and "Unmarshal_InterfaceConfig E b = Inr cfg"
    and "fault E KLinkList = Some err"
  shows "applyInterfaces E dir k =
           (None, called KLinkList (called (KReadFile (filepath_Join E dir ''interfaces.json'')) k))
         \<and> Apply E iface dir k =
             Apply_leases E iface dir
               (called KLinkList (called (KReadFile (filepath_Join E dir ''interfaces.json'')) k))"
  using assms by (simp add: Apply_def applyInterfaces_def ReadFile_def LinkList_def)

theorem LinkList_error_ignored_witness:
  "file_content (router_env list_refused) (filepath_Join (router_env list_refused) ''/perm'' ''interfaces.json'')
     = Inr ''interfaces''
   \<and> Unmarshal_InterfaceConfig (router_env list_refused) ''interfaces'' = Inr router_cfg
   \<and> fault (router_env list_refused) KLinkList = Some (Errno ''interrupted system call'')
   \<and> applyInterfaces (router_env list_refused) ''/perm'' (router_kernel [eth0, uplink0]) =
       (None, called KLinkList (called (KReadFile ''/perm/interfaces.json'') (router_kernel [eth0, uplink0])))
   \<and> Apply (router_env list_refused) ''uplink0'' ''/perm'' (router_kernel [eth0, uplink0]) =
       Apply_leases (router_env list_refused) ''uplink0'' ''/perm''
         (called KLinkList (called (KReadFile ''/perm/interfaces.json'') (router_kernel [eth0, uplink0])))"
proof -
  have a: "file_content (router_env list_refused) (filepath_Join (router_env list_refused) ''/perm'' ''interfaces.json'')
     = Inr ''interfaces''" by simp
  have b: "Unmarshal_InterfaceConfig (router_env list_refused) ''interfaces'' = Inr router_cfg" by simp
  have c: "fault (router_env list_refused) KLinkList = Some (Errno ''interrupted system call'')" by simp
  from LinkList_error_ignored [OF a b c, of "router_kernel [eth0, uplink0]" "''uplink0''"] a b c
  show ?thesis by simp
qed

subsection \<open>What the interface applier leaves alone\<close>

lemma applyLinks_files:
  "fst ` set (files (snd (applyLinks E byHw ls k))) \<subseteq> insert ''/dev/console'' (fst ` set (files k))"
proof (induction ls arbitrary: k)
  case Nil
  show ?case by auto
next
  case (Cons l ls)
  show ?case
  proof (cases "byHw (HardwareAddr_String (LinkHardwareAddr l))")
    case None
    with Cons show ?thesis by simp
  next
    case (Some details)
    let ?k' = "snd (applyLink E details l k)"
    note step = applyLink_files [of E details l k]
    show ?thesis
    proof (cases "fst (applyLink E details l k)")
      case None
      with Some have run: "applyLinks E byHw (l # ls) k = applyLinks E byHw ls ?k'"
        by (simp add: case_pair_fst_snd)
      from Cons.IH [of ?k'] step show ?thesis unfolding run by blast
    next
      case (Some err)
      with \<open>byHw _ = Some details\<close> have run: "applyLinks E byHw (l # ls) k = (Some err, ?k')"
        by (simp add: case_pair_fst_snd)
      from step show ?thesis unfolding run by simp
    qed
  qed
qed

lemma applyLinks_frame:
  "routes (snd (applyLinks E byHw ls k)) = routes k
   \<and> sockets (snd (applyLinks E byHw ls k)) = sockets k
   \<and> sockopts (snd (applyLinks E byHw ls k)) = sockopts k"
  by (induction ls arbitrary: k) (auto simp: case_pair_fst_snd split: option.splits)

lemma applyInterfaces_frame:
  "routes (snd (applyInterfaces E dir k)) = routes k
   \<and> sockets (snd (applyInterfaces E dir k)) = sockets k
   \<and> sockopts (snd (applyInterfaces E dir k)) = sockopts k
   \<and> fst ` set (files (snd (applyInterfaces E dir k))) \<subseteq> insert ''/dev/console'' (fst ` set (files k))"
proof (cases "applyInterfaces E dir k = applyLinks E (byHardwareAddr (projr (Unmarshal_InterfaceConfig E (projr (file_content E (filepath_Join E dir ''interfaces.json''))))))
       (fst (fst (LinkList E (called (KReadFile (filepath_Join E dir ''interfaces.json'')) k))))
       (called KLinkList (called (KReadFile (filepath_Join E dir ''interfaces.json'')) k))")
  case True
  show ?thesis unfolding True
    using applyLinks_frame [where k = "called KLinkList (called (KReadFile (filepath_Join E dir ''interfaces.json'')) k)"]
      applyLinks_files [where k = "called KLinkList (called (KReadFile (filepath_Join E dir ''interfaces.json'')) k)"]
    by simp
next
  case False
  then have "snd (applyInterfaces E dir k) = called (KReadFile (filepath_Join E dir ''interfaces.json'')) k"
    by (auto simp: applyInterfaces_def ReadFile_def LinkList_def split: sum.splits option.splits)
  then show ?thesis by auto
qed

lemma applyLinks_not_later:
  "\<exists>cs. calls (snd (applyLinks E byHw ls k)) = calls k @ cs \<and> (\<forall>c \<in> set cs. \<not> later_call c)"
proof (induction ls arbitrary: k)
  case Nil
  show ?case by simp
next
  case (Cons l ls)
  show ?case
  proof (cases "byHw (HardwareAddr_String (LinkHardwareAddr l))")
    case None
    with Cons show ?thesis by simp
  next
    case (Some details)
    let ?k' = "snd (applyLink E details l k)"
    from applyLink_not_later [of E details l k]
    obtain cs where c1: "calls ?k' = calls k @ cs" and n1: "\<forall>c \<in> set cs. \<not> later_call c" by blast
    show ?thesis
    proof (cases "fst (applyLink E details l k)")
      case None
      with Some have run: "applyLinks E byHw (l # ls) k = applyLinks E byHw ls ?k'"
        by (simp add: case_pair_fst_snd)
      from Cons.IH [of ?k']
      obtain cs' where c2: "calls (snd (applyLinks E byHw ls ?k')) = calls ?k' @ cs'"
        and n2: "\<forall>c \<in> set cs'. \<not> later_call c" by blast
      from c1 c2 have "calls (snd (applyLinks E byHw ls ?k')) = calls k @ (cs @ cs')" by simp
      moreover from n1 n2 have "\<forall>c \<in> set (cs @ cs'). \<not> later_call c" by auto
      ultimately show ?thesis unfolding run by blast
    next
      case (Some err)
      with \<open>byHw _ = Some details\<close> have run: "applyLinks E byHw (l # ls) k = (Some err, ?k')"
        by (simp add: case_pair_fst_snd)
      from c1 n1 show ?thesis unfolding run by auto
    qed
  qed
qed

lemma applyInterfaces_not_later:
  "\<exists>cs. calls (snd (applyInterfaces E dir k)) = calls k @ cs \<and> (\<forall>c \<in> set cs. \<not> later_call c)"
proof (cases "applyInterfaces E dir k = applyLinks E (byHardwareAddr (projr (Unmarshal_InterfaceConfig E (projr (file_content E (filepath_Join E dir ''interfaces.json''))))))
       (fst (fst (LinkList E (called (KReadFile (filepath_Join E dir ''interfaces.json'')) k))))
       (called KLinkList (called (KReadFile (filepath_Join E dir ''interfaces.json'')) k))")
  case True
  let ?k0 = "called KLinkList (called (KReadFile (filepath_Join E dir ''interfaces.json'')) k)"
  from applyLinks_not_later [where k = ?k0]
  obtain cs where c: "calls (snd (applyInterfaces E dir k)) = calls ?k0 @ cs"
    and n: "\<forall>c \<in> set cs. \<not> later_call c" unfolding True by blast
  from c have "calls (snd (applyInterfaces E dir k))
      = calls k @ (KReadFile (filepath_Join E dir ''interfaces.json'') # KLinkList # cs)" by simp
  moreover from n have "\<forall>c \<in> set (KReadFile (filepath_Join E dir ''interfaces.json'') # KLinkList # cs). \<not> later_call c"
    by simp
  ultimately show ?thesis by blast
next
  case False
  then have "snd (applyInterfaces E dir k) = called (KReadFile (filepath_Join E dir ''interfaces.json'')) k"
    by (auto simp: applyInterfaces_def ReadFile_def LinkList_def split: sum.splits option.splits)
  then show ?thesis by auto
qed

subsection \<open>The addresses after a run\<close>

lemma applyLink_fst: "fst (applyLink E details l k) = link_result E details l"
  by (simp add: applyLink_result link_result_def)

lemma applyLink_addrs_eq:
  "addrs (snd (applyLink E details l k)) =
     (if link_result E details l = None then addrs k \<union> link_addr E details l else addrs k)"
  by (auto simp: applyLink_addrs applyLink_fst link_addr_def split: sum.splits)

lemma applyLink_pair:
  "applyLink E details l k = (link_result E details l, snd (applyLink E details l k))"
  using applyLink_fst [of E details l k] by (metis prod.collapse)

lemma applyLinks_addrs:
  "addrs (snd (applyLinks E byHw ls k)) = addrs k \<union> links_addrs E byHw ls"
proof (induction ls arbitrary: k)
  case Nil
  show ?case by simp
next
  case (Cons l ls)
  show ?case
  proof (cases "byHw (HardwareAddr_String (LinkHardwareAddr l))")
    case None
    with Cons show ?thesis by simp
  next
    case (Some details)
    let ?k' = "snd (applyLink E details l k)"
    show ?thesis
    proof (cases "link_result E details l")
      case None
      have "applyLinks E byHw (l # ls) k = applyLinks E byHw ls ?k'"
        using Some None by (simp add: case_pair_fst_snd applyLink_fst)
      moreover have "addrs ?k' = addrs k \<union> link_addr E details l"
        using None by (simp add: applyLink_addrs_eq)
      ultimately show ?thesis
        using Some None Cons.IH [of ?k'] by (simp add: Un_assoc)
    next
      case (Some err)
      have "applyLinks E byHw (l # ls) k = (Some err, ?k')"
        using \<open>byHw _ = Some details\<close> Some by (simp add: case_pair_fst_snd applyLink_fst)
      moreover have "addrs ?k' = addrs k"
        using Some by (simp add: applyLink_addrs_eq)
      ultimately show ?thesis
        using \<open>byHw _ = Some details\<close> Some by simp
    qed
  qed
qed

lemma same_link_refl: "same_link E byHw x x"
  by (simp add: same_link_def)

lemma same_link_result:
  assumes "same_link E byHw x y"
    and "byHw (HardwareAddr_String (LinkHardwareAddr y)) = Some details"
  shows "link_result E details x = link_result E details y"
    and "link_addr E details x = link_addr E details y"
proof -
  from assms have i: "Index x = Index y" and o: "OperState x = OperState y"
    and n: "LinkName x = LinkName y
              \<or> (LinkName x = Name details \<and> fault E (KLinkSetName (Index y) (Name details)) = None)"
    by (auto simp: same_link_def)
  show "link_addr E details x = link_addr E details y"
    unfolding link_addr_def i by (rule refl)
  define tail where "tail =
     (if OperState y \<noteq> OperUp then [KLinkSetUp (Index y)] else [])
     @ (if Addr details \<noteq> [] then
          (case ParseAddr E (Addr details) of
             Inl err \<Rightarrow> []
           | Inr addr \<Rightarrow> [KAddrReplace (Index y) addr])
        else [])"
  have py: "link_plan E details y =
      (if LinkName y \<noteq> Name details then [KLinkSetName (Index y) (Name details)] else []) @ tail"
    unfolding link_plan_def tail_def by (rule refl)
  have px: "link_plan E details x =
      (if LinkName x \<noteq> Name details then [KLinkSetName (Index y) (Name details)] else []) @ tail"
    unfolding link_plan_def tail_def i o by (rule refl)
  from n have "find (\<lambda>c. fault E c \<noteq> None) (link_plan E details x)
                 = find (\<lambda>c. fault E c \<noteq> None) (link_plan E details y)"
  proof
    assume "LinkName x = LinkName y"
    then show ?thesis unfolding px py by simp
  next
    assume "LinkName x = Name details \<and> fault E (KLinkSetName (Index y) (Name details)) = None"
    then show ?thesis unfolding px py by simp
  qed
  then show "link_result E details x = link_result E details y"
    unfolding link_result_def by simp
qed

lemma links_addrs_same:
  assumes "list_all2 (same_link E byHw) xs ys"
  shows "links_addrs E byHw xs = links_addrs E byHw ys"
  using assms
proof (induction xs ys rule: list_all2_induct)
  case Nil
  show ?case by simp
next
  case (Cons x xs y ys)
  from Cons.hyps(1) have hw: "LinkHardwareAddr x = LinkHardwareAddr y" by (simp add: same_link_def)
  show ?case
  proof (cases "byHw (HardwareAddr_String (LinkHardwareAddr y))")
    case None
    with hw Cons.IH show ?thesis by simp
  next
    case (Some details)
    from same_link_result [OF Cons.hyps(1) Some] hw Some Cons.IH show ?thesis by simp
  qed
qed

lemma same_link_update:
  assumes "same_link E byHw x l"
    and "byHw (HardwareAddr_String (LinkHardwareAddr l)) = Some details"
  shows "same_link E byHw (link_update E details l x) l"
  using assms by (auto simp: same_link_def link_update_def split: option.splits)

lemma applyLink_same_links:
  assumes rel: "list_all2 (same_link E byHw) (links k) ls0"
    and d: "distinct (map Index ls0)"
    and l: "l \<in> set ls0"
    and m: "byHw (HardwareAddr_String (LinkHardwareAddr l)) = Some details"
  shows "list_all2 (same_link E byHw) (links (snd (applyLink E details l k))) ls0"
proof -
  let ?f = "\<lambda>x. if Index x = Index l then link_update E details l x else x"
  from rel have len: "length (links k) = length ls0"
    and nth: "\<And>i. i < length ls0 \<Longrightarrow> same_link E byHw (links k ! i) (ls0 ! i)"
    by (auto simp: list_all2_conv_all_nth)
  from d have inj: "inj_on Index (set ls0)" by (simp add: distinct_map)
  have "same_link E byHw (?f (links k ! i)) (ls0 ! i)" if i: "i < length ls0" for i
  proof (cases "Index (links k ! i) = Index l")
    case False
    with nth [OF i] show ?thesis by simp
  next
    case True
    from nth [OF i] have "Index (links k ! i) = Index (ls0 ! i)" by (simp add: same_link_def)
    with True have "Index (ls0 ! i) = Index l" by simp
    moreover have "ls0 ! i \<in> set ls0" using i by simp
    ultimately have eq: "ls0 ! i = l" using inj l by (auto dest: inj_onD)
    from nth [OF i] eq have "same_link E byHw (links k ! i) l" by simp
    from same_link_update [OF this m] True eq show ?thesis by simp
  qed
  with len show ?thesis
    by (simp add: applyLink_links list_all2_conv_all_nth)
qed

lemma applyLinks_same_links:
  assumes "list_all2 (same_link E byHw) (links k) ls0"
    and "distinct (map Index ls0)"
    and "set ls \<subseteq> set ls0"
  shows "list_all2 (same_link E byHw) (links (snd (applyLinks E byHw ls k))) ls0"
  using assms
proof (induction ls arbitrary: k)
  case Nil
  then show ?case by simp
next
  case (Cons l ls)
  show ?case
  proof (cases "byHw (HardwareAddr_String (LinkHardwareAddr l))")
    case None
    with Cons show ?thesis by simp
  next
    case (Some details)
    obtain r k' where step: "applyLink E details l k = (r, k')" by (cases "applyLink E details l k")
    from Cons.prems have "l \<in> set ls0" by simp
    from applyLink_same_links [OF Cons.prems(1) Cons.prems(2) this Some] step
    have rel': "list_all2 (same_link E byHw) (links k') ls0" by simp
    show ?thesis
    proof (cases r)
      case None
      from Cons.prems have "set ls \<subseteq> set ls0" by simp
      from Cons.IH [OF rel' Cons.prems(2) this] None Some step show ?thesis by simp
    next
      case (Some err)
      with \<open>byHw _ = Some details\<close> step rel' show ?thesis by simp
    qed
  qed
qed

lemma applyInterfaces_addrs:
  "addrs (snd (applyInterfaces E dir k)) = addrs k \<union> interfaces_addrs E dir (links k)"
  by (simp add: applyInterfaces_def ReadFile_def LinkList_def interfaces_addrs_def applyLinks_addrs
      split: sum.splits option.splits)

lemma applyInterfaces_links:
  assumes "file_content E (filepath_Join E dir ''interfaces.json'') = Inr b"
    and "Unmarshal_InterfaceConfig E b = Inr cfg"
    and "fault E KLinkList = None"
    and "distinct (map Index (links k))"
  shows "list_all2 (same_link E (byHardwareAddr cfg)) (links (snd (applyInterfaces E dir k))) (links k)"
proof -
  let ?k0 = "called KLinkList (called (KReadFile (filepath_Join E dir ''interfaces.json'')) k)"
  have run: "applyInterfaces E dir k = applyLinks E (byHardwareAddr cfg) (links k) ?k0"
    using assms(1-3) by (simp add: applyInterfaces_def ReadFile_def LinkList_def)
  have "list_all2 (same_link E (byHardwareAddr cfg)) (links ?k0) (links k)"
    by (simp add: list_all2_refl same_link_refl)
  from applyLinks_same_links [OF this assms(4) subset_refl] run show ?thesis by simp
qed

lemma applyInterfaces_addrs_idempotent:
  assumes "distinct (map Index (links k))"
  shows "addrs (snd (applyInterfaces E dir (snd (applyInterfaces E dir k))))
           = addrs (snd (applyInterfaces E dir k))"
proof -
  let ?k1 = "snd (applyInterfaces E dir k)"
  have "interfaces_addrs E dir (links ?k1) = interfaces_addrs E dir (links k)"
  proof (cases "file_content E (filepath_Join E dir ''interfaces.json'')")
    case (Inl err)
    then show ?thesis by (simp add: interfaces_addrs_def)
  next
    case (Inr b)
    show ?thesis
    proof (cases "Unmarshal_InterfaceConfig E b")
      case (Inl err)
      with Inr show ?thesis by (simp add: interfaces_addrs_def)
    next
      case cfg: (Inr cfg)
      show ?thesis
      proof (cases "fault E KLinkList")
        case (Some err)
        with Inr cfg show ?thesis by (simp add: interfaces_addrs_def)
      next
        case None
        from links_addrs_same [OF applyInterfaces_links [OF Inr cfg None assms]] Inr cfg None
        show ?thesis by (simp add: interfaces_addrs_def)
      qed
    qed
  qed
  then show ?thesis
    using applyInterfaces_addrs [of E dir ?k1] applyInterfaces_addrs [of E dir k] by auto
qed

lemma router_interfaces_addrs:
  "interfaces_addrs (router_env nothing_refused) ''/perm'' [eth0, uplink0] = {(2, lan_addr)}"
proof -
  have r0: "link_result (router_env nothing_refused) lan_details eth0 = None"
    unfolding link_result_def plan_eth0 by (simp add: nothing_refused_def lan_details_def)
  have r1: "link_result (router_env nothing_refused) uplink_details uplink0 = None"
    unfolding link_result_def plan_uplink0 by (simp add: nothing_refused_def uplink_details_def)
  have a0: "link_addr (router_env nothing_refused) lan_details eth0 = {(2, lan_addr)}"
    by (simp add: link_addr_def lan_details_def eth0_def)
  have a1: "link_addr (router_env nothing_refused) uplink_details uplink0 = {}"
    by (simp add: link_addr_def uplink_details_def)
  show ?thesis
    by (simp add: interfaces_addrs_def nothing_refused_def cfg_eth0 cfg_uplink0 r0 r1 a0 a1)
qed

subsection \<open>The interfaces and the result after a run\<close>

lemma link_update_fields [simp]:
  "Index (link_update E details l x) = Index x"
  "LinkHardwareAddr (link_update E details l x) = LinkHardwareAddr x"
  "OperState (link_update E details l x) = OperState x"
  by (simp_all add: link_update_def split: option.splits)

lemma link_update_twice:
  "link_update E details (link_update E details l l) (link_update E details l l)
     = link_update E details l l"
  by (auto simp: link_update_def split: option.splits)

lemma links_after_Index [simp]: "map Index (links_after E byHw ls) = map Index ls"
  by (induction ls) (auto split: option.splits)

lemma map_update_distinct:
  assumes "distinct (map Index (pre @ l # ls))"
  shows "map (\<lambda>x. if Index x = Index l then f x else x) (pre @ l # ls) = pre @ f l # ls"
proof -
  from assms have "Index l \<notin> Index ` set pre" "Index l \<notin> Index ` set ls"
    by auto
  then have "\<forall>x \<in> set pre. Index x \<noteq> Index l" "\<forall>x \<in> set ls. Index x \<noteq> Index l"
    by (metis imageI)+
  then have "map (\<lambda>x. if Index x = Index l then f x else x) pre = pre"
    and "map (\<lambda>x. if Index x = Index l then f x else x) ls = ls"
    by (simp_all add: map_idI)
  then show ?thesis by simp
qed

lemma applyLinks_links:
  assumes "distinct (map Index (pre @ ls))" and "links k = pre @ ls"
  shows "links (snd (applyLinks E byHw ls k)) = pre @ links_after E byHw ls"
  using assms
proof (induction ls arbitrary: pre k)
  case Nil
  then show ?case by simp
next
  case (Cons l ls)
  show ?case
  proof (cases "byHw (HardwareAddr_String (LinkHardwareAddr l))")
    case None
    from Cons.prems have "distinct (map Index ((pre @ [l]) @ ls))" "links k = (pre @ [l]) @ ls"
      by simp_all
    from Cons.IH [OF this] None show ?thesis by simp
  next
    case (Some details)
    let ?k' = "snd (applyLink E details l k)"
    let ?l' = "link_update E details l l"
    have step: "links ?k' = pre @ ?l' # ls"
      unfolding applyLink_links Cons.prems(2)
      using Cons.prems(1) by (rule map_update_distinct)
    show ?thesis
    proof (cases "link_result E details l")
      case None
      have run: "applyLinks E byHw (l # ls) k = applyLinks E byHw ls ?k'"
        using Some None by (simp add: case_pair_fst_snd applyLink_fst)
      from Cons.prems(1) have "distinct (map Index ((pre @ [?l']) @ ls))" by simp
      moreover from step have "links ?k' = (pre @ [?l']) @ ls" by simp
      ultimately have "links (snd (applyLinks E byHw ls ?k')) = (pre @ [?l']) @ links_after E byHw ls"
        by (rule Cons.IH)
      then show ?thesis unfolding run using Some None by simp
    next
      case err: (Some err)
      have run: "applyLinks E byHw (l # ls) k = (Some err, ?k')"
        using Some err by (simp add: case_pair_fst_snd applyLink_fst)
      show ?thesis unfolding run using Some err step by simp
    qed
  qed
qed

lemma link_result_update:
  assumes "byHw (HardwareAddr_String (LinkHardwareAddr l)) = Some details"
  shows "link_result E details (link_update E details l l) = link_result E details l"
proof -
  have "same_link E byHw l l" by (rule same_link_refl)
  then have "same_link E byHw (link_update E details l l) l"
    using assms by (rule same_link_update)
  then show ?thesis using assms by (rule same_link_result(1))
qed

lemma links_after_twice: "links_after E byHw (links_after E byHw ls) = links_after E byHw ls"
proof (induction ls)
  case Nil
  show ?case by simp
next
  case (Cons l ls)
  show ?case
  proof (cases "byHw (HardwareAddr_String (LinkHardwareAddr l))")
    case None
    with Cons show ?thesis by simp
  next
    case (Some details)
    from link_result_update [where byHw = byHw and l = l and details = details and E = E, OF Some]
      link_update_twice [of E details l] Some Cons
    show ?thesis by simp
  qed
qed

lemma applyLinks_fst_same:
  assumes "list_all2 (same_link E byHw) xs ys"
  shows "fst (applyLinks E byHw xs k) = fst (applyLinks E byHw ys k')"
  using assms
proof (induction xs ys arbitrary: k k' rule: list_all2_induct)
  case Nil
  show ?case by simp
next
  case (Cons x xs y ys)
  from Cons.hyps(1) have hw: "LinkHardwareAddr x = LinkHardwareAddr y" by (simp add: same_link_def)
  show ?case
  proof (cases "byHw (HardwareAddr_String (LinkHardwareAddr y))")
    case None
    with hw Cons.IH show ?thesis by simp
  next
    case (Some details)
    note r = same_link_result(1) [OF Cons.hyps(1) Some]
    show ?thesis
    proof (cases "link_result E details y")
      case None
      with r hw Some Cons.IH show ?thesis
        by (simp add: case_pair_fst_snd applyLink_fst)
    next
      case err: (Some err)
      with r hw Some show ?thesis
        by (simp add: case_pair_fst_snd applyLink_fst)
    qed
  qed
qed

lemma applyInterfaces_twice:
  assumes "distinct (map Index (links k))"
  shows "fst (applyInterfaces E dir (snd (applyInterfaces E dir k))) = fst (applyInterfaces E dir k)"
    and "links (snd (applyInterfaces E dir (snd (applyInterfaces E dir k))))
           = links (snd (applyInterfaces E dir k))"
proof -
  let ?p = "filepath_Join E dir ''interfaces.json''"
  let ?k1 = "snd (applyInterfaces E dir k)"
  have "fst (applyInterfaces E dir ?k1) = fst (applyInterfaces E dir k)
      \<and> links (snd (applyInterfaces E dir ?k1)) = links ?k1"
  proof (cases "file_content E ?p")
    case (Inl err)
    then show ?thesis by (simp add: applyInterfaces_def ReadFile_def)
  next
    case (Inr b)
    show ?thesis
    proof (cases "Unmarshal_InterfaceConfig E b")
      case (Inl err)
      with Inr show ?thesis by (simp add: applyInterfaces_def ReadFile_def)
    next
      case cfg: (Inr cfg)
      show ?thesis
      proof (cases "fault E KLinkList")
        case (Some err)
        with Inr cfg show ?thesis by (simp add: applyInterfaces_def ReadFile_def LinkList_def)
      next
        case None
        let ?byHw = "byHardwareAddr cfg"
        have run: "applyInterfaces E dir k' =
            applyLinks E ?byHw (links k') (called KLinkList (called (KReadFile ?p) k'))" for k'
          using Inr cfg None by (simp add: applyInterfaces_def ReadFile_def LinkList_def)
        have l1: "links ?k1 = links_after E ?byHw (links k)"
          unfolding run [of k]
          using applyLinks_links [where pre = "[]" and ls = "links k" and E = E and byHw = ?byHw
              and k = "called KLinkList (called (KReadFile ?p) k)"] assms
          by simp
        have d1: "distinct (map Index (links ?k1))"
          unfolding l1 using assms by simp
        have l2: "links (snd (applyInterfaces E dir ?k1)) = links_after E ?byHw (links ?k1)"
          unfolding run [of ?k1]
          using applyLinks_links [where pre = "[]" and ls = "links ?k1" and E = E and byHw = ?byHw
              and k = "called KLinkList (called (KReadFile ?p) ?k1)"] d1
          by simp
        have links: "links (snd (applyInterfaces E dir ?k1)) = links ?k1"
          unfolding l2 unfolding l1 by (rule links_after_twice)
        have "fst (applyInterfaces E dir ?k1) = fst (applyInterfaces E dir k)"
          unfolding run [of ?k1] unfolding run [of k]
          using applyInterfaces_links [OF Inr cfg None assms]
          unfolding run [of k]
          by (rule applyLinks_fst_same)
        with links show ?thesis by simp
      qed
    qed
  qed
  then show "fst (applyInterfaces E dir ?k1) = fst (applyInterfaces E dir k)"
    and "links (snd (applyInterfaces E dir ?k1)) = links ?k1"
    by simp_all
qed

lemma router_interfaces_result:
  "fst (applyInterfaces (router_env nothing_refused) ''/perm'' (router_kernel [eth0, uplink0])) = None"
proof -
  have r0: "link_result (router_env nothing_refused) lan_details eth0 = None"
    unfolding link_result_def plan_eth0 by (simp add: nothing_refused_def lan_details_def)
  have r1: "link_result (router_env nothing_refused) uplink_details uplink0 = None"
    unfolding link_result_def plan_uplink0 by (simp add: nothing_refused_def uplink_details_def)
  show ?thesis
    by (simp add: applyInterfaces_def ReadFile_def LinkList_def nothing_refused_def
        cfg_eth0 cfg_uplink0 case_pair_fst_snd applyLink_fst r0 r1)
qed

section \<open>The errors of \<^verbatim>\<open>Apply\<close>\<close>

text \<open>
  Claim C2. When \<^verbatim>\<open>applyInterfaces\<close> returns an error, \<^verbatim>\<open>Apply\<close> returns that error
  and the state that \<^verbatim>\<open>applyInterfaces\<close> left: no step after it has run. In that state
  the routes, the sockets and the socket options are those before the call, no file but
  \<^verbatim>\<open>/dev/console\<close> has been written, and no operation of a later step has been asked of
  the kernel.
\<close>

theorem Apply_stops_at_interface_error:
  assumes "applyInterfaces E dir k = (Some err, k1)"
  shows "Apply E iface dir k = (Return (Some err), k1)
       \<and> routes k1 = routes k \<and> sockets k1 = sockets k \<and> sockopts k1 = sockopts k
       \<and> fst ` set (files k1) \<subseteq> insert ''/dev/console'' (fst ` set (files k))
       \<and> (\<exists>cs. calls k1 = calls k @ cs \<and> (\<forall>c \<in> set cs. \<not> later_call c))"
proof -
  have "Apply E iface dir k = (Return (Some err), k1)"
    using assms by (simp add: Apply_def)
  moreover have "snd (applyInterfaces E dir k) = k1" using assms by simp
  ultimately show ?thesis
    using applyInterfaces_frame [of E dir k] applyInterfaces_not_later [of E dir k] by simp
qed

theorem Apply_stops_at_interface_error_witness:
  "applyInterfaces (router_env nothing_refused) ''/none'' (router_kernel [eth0, uplink0]) =
     (Some (Errno ''no such file or directory''),
      called (KReadFile ''/none/interfaces.json'') (router_kernel [eth0, uplink0]))
   \<and> Apply (router_env nothing_refused) ''uplink0'' ''/none'' (router_kernel [eth0, uplink0]) =
     (Return (Some (Errno ''no such file or directory'')),
      called (KReadFile ''/none/interfaces.json'') (router_kernel [eth0, uplink0]))"
proof -
  have a: "applyInterfaces (router_env nothing_refused) ''/none'' (router_kernel [eth0, uplink0]) =
     (Some (Errno ''no such file or directory''),
      called (KReadFile ''/none/interfaces.json'') (router_kernel [eth0, uplink0]))"
    by (simp add: applyInterfaces_def ReadFile_def)
  from Apply_stops_at_interface_error [OF a] a show ?thesis by simp
qed

subsection \<open>The run of the router without interfaces\<close>

lemma run_interfaces: "applyInterfaces (router_env socket_refused) ''/perm'' k_boot = (None, k_interfaces)"
  unfolding k_interfaces_def
  by (simp add: applyInterfaces_def ReadFile_def LinkList_def k_boot_def)

lemma k_interfaces_links: "links k_interfaces = []"
  unfolding k_interfaces_def
  by (simp add: applyInterfaces_def ReadFile_def LinkList_def k_boot_def)

lemma run_dhcp4: "applyDhcp4 (router_env socket_refused) ''uplink0'' ''/perm'' k_interfaces = (Some (Errno ''Link not found''), k_dhcp4)"
  unfolding k_dhcp4_def
  by (simp add: applyDhcp4_def ReadFile_def LinkByName_def k_interfaces_links)

lemma k_dhcp4_links: "links k_dhcp4 = []"
  unfolding k_dhcp4_def
  by (simp add: applyDhcp4_def ReadFile_def LinkByName_def k_interfaces_links)

lemma run_dhcp6: "applyDhcp6 (router_env socket_refused) ''uplink0'' ''/perm''
   (log_failure Log_cannot_apply_dhcp4 (Some (Errno ''Link not found'')) k_dhcp4) = (Return (Some (Errno ''Link not found'')), k_dhcp6)"
  unfolding k_dhcp6_def
  by (simp add: applyDhcp6_def ReadFile_def LinkByName_def k_dhcp4_links log_failure_def)

lemma run_sysctl: "applySysctl (router_env socket_refused)
   (log_failure Log_cannot_apply_dhcp6 (Some (Errno ''Link not found'')) k_dhcp6) = (None, k_sysctl)"
  unfolding k_sysctl_def
  by (simp add: applySysctl_def WriteFile_def)

lemma run_firewall: "applyFirewall (router_env socket_refused) (log_failure Log_cannot_apply_sysctl None k_sysctl)
  = (Some (Errno ''operation not permitted''), k_firewall)"
  unfolding k_firewall_def
  by (simp add: applyFirewall_def Socket_def)

text \<open>
  Claim C1. In every run of \<^verbatim>\<open>Apply\<close> in which \<^verbatim>\<open>applyInterfaces\<close> returns \<^verbatim>\<open>nil\<close> and
  the four steps after it return: when \<^verbatim>\<open>applyFirewall\<close> returns an error, \<^verbatim>\<open>Apply\<close>
  returns that error, whatever \<^verbatim>\<open>applyDhcp4\<close>, \<^verbatim>\<open>applyDhcp6\<close> and \<^verbatim>\<open>applySysctl\<close>
  returned; when \<^verbatim>\<open>applyFirewall\<close> returns \<^verbatim>\<open>nil\<close>, \<^verbatim>\<open>Apply\<close> returns the first error
  among those of the three steps, in their order, and \<^verbatim>\<open>nil\<close> when all three succeeded.
  Each step runs on the state that the step before it left, after the line logged for a
  failure.
\<close>

theorem Apply_error_precedence:
  assumes "applyInterfaces E dir k = (None, k1)"
    and "applyDhcp4 E iface dir k1 = (r4, k2)"
    and "applyDhcp6 E iface dir (log_failure Log_cannot_apply_dhcp4 r4 k2) = (Return r6, k3)"
    and "applySysctl E (log_failure Log_cannot_apply_dhcp6 r6 k3) = (rs, k4)"
    and "applyFirewall E (log_failure Log_cannot_apply_sysctl rs k4) = (rf, k5)"
  shows "Apply E iface dir k =
           (Return (case rf of
                      Some err \<Rightarrow> Some err
                    | None \<Rightarrow> (case r4 of
                                 Some err \<Rightarrow> Some err
                               | None \<Rightarrow> (case r6 of Some err \<Rightarrow> Some err | None \<Rightarrow> rs))),
            k5)"
  using assms by (auto simp: Apply_def Apply_leases_def Let_def split: option.splits)

theorem Apply_error_precedence_witness:
  "applyInterfaces (router_env socket_refused) ''/perm'' k_boot = (None, k_interfaces)
   \<and> applyDhcp4 (router_env socket_refused) ''uplink0'' ''/perm'' k_interfaces = (Some (Errno ''Link not found''), k_dhcp4)
   \<and> applyDhcp6 (router_env socket_refused) ''uplink0'' ''/perm''
        (log_failure Log_cannot_apply_dhcp4 (Some (Errno ''Link not found'')) k_dhcp4)
        = (Return (Some (Errno ''Link not found'')), k_dhcp6)
   \<and> applySysctl (router_env socket_refused)
        (log_failure Log_cannot_apply_dhcp6 (Some (Errno ''Link not found'')) k_dhcp6) = (None, k_sysctl)
   \<and> applyFirewall (router_env socket_refused) (log_failure Log_cannot_apply_sysctl None k_sysctl)
        = (Some (Errno ''operation not permitted''), k_firewall)
   \<and> Apply (router_env socket_refused) ''uplink0'' ''/perm'' k_boot
        = (Return (Some (Errno ''operation not permitted'')), k_firewall)"
  using Apply_error_precedence [OF run_interfaces run_dhcp4 run_dhcp6 run_sysctl run_firewall] run_interfaces run_dhcp4 run_dhcp6 run_sysctl run_firewall by simp

section \<open>The DHCPv4 lease applier\<close>

lemma dhcp4_routes_differ: "dhcp4_default_route E got link \<noteq> dhcp4_router_route E got link"
proof
  assume "dhcp4_default_route E got link = dhcp4_router_route E got link"
  then have "RouteScope (dhcp4_default_route E got link) = RouteScope (dhcp4_router_route E got link)"
    by simp
  then show False by (simp add: dhcp4_default_route_def dhcp4_router_route_def)
qed

lemma applyDhcp4_prepared:
  assumes "file_content E (filepath_Join E dir ''dhcp4/wire/lease.json'') = Inr b"
    and "Unmarshal_dhcp4_Config E b = Inr got"
    and "fault E (KLinkByName iface) = None"
    and "find (\<lambda>l. LinkName l = iface) (links k) = Some link"
    and "subnetMaskSize (SubnetMask got) = Inr subnetSize"
    and "ParseAddr E (dhcp4_address got subnetSize) = Inr addr"
    and "fault E KNewHandle = None"
  shows "applyDhcp4 E iface dir k =
     (let k2 = called KNewHandle (called (KLinkByName iface)
                 (called (KReadFile (filepath_Join E dir ''dhcp4/wire/lease.json'')) k));
          k3 = snd (AddrAdd E link addr k2);
          k4 = snd (RouteAdd E (dhcp4_router_route E got link) k3);
          k5 = snd (RouteAdd E (dhcp4_default_route E got link) k4)
      in case fst (AddrAdd E link addr k) of
        Some err \<Rightarrow> (Some (Errorf_AddrAdd addr err), k3)
      | None \<Rightarrow>
     (case fst (RouteAdd E (dhcp4_router_route E got link) k) of
        Some err \<Rightarrow> (Some (Errorf_RouteAdd_router err), k4)
      | None \<Rightarrow>
     (case fst (RouteAdd E (dhcp4_default_route E got link) k) of
        Some err \<Rightarrow> (Some (Errorf_RouteAdd_default err), k5)
      | None \<Rightarrow> (None, k5))))"
proof -
  let ?k2 = "called KNewHandle (called (KLinkByName iface)
                 (called (KReadFile (filepath_Join E dir ''dhcp4/wire/lease.json'')) k))"
  let ?k3 = "snd (AddrAdd E link addr ?k2)"
  let ?r1 = "dhcp4_router_route E got link" and ?r2 = "dhcp4_default_route E got link"
  let ?k4 = "snd (RouteAdd E ?r1 ?k3)"
  have a: "fst (AddrAdd E link addr ?k2) = fst (AddrAdd E link addr k)"
    by (rule AddrAdd_fst_cong) simp
  have r1: "fst (RouteAdd E ?r1 ?k3) = fst (RouteAdd E ?r1 k)"
    by (rule RouteAdd_fst_cong) simp
  have r2: "fst (RouteAdd E ?r1 k) = None \<Longrightarrow> fst (RouteAdd E ?r2 ?k4) = fst (RouteAdd E ?r2 k)"
    by (rule RouteAdd_fst_after [OF dhcp4_routes_differ]) (simp add: RouteAdd_routes r1)
  have "applyDhcp4 E iface dir k =
     (case fst (AddrAdd E link addr ?k2) of
        Some err \<Rightarrow> (Some (Errorf_AddrAdd addr err), ?k3)
      | None \<Rightarrow>
     (case fst (RouteAdd E ?r1 ?k3) of
        Some err \<Rightarrow> (Some (Errorf_RouteAdd_router err), ?k4)
      | None \<Rightarrow>
     (case fst (RouteAdd E ?r2 ?k4) of
        Some err \<Rightarrow> (Some (Errorf_RouteAdd_default err), snd (RouteAdd E ?r2 ?k4))
      | None \<Rightarrow> (None, snd (RouteAdd E ?r2 ?k4)))))"
    using assms
    by (simp add: applyDhcp4_def ReadFile_def LinkByName_def NewHandle_def case_pair_fst_snd
        split: option.splits)
  then show ?thesis
    unfolding a r1 using r2 by (simp add: Let_def split: option.splits)
qed

text \<open>
  Claim C9. Once the lease is read, the interface found, the mask decoded and the
  address parsed, \<^verbatim>\<open>applyDhcp4\<close> returns the error of the first of its three kernel
  operations that fails, and what the operations before it installed stays: when the
  address add fails, addresses and routes are those before the call; when the add of
  the route to the router fails, the address is installed; when the add of the default
  route fails, the address and the route to the router are installed.
\<close>

theorem applyDhcp4_no_rollback:
  assumes "file_content E (filepath_Join E dir ''dhcp4/wire/lease.json'') = Inr b"
    and "Unmarshal_dhcp4_Config E b = Inr got"
    and "fault E (KLinkByName iface) = None"
    and "find (\<lambda>l. LinkName l = iface) (links k) = Some link"
    and "subnetMaskSize (SubnetMask got) = Inr subnetSize"
    and "ParseAddr E (dhcp4_address got subnetSize) = Inr addr"
    and "fault E KNewHandle = None"
  shows "(fst (AddrAdd E link addr k) = Some err \<longrightarrow>
            fst (applyDhcp4 E iface dir k) = Some (Errorf_AddrAdd addr err)
            \<and> addrs (snd (applyDhcp4 E iface dir k)) = addrs k
            \<and> routes (snd (applyDhcp4 E iface dir k)) = routes k)
       \<and> (fst (AddrAdd E link addr k) = None
            \<and> fst (RouteAdd E (dhcp4_router_route E got link) k) = Some err \<longrightarrow>
            fst (applyDhcp4 E iface dir k) = Some (Errorf_RouteAdd_router err)
            \<and> addrs (snd (applyDhcp4 E iface dir k)) = insert (Index link, addr) (addrs k)
            \<and> routes (snd (applyDhcp4 E iface dir k)) = routes k)
       \<and> (fst (AddrAdd E link addr k) = None
            \<and> fst (RouteAdd E (dhcp4_router_route E got link) k) = None
            \<and> fst (RouteAdd E (dhcp4_default_route E got link) k) = Some err \<longrightarrow>
            fst (applyDhcp4 E iface dir k) = Some (Errorf_RouteAdd_default err)
            \<and> addrs (snd (applyDhcp4 E iface dir k)) = insert (Index link, addr) (addrs k)
            \<and> routes (snd (applyDhcp4 E iface dir k))
                = insert (dhcp4_router_route E got link) (routes k))"
proof -
  let ?k2 = "called KNewHandle (called (KLinkByName iface)
                 (called (KReadFile (filepath_Join E dir ''dhcp4/wire/lease.json'')) k))"
  have a: "fst (AddrAdd E link addr ?k2) = fst (AddrAdd E link addr k)"
    by (rule AddrAdd_fst_cong) simp
  have r1: "fst (RouteAdd E (dhcp4_router_route E got link) (snd (AddrAdd E link addr ?k2)))
              = fst (RouteAdd E (dhcp4_router_route E got link) k)"
    by (rule RouteAdd_fst_cong) simp
  have r2: "fst (RouteAdd E (dhcp4_router_route E got link) k) = None \<Longrightarrow>
      fst (RouteAdd E (dhcp4_default_route E got link)
             (snd (RouteAdd E (dhcp4_router_route E got link) (snd (AddrAdd E link addr ?k2)))))
        = fst (RouteAdd E (dhcp4_default_route E got link) k)"
    by (rule RouteAdd_fst_after [OF dhcp4_routes_differ]) (simp add: RouteAdd_routes r1)
  show ?thesis
    unfolding applyDhcp4_prepared [OF assms]
    by (simp add: Let_def AddrAdd_addrs RouteAdd_routes a r1 r2)
qed

theorem applyDhcp4_no_rollback_witness:
  "file_content (router_env default_route_refused)
      (filepath_Join (router_env default_route_refused) ''/perm'' ''dhcp4/wire/lease.json'') = Inr ''lease4''
   \<and> Unmarshal_dhcp4_Config (router_env default_route_refused) ''lease4'' = Inr lease4
   \<and> fault (router_env default_route_refused) (KLinkByName ''uplink0'') = None
   \<and> find (\<lambda>l. LinkName l = ''uplink0'') (links (router_kernel [eth0, uplink0])) = Some uplink0
   \<and> subnetMaskSize (SubnetMask lease4) = Inr 25
   \<and> ParseAddr (router_env default_route_refused) (dhcp4_address lease4 25) = Inr wan_addr
   \<and> fault (router_env default_route_refused) KNewHandle = None
   \<and> fst (AddrAdd (router_env default_route_refused) uplink0 wan_addr (router_kernel [eth0, uplink0])) = None
   \<and> fst (RouteAdd (router_env default_route_refused)
            (dhcp4_router_route (router_env default_route_refused) lease4 uplink0)
            (router_kernel [eth0, uplink0])) = None
   \<and> fst (RouteAdd (router_env default_route_refused)
            (dhcp4_default_route (router_env default_route_refused) lease4 uplink0)
            (router_kernel [eth0, uplink0])) = Some (Errno ''network is unreachable'')
   \<and> fst (applyDhcp4 (router_env default_route_refused) ''uplink0'' ''/perm'' (router_kernel [eth0, uplink0]))
        = Some (Errorf_RouteAdd_default (Errno ''network is unreachable''))
   \<and> addrs (snd (applyDhcp4 (router_env default_route_refused) ''uplink0'' ''/perm'' (router_kernel [eth0, uplink0])))
        = {(3, wan_addr)}
   \<and> routes (snd (applyDhcp4 (router_env default_route_refused) ''uplink0'' ''/perm'' (router_kernel [eth0, uplink0])))
        = {dhcp4_router_route (router_env default_route_refused) lease4 uplink0}"
proof -
  let ?E = "router_env default_route_refused" and ?k = "router_kernel [eth0, uplink0]"
  have a: "file_content ?E (filepath_Join ?E ''/perm'' ''dhcp4/wire/lease.json'') = Inr ''lease4''" by simp
  have b: "Unmarshal_dhcp4_Config ?E ''lease4'' = Inr lease4" by simp
  have c: "fault ?E (KLinkByName ''uplink0'') = None" by simp
  have d: "find (\<lambda>l. LinkName l = ''uplink0'') (links ?k) = Some uplink0"
    by (simp add: eth0_def uplink0_def)
  have e: "subnetMaskSize (SubnetMask lease4) = Inr 25"
    by (simp add: lease4_def mask_25)
  have f: "ParseAddr ?E (dhcp4_address lease4 25) = Inr wan_addr"
    by (simp add: dhcp4_address_def lease4_def Itoa_25)
  have g: "fault ?E KNewHandle = None" by simp
  have h: "fst (AddrAdd ?E uplink0 wan_addr ?k) = None"
    by (simp add: AddrAdd_result)
  have i: "fst (RouteAdd ?E (dhcp4_router_route ?E lease4 uplink0) ?k) = None"
    by (simp add: RouteAdd_result dhcp4_router_route_def)
  have j: "fst (RouteAdd ?E (dhcp4_default_route ?E lease4 uplink0) ?k) = Some (Errno ''network is unreachable'')"
    by (simp add: RouteAdd_result dhcp4_default_route_def)
  have x: "Index uplink0 = 3" by (simp add: uplink0_def)
  from applyDhcp4_no_rollback [OF a b c d e f g, where err = "Errno ''network is unreachable''",
      THEN conjunct2, THEN conjunct2] h i j
  have "fst (applyDhcp4 ?E ''uplink0'' ''/perm'' ?k) = Some (Errorf_RouteAdd_default (Errno ''network is unreachable''))
      \<and> addrs (snd (applyDhcp4 ?E ''uplink0'' ''/perm'' ?k)) = insert (Index uplink0, wan_addr) (addrs ?k)
      \<and> routes (snd (applyDhcp4 ?E ''uplink0'' ''/perm'' ?k)) = insert (dhcp4_router_route ?E lease4 uplink0) (routes ?k)"
    by blast
  then have "fst (applyDhcp4 ?E ''uplink0'' ''/perm'' ?k) = Some (Errorf_RouteAdd_default (Errno ''network is unreachable''))
      \<and> addrs (snd (applyDhcp4 ?E ''uplink0'' ''/perm'' ?k)) = {(3, wan_addr)}
      \<and> routes (snd (applyDhcp4 ?E ''uplink0'' ''/perm'' ?k)) = {dhcp4_router_route ?E lease4 uplink0}"
    unfolding x by simp
  with a b c d e f g h i j show ?thesis by blast
qed

section \<open>The DHCPv6 lease applier\<close>

subsection \<open>The size of a mask made by \<^verbatim>\<open>net.CIDRMask\<close>\<close>

lemma CIDRMask_loop_zero: "x \<in> set (CIDRMask_loop l 0) \<Longrightarrow> x = 0"
  by (induction l) auto

lemma count_ones_CIDR_byte:
  "n < 8 \<Longrightarrow> NOT (drop_bit n (0xff :: byte)) \<noteq> 0xff
     \<and> count_ones (NOT (drop_bit n (0xff :: byte))) 0 = (0, int n)"
proof -
  have "\<forall>n \<in> set [0..<8]. NOT (drop_bit n (0xff :: byte)) \<noteq> 0xff
     \<and> count_ones (NOT (drop_bit n (0xff :: byte))) 0 = (0, int n)"
    by code_simp
  then show "n < 8 \<Longrightarrow> NOT (drop_bit n (0xff :: byte)) \<noteq> 0xff
     \<and> count_ones (NOT (drop_bit n (0xff :: byte))) 0 = (0, int n)"
    by simp
qed

lemma simpleMaskLength_CIDRMask_loop:
  "n \<le> 8 * l \<Longrightarrow> simpleMaskLength_from (CIDRMask_loop l n) acc = acc + int n"
proof (induction l arbitrary: n acc)
  case 0
  then show ?case by simp
next
  case (Suc l)
  show ?case
  proof (cases "n \<ge> 8")
    case True
    with Suc.prems have "n - 8 \<le> 8 * l" by simp
    from Suc.IH [OF this, of "acc + 8"] True show ?thesis by simp
  next
    case False
    then have n: "n < 8" by simp
    from count_ones_CIDR_byte [OF n]
    have ne: "NOT (drop_bit n (0xff :: byte)) \<noteq> 0xff"
      and c0: "count_ones (NOT (drop_bit n (0xff :: byte))) 0 = (0, int n)" by simp_all
    have c: "count_ones (NOT (drop_bit n (0xff :: byte))) acc = (0, acc + int n)"
      using count_ones_acc [of "NOT (drop_bit n (0xff :: byte))" acc] c0 by simp
    have z: "\<not> (\<exists>x \<in> set (CIDRMask_loop l 0). x \<noteq> 0)"
      using CIDRMask_loop_zero by blast
    show ?thesis
      using n ne c z by simp
  qed
qed

lemma length_CIDRMask_loop: "length (CIDRMask_loop l n) = l"
  by (induction l arbitrary: n) auto

lemma Size_CIDRMask:
  assumes "0 \<le> n" "n \<le> 128"
  shows "Size (CIDRMask n 128) = (n, 128)"
proof -
  have m: "CIDRMask n 128 = CIDRMask_loop 16 (nat n)"
    using assms by (simp add: CIDRMask_def)
  have "nat n \<le> 8 * 16" using assms by simp
  from simpleMaskLength_CIDRMask_loop [OF this, of 0]
  have "simpleMaskLength (CIDRMask n 128) = n"
    using assms by (simp add: simpleMaskLength_def m)
  then show ?thesis
    using assms by (simp add: Size_def Let_def m length_CIDRMask_loop)
qed

subsection \<open>The address of a prefix\<close>

lemma first_address_v6:
  assumes "length (IP prefix) = 16" and "Mask prefix = CIDRMask n 128" and "0 \<le> n" and "n \<le> 128"
  shows "first_address prefix =
           \<lparr>IP = (IP prefix)[15 := 1], Mask = CIDRMask (if n < 64 then 64 else n) 128\<rparr>"
  using assms by (simp add: first_address_def Size_CIDRMask)

lemma applyPrefixes_calls:
  "fst (applyPrefixes E link ps k) = Return None \<Longrightarrow>
     calls (snd (applyPrefixes E link ps k)) =
       calls k @ map (\<lambda>p. KAddrAdd (Index link) (projr (ParseAddr E (IPNet_String E (first_address p))))) ps"
proof (induction ps arbitrary: k)
  case Nil
  show ?case by simp
next
  case (Cons p ps)
  from Cons.prems have ne: "length (IP p) \<noteq> 0" by (auto split: if_splits)
  from Cons.prems ne obtain a where a: "ParseAddr E (IPNet_String E (first_address p)) = Inr a"
    by (cases "ParseAddr E (IPNet_String E (first_address p))") auto
  from Cons.prems ne a have ok: "fst (AddrAdd E link a k) = None"
    by (auto simp: case_pair_fst_snd split: option.splits)
  with Cons.prems ne a have rest: "fst (applyPrefixes E link ps (snd (AddrAdd E link a k))) = Return None"
    by (simp add: case_pair_fst_snd)
  from Cons.IH [OF rest] ne a ok show ?case
    by (simp add: case_pair_fst_snd)
qed

lemma applyPrefixes_links [simp]: "links (snd (applyPrefixes E link ps k)) = links k"
  by (induction ps arbitrary: k) (auto simp: case_pair_fst_snd split: sum.splits option.splits)

lemma applyPrefixes_addrs_mono: "addrs k \<subseteq> addrs (snd (applyPrefixes E link ps k))"
proof (induction ps arbitrary: k)
  case Nil
  show ?case by simp
next
  case (Cons p ps)
  show ?case
  proof (cases "length (IP p) = 0")
    case True
    then show ?thesis by simp
  next
    case False
    show ?thesis
    proof (cases "ParseAddr E (IPNet_String E (first_address p))")
      case (Inl err)
      with False show ?thesis by simp
    next
      case (Inr a)
      have "addrs k \<subseteq> addrs (snd (AddrAdd E link a k))"
        by (auto simp: AddrAdd_addrs)
      with Cons.IH [of "snd (AddrAdd E link a k)"] False Inr show ?thesis
        by (auto simp: case_pair_fst_snd split: option.splits)
    qed
  qed
qed

lemma applyDhcp6_prepared:
  assumes "file_content E (filepath_Join E dir ''dhcp6/wire/lease.json'') = Inr b"
    and "Unmarshal_dhcp6_Config E b = Inr got"
  shows "applyDhcp6 E iface dir k =
     (let k0 = called (KLinkByName iface)
                 (called (KReadFile (filepath_Join E dir ''dhcp6/wire/lease.json'')) k)
      in case fault E (KLinkByName iface) of
           Some err \<Rightarrow> (Return (Some err), k0)
         | None \<Rightarrow>
             (case find (\<lambda>l. LinkName l = iface) (links k) of
                None \<Rightarrow> (Return (Some (Errno ''Link not found'')), k0)
              | Some link \<Rightarrow> applyPrefixes E link (Prefixes got) k0))"
  using assms
  by (simp add: applyDhcp6_def ReadFile_def LinkByName_def Let_def split: option.splits)

lemma applyDhcp6_links [simp]: "links (snd (applyDhcp6 E iface dir k)) = links k"
  by (simp add: applyDhcp6_def ReadFile_def LinkByName_def split: sum.splits option.splits)

lemma applyDhcp6_calls:
  assumes "file_content E (filepath_Join E dir ''dhcp6/wire/lease.json'') = Inr b"
    and "Unmarshal_dhcp6_Config E b = Inr got"
    and "find (\<lambda>l. LinkName l = iface) (links k) = Some link"
    and "fst (applyDhcp6 E iface dir k) = Return None"
  shows "calls (snd (applyDhcp6 E iface dir k)) =
           calls k @ [KReadFile (filepath_Join E dir ''dhcp6/wire/lease.json''), KLinkByName iface]
             @ map (\<lambda>p. KAddrAdd (Index link) (projr (ParseAddr E (IPNet_String E (first_address p)))))
                 (Prefixes got)"
proof -
  let ?k0 = "called (KLinkByName iface)
                 (called (KReadFile (filepath_Join E dir ''dhcp6/wire/lease.json'')) k)"
  note run = applyDhcp6_prepared [OF assms(1,2), of iface k]
  have f: "fault E (KLinkByName iface) = None"
  proof (cases "fault E (KLinkByName iface)")
    case (Some err)
    with assms(4) show ?thesis unfolding run by (simp add: Let_def)
  qed simp
  have r: "applyDhcp6 E iface dir k = applyPrefixes E link (Prefixes got) ?k0"
    unfolding run using f assms(3) by (simp add: Let_def)
  from assms(4) have "fst (applyPrefixes E link (Prefixes got) ?k0) = Return None"
    unfolding r .
  from applyPrefixes_calls [OF this] show ?thesis unfolding r by simp
qed

lemma first_address_prefix48: "first_address prefix48 = AddrIPNet lan6_addr"
  using first_address_v6 [where prefix = prefix48 and n = 48]
  by (simp add: prefix48_def lan6_addr_def CIDRMask_48 CIDRMask_64)

lemma router_first_prefix:
  "ParseAddr (router_env r) (IPNet_String (router_env r) (first_address prefix48)) = Inr lan6_addr"
  unfolding first_address_prefix48 by (simp add: router_env_def)

lemma router_dhcp6_first_run:
  "fst (applyDhcp6 (router_env nothing_refused) ''uplink0'' ''/perm'' (router_kernel [eth0, uplink0])) = Return None"
proof -
  let ?E = "router_env nothing_refused" and ?k = "router_kernel [eth0, uplink0]"
  have a: "file_content ?E (filepath_Join ?E ''/perm'' ''dhcp6/wire/lease.json'') = Inr ''lease6''" by simp
  have b: "Unmarshal_dhcp6_Config ?E ''lease6'' = Inr lease6" by simp
  have d: "find (\<lambda>l. LinkName l = ''uplink0'') (links ?k) = Some uplink0"
    by (simp add: eth0_def uplink0_def)
  have n: "length (IP prefix48) \<noteq> 0" by (simp add: prefix48_def)
  show ?thesis
    unfolding applyDhcp6_prepared [OF a b]
    using d n
    by (simp add: Let_def nothing_refused_def lease6_def router_first_prefix case_pair_fst_snd AddrAdd_result)
qed

text \<open>
  Claim C5. For a delegated prefix of 16 address bytes with a mask of \<open>n\<close> ones out of
  128 bits, the address that \<^verbatim>\<open>applyDhcp6\<close> derives has the last byte set to 1 and the
  other bytes of the prefix, and the prefix length 64 when \<open>n < 64\<close> and \<open>n\<close> otherwise.
  In a run that succeeds, the addresses added to the interface are those derived from
  the prefixes of the lease, one for each prefix, in the order of the lease. In
  particular \<^verbatim>\<open>2001:db8::/48\<close> yields \<^verbatim>\<open>2001:db8::1/64\<close> and \<^verbatim>\<open>2001:db8:1::/64\<close> yields
  \<^verbatim>\<open>2001:db8:1::1/64\<close>.
\<close>

theorem dhcp6_first_address:
  "(length (IP prefix) = 16 \<and> Mask prefix = CIDRMask n 128 \<and> 0 \<le> n \<and> n \<le> 128 \<longrightarrow>
      first_address prefix =
        \<lparr>IP = (IP prefix)[15 := 1], Mask = CIDRMask (if n < 64 then 64 else n) 128\<rparr>)
   \<and> (file_content E (filepath_Join E dir ''dhcp6/wire/lease.json'') = Inr b
        \<and> Unmarshal_dhcp6_Config E b = Inr got
        \<and> find (\<lambda>l. LinkName l = iface) (links k) = Some link
        \<and> fst (applyDhcp6 E iface dir k) = Return None \<longrightarrow>
      calls (snd (applyDhcp6 E iface dir k)) =
        calls k @ [KReadFile (filepath_Join E dir ''dhcp6/wire/lease.json''), KLinkByName iface]
          @ map (\<lambda>p. KAddrAdd (Index link) (projr (ParseAddr E (IPNet_String E (first_address p)))))
              (Prefixes got))
   \<and> first_address
        \<lparr>IP = [0x20, 0x01, 0x0d, 0xb8, 0, 0, 0, 0, 0, 0, 0, 0, 0, 0, 0, 0], Mask = CIDRMask 48 128\<rparr>
        = \<lparr>IP = [0x20, 0x01, 0x0d, 0xb8, 0, 0, 0, 0, 0, 0, 0, 0, 0, 0, 0, 1], Mask = CIDRMask 64 128\<rparr>
   \<and> first_address
        \<lparr>IP = [0x20, 0x01, 0x0d, 0xb8, 0, 0x01, 0, 0, 0, 0, 0, 0, 0, 0, 0, 0], Mask = CIDRMask 64 128\<rparr>
        = \<lparr>IP = [0x20, 0x01, 0x0d, 0xb8, 0, 0x01, 0, 0, 0, 0, 0, 0, 0, 0, 0, 1], Mask = CIDRMask 64 128\<rparr>"
proof -
  have 1: "length (IP prefix) = 16 \<and> Mask prefix = CIDRMask n 128 \<and> 0 \<le> n \<and> n \<le> 128 \<longrightarrow>
      first_address prefix =
        \<lparr>IP = (IP prefix)[15 := 1], Mask = CIDRMask (if n < 64 then 64 else n) 128\<rparr>"
    using first_address_v6 by blast
  have 2: "file_content E (filepath_Join E dir ''dhcp6/wire/lease.json'') = Inr b
        \<and> Unmarshal_dhcp6_Config E b = Inr got
        \<and> find (\<lambda>l. LinkName l = iface) (links k) = Some link
        \<and> fst (applyDhcp6 E iface dir k) = Return None \<longrightarrow>
      calls (snd (applyDhcp6 E iface dir k)) =
        calls k @ [KReadFile (filepath_Join E dir ''dhcp6/wire/lease.json''), KLinkByName iface]
          @ map (\<lambda>p. KAddrAdd (Index link) (projr (ParseAddr E (IPNet_String E (first_address p)))))
              (Prefixes got)"
    using applyDhcp6_calls by blast
  have 3: "first_address
        \<lparr>IP = [0x20, 0x01, 0x0d, 0xb8, 0, 0, 0, 0, 0, 0, 0, 0, 0, 0, 0, 0], Mask = CIDRMask 48 128\<rparr>
        = \<lparr>IP = [0x20, 0x01, 0x0d, 0xb8, 0, 0, 0, 0, 0, 0, 0, 0, 0, 0, 0, 1], Mask = CIDRMask 64 128\<rparr>"
    using first_address_v6 [where prefix = "\<lparr>IP = [0x20, 0x01, 0x0d, 0xb8, 0, 0, 0, 0, 0, 0, 0, 0, 0, 0, 0, 0], Mask = CIDRMask 48 128\<rparr>" and n = 48]
    by simp
  have 4: "first_address
        \<lparr>IP = [0x20, 0x01, 0x0d, 0xb8, 0, 0x01, 0, 0, 0, 0, 0, 0, 0, 0, 0, 0], Mask = CIDRMask 64 128\<rparr>
        = \<lparr>IP = [0x20, 0x01, 0x0d, 0xb8, 0, 0x01, 0, 0, 0, 0, 0, 0, 0, 0, 0, 1], Mask = CIDRMask 64 128\<rparr>"
    using first_address_v6 [where prefix = "\<lparr>IP = [0x20, 0x01, 0x0d, 0xb8, 0, 0x01, 0, 0, 0, 0, 0, 0, 0, 0, 0, 0], Mask = CIDRMask 64 128\<rparr>" and n = 64]
    by simp
  from 1 2 3 4 show ?thesis by blast
qed

theorem dhcp6_first_address_witness:
  "length (IP prefix48) = 16 \<and> Mask prefix48 = CIDRMask 48 128 \<and> (0 :: int) \<le> 48 \<and> (48 :: int) \<le> 128
   \<and> first_address prefix48 = \<lparr>IP = (IP prefix48)[15 := 1], Mask = CIDRMask 64 128\<rparr>
   \<and> file_content (router_env nothing_refused)
        (filepath_Join (router_env nothing_refused) ''/perm'' ''dhcp6/wire/lease.json'') = Inr ''lease6''
   \<and> Unmarshal_dhcp6_Config (router_env nothing_refused) ''lease6'' = Inr lease6
   \<and> find (\<lambda>l. LinkName l = ''uplink0'') (links (router_kernel [eth0, uplink0])) = Some uplink0
   \<and> fst (applyDhcp6 (router_env nothing_refused) ''uplink0'' ''/perm'' (router_kernel [eth0, uplink0])) = Return None
   \<and> calls (snd (applyDhcp6 (router_env nothing_refused) ''uplink0'' ''/perm'' (router_kernel [eth0, uplink0])))
       = [KReadFile ''/perm/dhcp6/wire/lease.json'', KLinkByName ''uplink0'', KAddrAdd 3 lan6_addr]"
proof -
  let ?E = "router_env nothing_refused" and ?k = "router_kernel [eth0, uplink0]"
  have l: "length (IP prefix48) = 16" by (simp add: prefix48_def)
  have m: "Mask prefix48 = CIDRMask 48 128" by (simp add: prefix48_def CIDRMask_48)
  have a: "file_content ?E (filepath_Join ?E ''/perm'' ''dhcp6/wire/lease.json'') = Inr ''lease6''" by simp
  have b: "Unmarshal_dhcp6_Config ?E ''lease6'' = Inr lease6" by simp
  have d: "find (\<lambda>l. LinkName l = ''uplink0'') (links ?k) = Some uplink0"
    by (simp add: eth0_def uplink0_def)
  note th = dhcp6_first_address [where prefix = prefix48 and n = 48 and E = ?E and dir = "''/perm''"
      and b = "''lease6''" and got = lease6 and iface = "''uplink0''" and k = ?k and link = uplink0]
  from th [THEN conjunct1] l m
  have 1: "first_address prefix48 = \<lparr>IP = (IP prefix48)[15 := 1], Mask = CIDRMask 64 128\<rparr>"
    by simp
  from th [THEN conjunct2, THEN conjunct1] a b d router_dhcp6_first_run
  have "calls (snd (applyDhcp6 ?E ''uplink0'' ''/perm'' ?k)) =
        calls ?k @ [KReadFile (filepath_Join ?E ''/perm'' ''dhcp6/wire/lease.json''), KLinkByName ''uplink0'']
          @ map (\<lambda>p. KAddrAdd (Index uplink0) (projr (ParseAddr ?E (IPNet_String ?E (first_address p)))))
              (Prefixes lease6)"
    by blast
  then have 2: "calls (snd (applyDhcp6 ?E ''uplink0'' ''/perm'' ?k))
       = [KReadFile ''/perm/dhcp6/wire/lease.json'', KLinkByName ''uplink0'', KAddrAdd 3 lan6_addr]"
    by (simp add: lease6_def router_first_prefix uplink0_def)
  from l m 1 a b d router_dhcp6_first_run 2 show ?thesis by simp
qed

subsection \<open>Running an applier twice\<close>

text \<open>
  After a run over a list of prefixes that starts with \<open>p\<close> and does not panic, the
  address of \<open>p\<close> is installed or could not be, and a second run is refused at \<open>p\<close>.
\<close>

lemma applyPrefixes_again:
  assumes "fst (applyPrefixes E link (p # ps) k) = Return r"
    and "addrs (snd (applyPrefixes E link (p # ps) k)) \<subseteq> addrs k'"
  shows "\<exists>err. fst (applyPrefixes E link (p # ps) k') = Return (Some err)"
proof -
  from assms(1) have ne: "length (IP p) \<noteq> 0" by (auto split: if_splits)
  show ?thesis
  proof (cases "ParseAddr E (IPNet_String E (first_address p))")
    case (Inl err)
    with ne show ?thesis by simp
  next
    case (Inr a)
    show ?thesis
    proof (cases "fault E (KAddrAdd (Index link) a)")
      case (Some err)
      with ne Inr show ?thesis by (simp add: case_pair_fst_snd AddrAdd_result)
    next
      case None
      have "(Index link, a) \<in> addrs (snd (AddrAdd E link a k))"
        using None by (auto simp: AddrAdd_addrs AddrAdd_result)
      moreover have "addrs (snd (AddrAdd E link a k)) \<subseteq> addrs (snd (applyPrefixes E link (p # ps) k))"
        using ne Inr applyPrefixes_addrs_mono [of "snd (AddrAdd E link a k)" E link ps]
        by (auto simp: case_pair_fst_snd split: option.splits)
      ultimately have "(Index link, a) \<in> addrs k'" using assms(2) by blast
      with ne Inr None show ?thesis by (simp add: case_pair_fst_snd AddrAdd_result)
    qed
  qed
qed

lemma applyPrefixes_again_success:
  assumes "fst (applyPrefixes E link (p # ps) k) = Return None"
    and "addrs (snd (applyPrefixes E link (p # ps) k)) \<subseteq> addrs k'"
  shows "\<exists>a. ParseAddr E (IPNet_String E (first_address p)) = Inr a
           \<and> fst (applyPrefixes E link (p # ps) k') = Return (Some (Errorf_AddrAdd a (Errno ''file exists'')))"
proof -
  from assms(1) have ne: "length (IP p) \<noteq> 0" by (auto split: if_splits)
  from assms(1) ne obtain a where a: "ParseAddr E (IPNet_String E (first_address p)) = Inr a"
    by (cases "ParseAddr E (IPNet_String E (first_address p))") auto
  from assms(1) ne a have ok: "fst (AddrAdd E link a k) = None"
    by (auto simp: case_pair_fst_snd split: option.splits)
  then have f: "fault E (KAddrAdd (Index link) a) = None"
    by (auto simp: AddrAdd_result split: option.splits)
  have "(Index link, a) \<in> addrs (snd (AddrAdd E link a k))"
    using ok by (simp add: AddrAdd_addrs)
  moreover have "addrs (snd (AddrAdd E link a k)) \<subseteq> addrs (snd (applyPrefixes E link (p # ps) k))"
    using ne a ok applyPrefixes_addrs_mono [of "snd (AddrAdd E link a k)" E link ps]
    by (auto simp: case_pair_fst_snd split: option.splits)
  ultimately have "(Index link, a) \<in> addrs k'" using assms(2) by blast
  with ne a f show ?thesis by (simp add: case_pair_fst_snd AddrAdd_result)
qed

lemma applyDhcp6_again:
  assumes "file_content E (filepath_Join E dir ''dhcp6/wire/lease.json'') = Inr b"
    and "Unmarshal_dhcp6_Config E b = Inr got"
    and "Prefixes got = p # ps"
  shows "(fst (applyDhcp6 E iface dir k) = Return r \<longrightarrow>
           (\<exists>err. fst (applyDhcp6 E iface dir (snd (applyDhcp6 E iface dir k))) = Return (Some err)))
       \<and> (fst (applyDhcp6 E iface dir k) = Return None \<longrightarrow>
           (\<exists>a. ParseAddr E (IPNet_String E (first_address p)) = Inr a
              \<and> fst (applyDhcp6 E iface dir (snd (applyDhcp6 E iface dir k)))
                  = Return (Some (Errorf_AddrAdd a (Errno ''file exists'')))))"
proof -
  let ?k1 = "snd (applyDhcp6 E iface dir k)"
  note run1 = applyDhcp6_prepared [OF assms(1,2), of iface k]
  note run2 = applyDhcp6_prepared [OF assms(1,2), of iface ?k1]
  show ?thesis
  proof (cases "fault E (KLinkByName iface)")
    case (Some err)
    have "fst (applyDhcp6 E iface dir k) = Return (Some err)"
      unfolding run1 using Some by (simp add: Let_def)
    moreover have "fst (applyDhcp6 E iface dir ?k1) = Return (Some err)"
      unfolding run2 using Some by (simp add: Let_def)
    ultimately show ?thesis by auto
  next
    case None
    show ?thesis
    proof (cases "find (\<lambda>l. LinkName l = iface) (links k)")
      case nf: None
      have "fst (applyDhcp6 E iface dir k) = Return (Some (Errno ''Link not found''))"
        unfolding run1 using None nf by (simp add: Let_def)
      moreover have "fst (applyDhcp6 E iface dir ?k1) = Return (Some (Errno ''Link not found''))"
        unfolding run2 using None nf by (simp add: Let_def)
      ultimately show ?thesis by auto
    next
      case (Some link)
      let ?k0 = "called (KLinkByName iface) (called (KReadFile (filepath_Join E dir ''dhcp6/wire/lease.json'')) k)"
      let ?k1' = "called (KLinkByName iface) (called (KReadFile (filepath_Join E dir ''dhcp6/wire/lease.json'')) ?k1)"
      have r1: "applyDhcp6 E iface dir k = applyPrefixes E link (p # ps) ?k0"
        unfolding run1 using None Some assms(3) by (simp add: Let_def)
      have r2: "applyDhcp6 E iface dir ?k1 = applyPrefixes E link (p # ps) ?k1'"
        unfolding run2 using None Some assms(3) by (simp add: Let_def)
      have sub: "addrs (snd (applyPrefixes E link (p # ps) ?k0)) \<subseteq> addrs ?k1'"
        unfolding r1 [symmetric] by simp
      from applyPrefixes_again [OF _ sub] applyPrefixes_again_success [OF _ sub]
      show ?thesis unfolding r2 unfolding r1 by blast
    qed
  qed
qed

text \<open>
  Claim C6. A second run of \<^verbatim>\<open>applyInterfaces\<close> on the same input, on the state that the
  first run left, is a no-op: it returns what the first run returned, \<^verbatim>\<open>nil\<close> after a
  success, and it leaves the addresses, the interfaces, the routes, the sockets and the
  socket options as the first run left them, because \<^verbatim>\<open>netlink.AddrReplace\<close> of an
  address that is installed succeeds and changes nothing. A second run of \<^verbatim>\<open>applyDhcp6\<close>
  on a lease with a delegated prefix, on the state that the first run left, returns an
  error whenever the first run returned; when the first run succeeded, the error is that
  of \<^verbatim>\<open>netlink.AddrAdd\<close> for the address of the first prefix, which exists.
\<close>

theorem replace_idempotent_add_not:
  "(distinct (map Index (links k)) \<longrightarrow>
      fst (applyInterfaces E dir (snd (applyInterfaces E dir k))) = fst (applyInterfaces E dir k)
      \<and> addrs (snd (applyInterfaces E dir (snd (applyInterfaces E dir k))))
           = addrs (snd (applyInterfaces E dir k))
      \<and> links (snd (applyInterfaces E dir (snd (applyInterfaces E dir k))))
           = links (snd (applyInterfaces E dir k))
      \<and> routes (snd (applyInterfaces E dir (snd (applyInterfaces E dir k))))
           = routes (snd (applyInterfaces E dir k))
      \<and> sockets (snd (applyInterfaces E dir (snd (applyInterfaces E dir k))))
           = sockets (snd (applyInterfaces E dir k))
      \<and> sockopts (snd (applyInterfaces E dir (snd (applyInterfaces E dir k))))
           = sockopts (snd (applyInterfaces E dir k)))
   \<and> (file_content E (filepath_Join E dir ''dhcp6/wire/lease.json'') = Inr b
        \<and> Unmarshal_dhcp6_Config E b = Inr got
        \<and> Prefixes got = p # ps \<longrightarrow>
        (fst (applyDhcp6 E iface dir k') = Return r \<longrightarrow>
           (\<exists>err. fst (applyDhcp6 E iface dir (snd (applyDhcp6 E iface dir k'))) = Return (Some err)))
        \<and> (fst (applyDhcp6 E iface dir k') = Return None \<longrightarrow>
             (\<exists>a. ParseAddr E (IPNet_String E (first_address p)) = Inr a
                \<and> fst (applyDhcp6 E iface dir (snd (applyDhcp6 E iface dir k')))
                    = Return (Some (Errorf_AddrAdd a (Errno ''file exists''))))))"
  using applyInterfaces_addrs_idempotent [of k E dir] applyInterfaces_twice [of k E dir]
    applyInterfaces_frame [of E dir "snd (applyInterfaces E dir k)"]
    applyDhcp6_again [of E dir b got p ps iface k' r]
  by blast

theorem replace_idempotent_add_not_witness:
  "distinct (map Index (links (router_kernel [eth0, uplink0])))
   \<and> fst (applyInterfaces (router_env nothing_refused) ''/perm'' (router_kernel [eth0, uplink0])) = None
   \<and> fst (applyInterfaces (router_env nothing_refused) ''/perm''
            (snd (applyInterfaces (router_env nothing_refused) ''/perm'' (router_kernel [eth0, uplink0]))))
       = None
   \<and> addrs (snd (applyInterfaces (router_env nothing_refused) ''/perm'' (router_kernel [eth0, uplink0])))
       = {(2, lan_addr)}
   \<and> addrs (snd (applyInterfaces (router_env nothing_refused) ''/perm''
              (snd (applyInterfaces (router_env nothing_refused) ''/perm'' (router_kernel [eth0, uplink0])))))
       = {(2, lan_addr)}
   \<and> file_content (router_env nothing_refused)
        (filepath_Join (router_env nothing_refused) ''/perm'' ''dhcp6/wire/lease.json'') = Inr ''lease6''
   \<and> Unmarshal_dhcp6_Config (router_env nothing_refused) ''lease6'' = Inr lease6
   \<and> Prefixes lease6 = prefix48 # []
   \<and> fst (applyDhcp6 (router_env nothing_refused) ''uplink0'' ''/perm'' (router_kernel [eth0, uplink0])) = Return None
   \<and> fst (applyDhcp6 (router_env nothing_refused) ''uplink0'' ''/perm''
            (snd (applyDhcp6 (router_env nothing_refused) ''uplink0'' ''/perm'' (router_kernel [eth0, uplink0]))))
       = Return (Some (Errorf_AddrAdd lan6_addr (Errno ''file exists'')))"
proof -
  let ?E = "router_env nothing_refused" and ?k = "router_kernel [eth0, uplink0]"
  have d: "distinct (map Index (links ?k))" by (simp add: eth0_def uplink0_def)
  have a: "file_content ?E (filepath_Join ?E ''/perm'' ''dhcp6/wire/lease.json'') = Inr ''lease6''" by simp
  have b: "Unmarshal_dhcp6_Config ?E ''lease6'' = Inr lease6" by simp
  have p: "Prefixes lease6 = prefix48 # []" by (simp add: lease6_def)
  have once: "addrs (snd (applyInterfaces ?E ''/perm'' ?k)) = {(2, lan_addr)}"
    by (simp add: applyInterfaces_addrs router_interfaces_addrs)
  note first = router_interfaces_result
  note th = replace_idempotent_add_not [where k = ?k and E = ?E and dir = "''/perm''"
      and b = "''lease6''" and got = lease6 and p = prefix48 and ps = "[]"
      and iface = "''uplink0''" and k' = ?k and r = None]
  from th [THEN conjunct1] d
  have "fst (applyInterfaces ?E ''/perm'' (snd (applyInterfaces ?E ''/perm'' ?k)))
          = fst (applyInterfaces ?E ''/perm'' ?k)
      \<and> addrs (snd (applyInterfaces ?E ''/perm'' (snd (applyInterfaces ?E ''/perm'' ?k))))
          = addrs (snd (applyInterfaces ?E ''/perm'' ?k))"
    by blast
  then have second: "fst (applyInterfaces ?E ''/perm'' (snd (applyInterfaces ?E ''/perm'' ?k))) = None"
    and twice: "addrs (snd (applyInterfaces ?E ''/perm'' (snd (applyInterfaces ?E ''/perm'' ?k)))) = {(2, lan_addr)}"
    unfolding first once by simp_all
  from th [THEN conjunct2] a b p router_dhcp6_first_run
  have "\<exists>a. ParseAddr ?E (IPNet_String ?E (first_address prefix48)) = Inr a
          \<and> fst (applyDhcp6 ?E ''uplink0'' ''/perm'' (snd (applyDhcp6 ?E ''uplink0'' ''/perm'' ?k)))
              = Return (Some (Errorf_AddrAdd a (Errno ''file exists'')))"
    by blast
  then have again: "fst (applyDhcp6 ?E ''uplink0'' ''/perm'' (snd (applyDhcp6 ?E ''uplink0'' ''/perm'' ?k)))
              = Return (Some (Errorf_AddrAdd lan6_addr (Errno ''file exists'')))"
    unfolding router_first_prefix by simp
  from d first second once twice a b p router_dhcp6_first_run again show ?thesis by blast
qed


end
